theory Spec2Isabelle
  imports Main "HOL-Library.Word"
begin

section \<open>Game Showcase backend (src/server.js)\<close>

text \<open>
  The server keeps two process-wide variables, the array \<open>games\<close> and the version tag
  \<open>fileSHA\<close>, and talks to three things outside itself: the GitHub contents API
  (\<open>fetch\<close>), the clock and random generator of the runtime, and the connected WebSocket
  clients. The model threads one \<open>state\<close> record through every function. What the outside
  answers is scripted in a \<open>world\<close>: its \<open>i\<close>-th answer to a GET, to a PUT (which may depend
  on the request body), to a clock reading, to a random draw. Every effect the server has on
  the outside (HTTP calls, sleeps, console lines, WebSocket sends) is appended to a trace.

  A handler runs until its next \<open>await\<close>, and while it waits the handlers of other requests
  run. Each handler is therefore modelled in two pieces, the one before its
  \<open>await saveToGitHub(...)\<close> and the one after it, and \<open>saveToGitHub\<close> in the pieces between
  its own awaits. Section \<open>Interleaving\<close> runs these pieces for any number of requests in any
  order. The functions \<open>post_add\<close>, \<open>post_edit\<close> and \<open>post_delete\<close> are the routes for a
  request that no other request overlaps: the piece before, the save, the piece after.
\<close>

subsection \<open>JavaScript strings\<close>

text \<open>A JavaScript string is a sequence of UTF-16 code units.\<close>

type_synonym jsstr = "16 word list"

definition js :: "string \<Rightarrow> jsstr" where
  "js s = map of_char s"

definition dquote :: jsstr where
  "dquote = [0x22]"

text \<open>White space and line terminators of ECMAScript, the code units \<open>String.prototype.trim\<close> strips.\<close>

definition isWhiteSpace :: "16 word \<Rightarrow> bool" where
  "isWhiteSpace c \<longleftrightarrow>
     c \<in> set [0x9, 0xA, 0xB, 0xC, 0xD, 0x20, 0xA0, 0x1680, 0x2028, 0x2029, 0x202F, 0x205F, 0x3000, 0xFEFF]
     \<or> (0x2000 \<le> c \<and> c \<le> 0x200A)"

definition trim :: "jsstr \<Rightarrow> jsstr" where
  "trim s = rev (dropWhile isWhiteSpace (rev (dropWhile isWhiteSpace s)))"

text \<open>
  A header, a version tag or a message is a string or absent (\<open>undefined\<close> or \<open>null\<close>, which
  the code never tells apart there): \<open>None\<close> is absent. \<open>truthy v\<close> is the test \<open>if (v)\<close> on
  such a value, \<open>orElse a b\<close> is \<open>a || b\<close>.
\<close>

definition truthy :: "jsstr option \<Rightarrow> bool" where
  "truthy v = (case v of None \<Rightarrow> False | Some s \<Rightarrow> s \<noteq> [])"

definition orElse :: "jsstr option \<Rightarrow> jsstr \<Rightarrow> jsstr" where
  "orElse a b = (case a of None \<Rightarrow> b | Some s \<Rightarrow> if s \<noteq> [] then s else b)"

definition startsWith :: "jsstr \<Rightarrow> jsstr \<Rightarrow> bool" where
  "startsWith s p \<longleftrightarrow> take (length p) s = p"

text \<open>\<open>s.slice(a, b)\<close> for \<open>0 \<le> a \<le> b\<close>.\<close>

definition slice' :: "jsstr \<Rightarrow> nat \<Rightarrow> nat \<Rightarrow> jsstr" where
  "slice' s a b = take (b - a) (drop a s)"

text \<open>An integer inside a template literal: its decimal digits, with a sign when negative.\<close>

fun dec_nat :: "nat \<Rightarrow> jsstr" where
  "dec_nat n = (if n < 10 then [of_nat (48 + n)] else dec_nat (n div 10) @ [of_nat (48 + n mod 10)])"

declare dec_nat.simps [simp del]

definition dec_int :: "int \<Rightarrow> jsstr" where
  "dec_int i = (if i < 0 then js ''-'' @ dec_nat (nat (- i)) else dec_nat (nat i))"

subsection \<open>The values of a request body\<close>

text \<open>
  What \<open>JSON.parse\<close> makes of a value of the body. A number is kept as the 64 bits of its
  double. A field of \<open>req.body\<close> is such a value, or \<open>undefined\<close> when the body has no such
  key: \<open>None\<close>. The fields of a multipart body are strings.
\<close>

datatype jsvalue =
    VNull
  | VBool bool
  | VNumber "64 word"
  | VString jsstr
  | VArray "jsvalue list"
  | VObject "(jsstr \<times> jsvalue) list"

text \<open>
  The test \<open>if (v)\<close> on a field: \<open>undefined\<close>, \<open>null\<close>, \<open>false\<close>, the empty string and the
  numbers 0, -0 and NaN are falsy (a double is one of these when, its sign bit apart, it is
  zero or lies above the bits of infinity), every other value is truthy.
\<close>

definition truthy_value :: "jsvalue option \<Rightarrow> bool" where
  "truthy_value v =
     (case v of
        None \<Rightarrow> False
      | Some VNull \<Rightarrow> False
      | Some (VBool b) \<Rightarrow> b
      | Some (VNumber w) \<Rightarrow> take_bit 63 w \<noteq> 0 \<and> take_bit 63 w \<le> 0x7FF0000000000000
      | Some (VString s) \<Rightarrow> s \<noteq> []
      | Some (VArray xs) \<Rightarrow> True
      | Some (VObject kvs) \<Rightarrow> True)"

text \<open>
  \<open>v?.trim()\<close>: \<open>undefined\<close> on \<open>undefined\<close> and \<open>null\<close>, the trimmed string on a string. On
  any other value \<open>v.trim\<close> is not a function (a number, a boolean and an array have no such
  property, and the property of a parsed object is never a function), and the call throws a
  TypeError: \<open>trim_throws v\<close>. \<open>trimOpt v\<close> is the value of the call when it does not throw.
\<close>

definition trim_throws :: "jsvalue option \<Rightarrow> bool" where
  "trim_throws v =
     (case v of
        None \<Rightarrow> False
      | Some VNull \<Rightarrow> False
      | Some (VString s) \<Rightarrow> False
      | Some (VBool b) \<Rightarrow> True
      | Some (VNumber w) \<Rightarrow> True
      | Some (VArray xs) \<Rightarrow> True
      | Some (VObject kvs) \<Rightarrow> True)"

definition trimOpt :: "jsvalue option \<Rightarrow> jsstr option" where
  "trimOpt v = (case v of Some (VString s) \<Rightarrow> Some (trim s) | _ \<Rightarrow> None)"

text \<open>The string of a field already known to be one (\<open>title.trim()\<close> after the guard on \<open>title?.trim()\<close>).\<close>

definition string_of :: "jsvalue option \<Rightarrow> jsstr" where
  "string_of v = (case v of Some (VString s) \<Rightarrow> s | _ \<Rightarrow> [])"

subsection \<open>Data\<close>

text \<open>
  One entry of \<open>games\<close>. \<open>image\<close> is the data URI of an upload, \<open>null\<close>, or whatever truthy
  value the body carried under \<open>image\<close>; \<open>updatedAt\<close> is absent until an edit.
\<close>

record game =
  id' :: jsstr
  title :: jsstr
  description :: jsstr
  link :: jsstr
  image' :: "jsvalue option"
  createdAt :: jsstr
  updatedAt :: "jsstr option"

record config =
  ADMIN_TOKEN :: jsstr

definition MAX_IMAGE :: nat where
  "MAX_IMAGE = 2 * 1024 * 1024"

definition MAX_RETRIES :: nat where
  "MAX_RETRIES = 3"

datatype error = Error (message_of: jsstr)

text \<open>
  The body of the PUT: the commit message, the serialised array (the base64 of its JSON text,
  kept here as the array it encodes) and the \<open>sha\<close> key when \<open>fileSHA\<close> is truthy.
\<close>

record put_body =
  message :: jsstr
  content :: "game list"
  sha :: "jsstr option"

text \<open>
  The JSON document of a GET: its \<open>sha\<close>, and the array that its \<open>content\<close> decodes and parses
  to, or else the message of the exception that \<open>Buffer.from\<close> or \<open>JSON.parse\<close> throws on it.
\<close>

record contents_doc =
  doc_sha :: "jsstr option"
  doc_content :: "jsstr + game list"

text \<open>
  What a GET gives: \<open>fetch\<close> throws; or a response with its status code and what \<open>json()\<close> makes
  of its body, the document or the message of the exception \<open>json()\<close> throws. What a PUT gives:
  \<open>fetch\<close> or the reading of the response throws; a response that is not \<open>ok\<close>, with the
  \<open>message\<close> of its JSON body and its \<open>statusText\<close>; an \<open>ok\<close> response with \<open>content.sha\<close>.
\<close>

datatype get_result = GetThrows jsstr | GetResponse nat "jsstr + contents_doc"

text \<open>\<open>res.ok\<close>: the status is in the range 200 to 299.\<close>

definition ok :: "nat \<Rightarrow> bool" where
  "ok code \<longleftrightarrow> 200 \<le> code \<and> code \<le> 299"

datatype put_result = PutThrows jsstr | PutNotOk "jsstr option" jsstr | PutOk "jsstr option"

datatype payload = PGames "game list" | PGame game | PId jsstr

record ws_message =
  type' :: jsstr
  payload :: payload
  ts :: int

record client =
  cid :: nat
  readyState :: nat

datatype event =
    Fetch_GET
  | Fetch_PUT put_body
  | Sleep nat
  | Console_NotFound
  | Console_Loaded nat
  | Console_LoadFailed jsstr
  | Console_SaveFailed nat nat jsstr
  | Console_Committed jsstr
  | Console_Error jsstr
  | Console_Unhandled jsstr
  | Console_Connected
  | Send nat ws_message

record world =
  get_resp :: "nat \<Rightarrow> get_result"
  put_resp :: "nat \<Rightarrow> put_body \<Rightarrow> put_result"
  clock :: "nat \<Rightarrow> int"
  random36 :: "nat \<Rightarrow> jsstr"
  toISOString :: "int \<Rightarrow> jsstr"

record state =
  games :: "game list"
  fileSHA :: "jsstr option"
  clients :: "client list"
  world :: world
  n_get :: nat
  n_put :: nat
  n_clock :: nat
  n_random :: nat
  trace :: "event list"

datatype body =
    JError jsstr
  | JGame game
  | JGames "game list"
  | JOkId jsstr
  | JHealth nat

record response =
  status :: nat
  json :: body

text \<open>
  How a request ends: with a response, or, when the handler throws outside its \<open>try\<close>, with
  the rejection of the promise the \<open>async\<close> handler returned, and no response of the
  handler's. The exception is the TypeError of a \<open>trim\<close> that is not a function, on the field
  named.
\<close>

datatype uncaught = TypeError string

datatype outcome = Responded response | Rejected uncaught

text \<open>The request was answered with this status code.\<close>

definition answers :: "outcome \<Rightarrow> nat \<Rightarrow> bool" where
  "answers out code = (case out of Responded r \<Rightarrow> status r = code | Rejected e \<Rightarrow> False)"

text \<open>The file of a multipart request, as multer hands it over: \<open>base64\<close> is \<open>buffer.toString('base64')\<close>.\<close>

record upload =
  mimetype :: jsstr
  size' :: nat
  base64 :: jsstr

text \<open>
  The keys of \<open>req.body\<close> that the handlers read, and a request: its Authorization header, its
  body, and its file. The body is what the body parsers make of it: the object with its
  fields, or the error \<open>express.json()\<close> raises on a body that is sent as JSON and is not JSON
  text, or is longer than 3 MB.
\<close>

record fields =
  f_id :: "jsvalue option"
  f_title :: "jsvalue option"
  f_description :: "jsvalue option"
  f_link :: "jsvalue option"
  f_image :: "jsvalue option"

record request =
  authorization :: "jsstr option"
  req_body :: "error + fields"
  file' :: "upload option"

text \<open>\<open>req.body.id\<close> and the like, which a handler reads only once the body has parsed.\<close>

definition body_id :: "request \<Rightarrow> jsvalue option" where
  "body_id req = (case req_body req of Inl e \<Rightarrow> None | Inr b \<Rightarrow> f_id b)"

definition body_title :: "request \<Rightarrow> jsvalue option" where
  "body_title req = (case req_body req of Inl e \<Rightarrow> None | Inr b \<Rightarrow> f_title b)"

definition body_description :: "request \<Rightarrow> jsvalue option" where
  "body_description req = (case req_body req of Inl e \<Rightarrow> None | Inr b \<Rightarrow> f_description b)"

definition body_link :: "request \<Rightarrow> jsvalue option" where
  "body_link req = (case req_body req of Inl e \<Rightarrow> None | Inr b \<Rightarrow> f_link b)"

definition body_image :: "request \<Rightarrow> jsvalue option" where
  "body_image req = (case req_body req of Inl e \<Rightarrow> None | Inr b \<Rightarrow> f_image b)"

subsection \<open>The outside world\<close>

definition emit :: "event \<Rightarrow> state \<Rightarrow> state" where
  "emit e st = st\<lparr>trace := trace st @ [e]\<rparr>"

text \<open>\<open>Date.now()\<close>, and the reading of the clock by \<open>new Date()\<close>.\<close>

definition Date_now :: "state \<Rightarrow> int \<times> state" where
  "Date_now st = (clock (world st) (n_clock st), st\<lparr>n_clock := Suc (n_clock st)\<rparr>)"

text \<open>\<open>Math.random().toString(36)\<close>.\<close>

definition Math_random36 :: "state \<Rightarrow> jsstr \<times> state" where
  "Math_random36 st = (random36 (world st) (n_random st), st\<lparr>n_random := Suc (n_random st)\<rparr>)"

text \<open>
  A call of \<open>fetch\<close> is numbered when it is made, and the world's answer to the call of that
  number is what the \<open>await\<close> on it gives, whenever the caller is resumed.
\<close>

definition fetch_GET :: "state \<Rightarrow> get_result \<times> state" where
  "fetch_GET st = (get_resp (world st) (n_get st), emit Fetch_GET (st\<lparr>n_get := Suc (n_get st)\<rparr>))"

definition fetch_PUT :: "put_body \<Rightarrow> state \<Rightarrow> put_result \<times> state" where
  "fetch_PUT b st = (put_resp (world st) (n_put st) b, emit (Fetch_PUT b) (st\<lparr>n_put := Suc (n_put st)\<rparr>))"

definition sleep :: "nat \<Rightarrow> state \<Rightarrow> state" where
  "sleep ms st = emit (Sleep ms) st"

subsection \<open>loadFromGitHub\<close>

text \<open>
  Lines 42 to 57. A 404 leaves the variables as they are; otherwise the version tag is taken
  from the document, then the collection from its content. Whatever is thrown on the way is
  caught and logged, and what was assigned before stays assigned.
\<close>

definition loadFromGitHub :: "state \<Rightarrow> state" where
  "loadFromGitHub st =
     (case fetch_GET st of
        (GetThrows m, st1) \<Rightarrow> emit (Console_LoadFailed m) st1
      | (GetResponse code body, st1) \<Rightarrow>
          if code = 404 then emit Console_NotFound st1
          else
            (case body of
               Inl m \<Rightarrow> emit (Console_LoadFailed m) st1
             | Inr data \<Rightarrow>
                 (let st2 = st1\<lparr>fileSHA := doc_sha data\<rparr>
                  in case doc_content data of
                       Inl m \<Rightarrow> emit (Console_LoadFailed m) st2
                     | Inr gs \<Rightarrow> emit (Console_Loaded (length gs)) (st2\<lparr>games := gs\<rparr>))))"

subsection \<open>saveToGitHub, awaited with nothing else running\<close>

text \<open>Lines 64 to 70: the version tag is fetched again on every attempt after the first, and whenever it is falsy.\<close>

definition refresh_sha :: "nat \<Rightarrow> state \<Rightarrow> (error + unit) \<times> state" where
  "refresh_sha attempt st =
     (if attempt > 1 \<or> \<not> truthy (fileSHA st) then
        (case fetch_GET st of
           (GetThrows m, st1) \<Rightarrow> (Inl (Error m), st1)
         | (GetResponse code body, st1) \<Rightarrow>
             if ok code then
               (case body of
                  Inl m \<Rightarrow> (Inl (Error m), st1)
                | Inr checkData \<Rightarrow> (Inr (), st1\<lparr>fileSHA := doc_sha checkData\<rparr>))
             else (Inr (), st1))
      else (Inr (), st))"

text \<open>The body of the \<open>try\<close>, lines 62 to 89.\<close>

definition save_attempt :: "jsstr \<Rightarrow> nat \<Rightarrow> state \<Rightarrow> (error + unit) \<times> state" where
  "save_attempt msg attempt st =
     (case refresh_sha attempt st of
        (Inl err, st1) \<Rightarrow> (Inl err, st1)
      | (Inr _, st1) \<Rightarrow>
          (let b = \<lparr>message = msg, content = games st1,
                    sha = (if truthy (fileSHA st1) then fileSHA st1 else None)\<rparr>
           in case fetch_PUT b st1 of
                (PutThrows m, st2) \<Rightarrow> (Inl (Error m), st2)
              | (PutNotOk m statusText, st2) \<Rightarrow> (Inl (Error (orElse m statusText)), st2)
              | (PutOk s, st2) \<Rightarrow> (Inr (), emit (Console_Committed msg) (st2\<lparr>fileSHA := s\<rparr>))))"

text \<open>The \<open>for\<close> loop with its \<open>catch\<close>: log, rethrow on the last attempt, otherwise back off and go on.\<close>

function saveToGitHub_from :: "jsstr \<Rightarrow> nat \<Rightarrow> state \<Rightarrow> (error + unit) \<times> state" where
  "saveToGitHub_from msg attempt st =
     (if attempt \<le> MAX_RETRIES then
        (case save_attempt msg attempt st of
           (Inr u, st1) \<Rightarrow> (Inr u, st1)
         | (Inl err, st1) \<Rightarrow>
             (let st2 = emit (Console_SaveFailed attempt MAX_RETRIES (message_of err)) st1
              in if attempt = MAX_RETRIES then (Inl err, st2)
                 else saveToGitHub_from msg (attempt + 1) (sleep (500 * attempt) st2)))
      else (Inr (), st))"
  by pat_completeness auto
termination
  by (relation "measure (\<lambda>(msg, attempt, st). MAX_RETRIES + 1 - attempt)") auto

declare saveToGitHub_from.simps [simp del]

definition saveToGitHub :: "jsstr \<Rightarrow> state \<Rightarrow> (error + unit) \<times> state" where
  "saveToGitHub msg st = saveToGitHub_from msg 1 st"

subsection \<open>saveToGitHub, from one await to the next\<close>

text \<open>
  The function awaits the answer to its GET (\<open>fetch\<close>, then \<open>json()\<close>), the answer to its PUT
  (\<open>fetch\<close>, then \<open>json()\<close>) and the timer of its back-off. Between the two awaits of an answer
  it touches no variable, so they are one wait here. A call that waits holds its attempt
  number, and the answer it will be given.
\<close>

datatype waiting = ForGET nat get_result | ForPUT nat put_result | ForTimer nat

text \<open>Lines 72 to 83: the body is built from \<open>games\<close> and \<open>fileSHA\<close> as they are now, and the PUT is sent.\<close>

definition start_PUT :: "jsstr \<Rightarrow> nat \<Rightarrow> state \<Rightarrow> waiting \<times> state" where
  "start_PUT msg attempt st =
     (let b = \<lparr>message = msg, content = games st,
               sha = (if truthy (fileSHA st) then fileSHA st else None)\<rparr>
      in case fetch_PUT b st of (r, st1) \<Rightarrow> (ForPUT attempt r, st1))"

text \<open>The head of the loop and the body of the \<open>try\<close> up to its first await.\<close>

definition loop :: "jsstr \<Rightarrow> nat \<Rightarrow> state \<Rightarrow> (waiting + (error + unit)) \<times> state" where
  "loop msg attempt st =
     (if attempt \<le> MAX_RETRIES then
        (if attempt > 1 \<or> \<not> truthy (fileSHA st) then
           (case fetch_GET st of (r, st1) \<Rightarrow> (Inl (ForGET attempt r), st1))
         else (case start_PUT msg attempt st of (w, st1) \<Rightarrow> (Inl w, st1)))
      else (Inr (Inr ()), st))"

text \<open>The \<open>catch\<close>, lines 90 to 94, up to the await of the timer.\<close>

definition caught :: "nat \<Rightarrow> error \<Rightarrow> state \<Rightarrow> (waiting + (error + unit)) \<times> state" where
  "caught attempt err st =
     (let st1 = emit (Console_SaveFailed attempt MAX_RETRIES (message_of err)) st
      in if attempt = MAX_RETRIES then (Inr (Inl err), st1)
         else (Inl (ForTimer attempt), sleep (500 * attempt) st1))"

text \<open>
  The call is resumed with what it waited for, and runs to its next await (\<open>Inl\<close>) or to its
  end (\<open>Inr\<close>: it returns, or throws the error).
\<close>

definition continue :: "jsstr \<Rightarrow> waiting \<Rightarrow> state \<Rightarrow> (waiting + (error + unit)) \<times> state" where
  "continue msg w st =
     (case w of
        ForGET attempt r \<Rightarrow>
          (case r of
             GetThrows m \<Rightarrow> caught attempt (Error m) st
           | GetResponse code body \<Rightarrow>
               if ok code then
                 (case body of
                    Inl m \<Rightarrow> caught attempt (Error m) st
                  | Inr checkData \<Rightarrow>
                      (case start_PUT msg attempt (st\<lparr>fileSHA := doc_sha checkData\<rparr>) of
                         (w', st1) \<Rightarrow> (Inl w', st1)))
               else (case start_PUT msg attempt st of (w', st1) \<Rightarrow> (Inl w', st1)))
      | ForPUT attempt r \<Rightarrow>
          (case r of
             PutThrows m \<Rightarrow> caught attempt (Error m) st
           | PutNotOk m statusText \<Rightarrow> caught attempt (Error (orElse m statusText)) st
           | PutOk s \<Rightarrow> (Inr (Inr ()), emit (Console_Committed msg) (st\<lparr>fileSHA := s\<rparr>)))
      | ForTimer attempt \<Rightarrow> loop msg (attempt + 1) st)"

text \<open>The awaits that can still follow one, at most: the measure of the next function.\<close>

definition awaits_left :: "waiting \<Rightarrow> nat" where
  "awaits_left w =
     (case w of
        ForGET attempt r \<Rightarrow> 3 * (MAX_RETRIES - attempt) + 3
      | ForPUT attempt r \<Rightarrow> 3 * (MAX_RETRIES - attempt) + 2
      | ForTimer attempt \<Rightarrow> 3 * (MAX_RETRIES - attempt) + 1)"

text \<open>The call resumed again and again with nothing in between, until it ends.\<close>

function drive :: "jsstr \<Rightarrow> (waiting + (error + unit)) \<times> state \<Rightarrow> (error + unit) \<times> state" where
  "drive msg (Inr r, st) = (r, st)"
| "drive msg (Inl w, st) = drive msg (continue msg w st)"
  by pat_completeness auto
termination
proof (relation "measure (\<lambda>(msg, p, st). case p of Inl w \<Rightarrow> Suc (awaits_left w) | Inr r \<Rightarrow> 0)")
  show "wf (measure (\<lambda>(msg, p, st). case p of Inl w \<Rightarrow> Suc (awaits_left w) | Inr r \<Rightarrow> 0))"
    by simp
next
  fix msg :: jsstr and w :: waiting and st :: state
  show "((msg, continue msg w st), (msg, Inl w, st))
          \<in> measure (\<lambda>(msg, p, st). case p of Inl w \<Rightarrow> Suc (awaits_left w) | Inr r \<Rightarrow> 0)"
    by (cases "continue msg w st")
       (auto simp add: continue_def caught_def loop_def start_PUT_def awaits_left_def Let_def
          MAX_RETRIES_def split: waiting.splits get_result.splits put_result.splits sum.splits
          if_splits prod.splits)
qed

subsection \<open>Middleware\<close>

text \<open>
  \<open>express.json({ limit: '3mb' })\<close> is mounted on the application, before every route (line
  103): a body sent as JSON is read and parsed before \<open>requireAuth\<close> runs, and what the
  parser raises goes to the error handler.
\<close>

definition json_parser :: "request \<Rightarrow> error option" where
  "json_parser req = (case req_body req of Inl e \<Rightarrow> Some e | Inr b \<Rightarrow> None)"

definition requireAuth :: "config \<Rightarrow> request \<Rightarrow> response option" where
  "requireAuth cfg req =
     (let token = authorization req
      in if \<not> truthy token \<or> token \<noteq> Some (js ''Bearer '' @ ADMIN_TOKEN cfg)
         then Some \<lparr>status = 401, json = JError (js ''Unauthorized'')\<rparr>
         else None)"

definition fileFilter :: "upload \<Rightarrow> error option" where
  "fileFilter f =
     (if \<not> startsWith (mimetype f) (js ''image/'')
      then Some (Error (js ''Only image files are allowed''))
      else None)"

text \<open>\<open>upload.single('image')\<close>: the filter, then multer's size limit.\<close>

definition upload_single :: "request \<Rightarrow> error option" where
  "upload_single req =
     (case file' req of
        None \<Rightarrow> None
      | Some f \<Rightarrow>
          (case fileFilter f of
             Some e \<Rightarrow> Some e
           | None \<Rightarrow> if size' f > MAX_IMAGE then Some (Error (js ''File too large'')) else None))"

definition error_handler :: "error \<Rightarrow> state \<Rightarrow> response \<times> state" where
  "error_handler err st =
     (\<lparr>status = 500, json = JError (orElse (Some (message_of err)) (js ''Internal server error''))\<rparr>,
      emit (Console_Unhandled (message_of err)) st)"

subsection \<open>WebSocket\<close>

text \<open>The callback of \<open>wss.clients.forEach\<close>: only a client whose socket is open (state 1) is sent to.\<close>

definition send_if_open :: "ws_message \<Rightarrow> state \<Rightarrow> client \<Rightarrow> state" where
  "send_if_open msg s c = (if readyState c = 1 then emit (Send (cid c) msg) s else s)"

definition broadcast :: "jsstr \<Rightarrow> payload \<Rightarrow> state \<Rightarrow> state" where
  "broadcast t p st =
     (let (now, st1) = Date_now st;
          msg = \<lparr>type' = t, payload = p, ts = now\<rparr>
      in foldl (send_if_open msg) st1 (clients st1))"

text \<open>A new connection: the socket joins \<open>wss.clients\<close> open, and the handler of lines 136 to 140 runs.\<close>

definition on_connection :: "nat \<Rightarrow> state \<Rightarrow> state" where
  "on_connection ws st =
     (let st0 = st\<lparr>clients := clients st @ [\<lparr>cid = ws, readyState = 1\<rparr>]\<rparr>;
          st1 = emit Console_Connected st0;
          (now, st2) = Date_now st1
      in emit (Send ws \<lparr>type' = js ''init'', payload = PGames (games st2), ts = now\<rparr>) st2)"

subsection \<open>Routes\<close>

definition get_games :: "state \<Rightarrow> response \<times> state" where
  "get_games st = (\<lparr>status = 200, json = JGames (rev (games st))\<rparr>, st)"

definition get_health :: "state \<Rightarrow> response \<times> state" where
  "get_health st = (\<lparr>status = 200, json = JHealth (length (games st))\<rparr>, st)"

definition dataURI :: "upload \<Rightarrow> jsstr" where
  "dataURI f = js ''data:'' @ mimetype f @ js '';base64,'' @ base64 f"

fun findIndex :: "('a \<Rightarrow> bool) \<Rightarrow> 'a list \<Rightarrow> nat option" where
  "findIndex P [] = None"
| "findIndex P (x # xs) = (if P x then Some 0 else map_option Suc (findIndex P xs))"

definition commit_message :: "string \<Rightarrow> jsstr \<Rightarrow> jsstr" where
  "commit_message verb t = js ''Update games.json: '' @ js verb @ js '' '' @ dquote @ t @ dquote"

text \<open>
  Every mutating route is the chain of \<open>express.json()\<close>, \<open>requireAuth\<close>, the upload middleware
  (not on /delete) and the handler. The chain either ends the request (\<open>Inl\<close>) or brings the
  handler to its \<open>await saveToGitHub(...)\<close> (\<open>Inr\<close>, with the variables the handler holds
  across the await). The middleware touch neither \<open>games\<close> nor \<open>fileSHA\<close>, so that the chain
  is one piece here although the body parsers wait for the body.
\<close>

definition into_error_handler :: "error \<Rightarrow> state \<Rightarrow> (outcome + 'a) \<times> state" where
  "into_error_handler e st = (case error_handler e st of (r, st1) \<Rightarrow> (Inl (Responded r), st1))"

text \<open>POST /add, lines 160 to 176: the new entry is built and pushed.\<close>

definition add_push :: "request \<Rightarrow> state \<Rightarrow> game \<times> state" where
  "add_push req st =
     (let image = (case file' req of
                     Some f \<Rightarrow> Some (VString (dataURI f))
                   | None \<Rightarrow> if truthy_value (body_image req) then body_image req else Some VNull);
          (now, st1) = Date_now st;
          (r, st2) = Math_random36 st1;
          (d, st3) = Date_now st2;
          game = \<lparr>id' = js ''game_'' @ dec_int now @ js ''_'' @ slice' r 2 7,
                  title = trim (string_of (body_title req)),
                  description = trim (string_of (body_description req)),
                  link = trim (string_of (body_link req)),
                  image' = image,
                  createdAt = toISOString (world st3) d,
                  updatedAt = None\<rparr>
      in (game, st3\<lparr>games := games st3 @ [game]\<rparr>))"

text \<open>
  The handler of POST /add up to its await, lines 154 to 178. The guard of line 156 evaluates
  \<open>title?.trim()\<close>, \<open>description?.trim()\<close> and \<open>link?.trim()\<close> from left to right and stops at
  the first that is falsy; each of the calls throws on a value that is neither a string nor
  absent. The handler holds \<open>game\<close> across the await.
\<close>

definition add_handler :: "request \<Rightarrow> state \<Rightarrow> (outcome + game) \<times> state" where
  "add_handler req st =
     (if trim_throws (body_title req) then (Inl (Rejected (TypeError ''title'')), st)
      else if \<not> truthy (trimOpt (body_title req))
      then (Inl (Responded \<lparr>status = 400, json = JError (js ''title, description, and link are required'')\<rparr>), st)
      else if trim_throws (body_description req) then (Inl (Rejected (TypeError ''description'')), st)
      else if \<not> truthy (trimOpt (body_description req))
      then (Inl (Responded \<lparr>status = 400, json = JError (js ''title, description, and link are required'')\<rparr>), st)
      else if trim_throws (body_link req) then (Inl (Rejected (TypeError ''link'')), st)
      else if \<not> truthy (trimOpt (body_link req))
      then (Inl (Responded \<lparr>status = 400, json = JError (js ''title, description, and link are required'')\<rparr>), st)
      else (case add_push req st of (game, st1) \<Rightarrow> (Inr game, st1)))"

text \<open>The handler after its await, lines 180 to 185: \<open>r\<close> is how \<open>saveToGitHub\<close> ended.\<close>

definition add_after :: "game \<Rightarrow> error + unit \<Rightarrow> state \<Rightarrow> outcome \<times> state" where
  "add_after game r st =
     (case r of
        Inr u \<Rightarrow> (Responded \<lparr>status = 201, json = JGame game\<rparr>, broadcast (js ''add'') (PGame game) st)
      | Inl err \<Rightarrow>
          (Responded \<lparr>status = 500, json = JError (js ''Failed to persist game'')\<rparr>,
           emit (Console_Error (message_of err)) (st\<lparr>games := butlast (games st)\<rparr>)))"

definition add_route :: "config \<Rightarrow> request \<Rightarrow> state \<Rightarrow> (outcome + game) \<times> state" where
  "add_route cfg req st =
     (case json_parser req of
        Some e \<Rightarrow> into_error_handler e st
      | None \<Rightarrow>
          (case requireAuth cfg req of
             Some r \<Rightarrow> (Inl (Responded r), st)
           | None \<Rightarrow>
               (case upload_single req of
                  Some e \<Rightarrow> into_error_handler e st
                | None \<Rightarrow> add_handler req st)))"

text \<open>POST /add for a request that no other request overlaps.\<close>

definition post_add :: "config \<Rightarrow> request \<Rightarrow> state \<Rightarrow> outcome \<times> state" where
  "post_add cfg req st =
     (case add_route cfg req st of
        (Inl out, st1) \<Rightarrow> (out, st1)
      | (Inr game, st1) \<Rightarrow>
          (case saveToGitHub (commit_message ''add'' (title game)) st1 of
             (r, st2) \<Rightarrow> add_after game r st2))"

text \<open>POST /edit, lines 198 to 212: the copy of the entry with the supplied fields, put in place.\<close>

definition edit_fields :: "request \<Rightarrow> game \<Rightarrow> state \<Rightarrow> game \<times> state" where
  "edit_fields req prev st =
     (let u0 = prev;
          u1 = (if truthy (trimOpt (body_title req))
                then u0\<lparr>title := trim (string_of (body_title req))\<rparr> else u0);
          u2 = (if truthy (trimOpt (body_description req))
                then u1\<lparr>description := trim (string_of (body_description req))\<rparr> else u1);
          u3 = (if truthy (trimOpt (body_link req))
                then u2\<lparr>link := trim (string_of (body_link req))\<rparr> else u2);
          u4 = (case file' req of
                  Some f \<Rightarrow> u3\<lparr>image' := Some (VString (dataURI f))\<rparr>
                | None \<Rightarrow> if truthy_value (body_image req) then u3\<lparr>image' := body_image req\<rparr> else u3);
          (d, st1) = Date_now st
      in (u4\<lparr>updatedAt := Some (toISOString (world st1) d)\<rparr>, st1))"

definition edit_put :: "request \<Rightarrow> nat \<Rightarrow> state \<Rightarrow> game \<times> state" where
  "edit_put req idx st =
     (let (updated, st1) = edit_fields req (games st ! idx) st
      in (updated, st1\<lparr>games := (games st1)[idx := updated]\<rparr>))"

text \<open>
  The handler of POST /edit up to its await, lines 191 to 214. The three tests of lines 201 to
  203 run one after the other, and the first \<open>trim\<close> that is not a function throws, before
  anything is assigned to \<open>games\<close>. The handler holds \<open>idx\<close>, \<open>prev\<close> and \<open>updated\<close> across
  the await.
\<close>

definition edit_handler :: "request \<Rightarrow> state \<Rightarrow> (outcome + nat \<times> game \<times> game) \<times> state" where
  "edit_handler req st =
     (if \<not> truthy_value (body_id req)
      then (Inl (Responded \<lparr>status = 400, json = JError (js ''id is required'')\<rparr>), st)
      else
        (case findIndex (\<lambda>g. Some (VString (id' g)) = body_id req) (games st) of
           None \<Rightarrow> (Inl (Responded \<lparr>status = 404, json = JError (js ''Game not found'')\<rparr>), st)
         | Some idx \<Rightarrow>
             if trim_throws (body_title req) then (Inl (Rejected (TypeError ''title'')), st)
             else if trim_throws (body_description req) then (Inl (Rejected (TypeError ''description'')), st)
             else if trim_throws (body_link req) then (Inl (Rejected (TypeError ''link'')), st)
             else (case edit_put req idx st of (updated, st1) \<Rightarrow> (Inr (idx, games st ! idx, updated), st1))))"

text \<open>
  \<open>games[idx] = prev\<close>: inside the array the element is replaced, at its end the array grows
  by one. Further out JavaScript leaves empty slots between the old end and \<open>idx\<close>, which the
  lists of this model do not have: \<open>None\<close>.
\<close>

definition assign :: "nat \<Rightarrow> 'a \<Rightarrow> 'a list \<Rightarrow> 'a list option" where
  "assign i v xs =
     (if i < length xs then Some (xs[i := v])
      else if i = length xs then Some (xs @ [v])
      else None)"

text \<open>The handler after its await, lines 215 to 221.\<close>

definition edit_after :: "nat \<Rightarrow> game \<Rightarrow> game \<Rightarrow> error + unit \<Rightarrow> state \<Rightarrow> (outcome \<times> state) option" where
  "edit_after idx prev updated r st =
     (case r of
        Inr u \<Rightarrow> Some (Responded \<lparr>status = 200, json = JGame updated\<rparr>,
                       broadcast (js ''edit'') (PGame updated) st)
      | Inl err \<Rightarrow>
          (case assign idx prev (games st) of
             None \<Rightarrow> None
           | Some gs \<Rightarrow>
               Some (Responded \<lparr>status = 500, json = JError (js ''Failed to persist changes'')\<rparr>,
                     emit (Console_Error (message_of err)) (st\<lparr>games := gs\<rparr>))))"

definition edit_route :: "config \<Rightarrow> request \<Rightarrow> state \<Rightarrow> (outcome + nat \<times> game \<times> game) \<times> state" where
  "edit_route cfg req st =
     (case json_parser req of
        Some e \<Rightarrow> into_error_handler e st
      | None \<Rightarrow>
          (case requireAuth cfg req of
             Some r \<Rightarrow> (Inl (Responded r), st)
           | None \<Rightarrow>
               (case upload_single req of
                  Some e \<Rightarrow> into_error_handler e st
                | None \<Rightarrow> edit_handler req st)))"

text \<open>
  POST /edit for a request that no other request overlaps. The array is then as long at the
  write-back as it was when the index was found, and \<open>edit_after\<close> has a result (lemma
  \<open>post_edit_total\<close>).
\<close>

definition post_edit :: "config \<Rightarrow> request \<Rightarrow> state \<Rightarrow> outcome \<times> state" where
  "post_edit cfg req st =
     (case edit_route cfg req st of
        (Inl out, st1) \<Rightarrow> (out, st1)
      | (Inr (idx, prev, updated), st1) \<Rightarrow>
          (case saveToGitHub (commit_message ''edit'' (title updated)) st1 of
             (r, st2) \<Rightarrow> the (edit_after idx prev updated r st2)))"

text \<open>POST /delete: \<open>splice(idx, 1)\<close> takes the entry out, \<open>splice(idx, 0, removed)\<close> puts it back.\<close>

definition delete_splice :: "nat \<Rightarrow> state \<Rightarrow> game \<times> state" where
  "delete_splice idx st =
     (games st ! idx, st\<lparr>games := take idx (games st) @ drop (Suc idx) (games st)\<rparr>)"

text \<open>The handler of POST /delete up to its await, lines 227 to 235; it holds \<open>idx\<close> and \<open>removed\<close>.\<close>

definition delete_handler :: "request \<Rightarrow> state \<Rightarrow> (outcome + nat \<times> game) \<times> state" where
  "delete_handler req st =
     (if \<not> truthy_value (body_id req)
      then (Inl (Responded \<lparr>status = 400, json = JError (js ''id is required'')\<rparr>), st)
      else
        (case findIndex (\<lambda>g. Some (VString (id' g)) = body_id req) (games st) of
           None \<Rightarrow> (Inl (Responded \<lparr>status = 404, json = JError (js ''Game not found'')\<rparr>), st)
         | Some idx \<Rightarrow> (case delete_splice idx st of (removed, st1) \<Rightarrow> (Inr (idx, removed), st1))))"

text \<open>
  The handler after its await, lines 236 to 242. \<open>splice(idx, 0, removed)\<close> inserts before the
  element at \<open>idx\<close>, and at the end of an array that is shorter.
\<close>

definition delete_after :: "nat \<Rightarrow> game \<Rightarrow> error + unit \<Rightarrow> state \<Rightarrow> outcome \<times> state" where
  "delete_after idx removed r st =
     (case r of
        Inr u \<Rightarrow> (Responded \<lparr>status = 200, json = JOkId (id' removed)\<rparr>,
                  broadcast (js ''delete'') (PId (id' removed)) st)
      | Inl err \<Rightarrow>
          (Responded \<lparr>status = 500, json = JError (js ''Failed to persist deletion'')\<rparr>,
           emit (Console_Error (message_of err))
             (st\<lparr>games := take idx (games st) @ [removed] @ drop idx (games st)\<rparr>)))"

definition delete_route :: "config \<Rightarrow> request \<Rightarrow> state \<Rightarrow> (outcome + nat \<times> game) \<times> state" where
  "delete_route cfg req st =
     (case json_parser req of
        Some e \<Rightarrow> into_error_handler e st
      | None \<Rightarrow>
          (case requireAuth cfg req of
             Some r \<Rightarrow> (Inl (Responded r), st)
           | None \<Rightarrow> delete_handler req st))"

text \<open>POST /delete for a request that no other request overlaps.\<close>

definition post_delete :: "config \<Rightarrow> request \<Rightarrow> state \<Rightarrow> outcome \<times> state" where
  "post_delete cfg req st =
     (case delete_route cfg req st of
        (Inl out, st1) \<Rightarrow> (out, st1)
      | (Inr (idx, removed), st1) \<Rightarrow>
          (case saveToGitHub (commit_message ''delete'' (title removed)) st1 of
             (r, st2) \<Rightarrow> delete_after idx removed r st2))"

subsection \<open>The persist step of each route\<close>

text \<open>
  The call of \<open>saveToGitHub\<close> a handler makes (lines 179, 215 and 236), on the state its
  mutation has produced and with nothing else running: its result and the state it leaves.
\<close>

definition add_persist :: "request \<Rightarrow> state \<Rightarrow> (error + unit) \<times> state" where
  "add_persist req st =
     (let (game, st1) = add_push req st
      in saveToGitHub (commit_message ''add'' (title game)) st1)"

definition edit_persist :: "request \<Rightarrow> nat \<Rightarrow> state \<Rightarrow> (error + unit) \<times> state" where
  "edit_persist req idx st =
     (let (updated, st1) = edit_put req idx st
      in saveToGitHub (commit_message ''edit'' (title updated)) st1)"

definition delete_persist :: "nat \<Rightarrow> state \<Rightarrow> (error + unit) \<times> state" where
  "delete_persist idx st =
     (let (removed, st1) = delete_splice idx st
      in saveToGitHub (commit_message ''delete'' (title removed)) st1)"

subsection \<open>Interleaving\<close>

text \<open>
  A request whose handler waits inside \<open>saveToGitHub\<close>: what the handler holds across the
  await, and what the call waits for. The commit message is the argument of the call.
\<close>

datatype pending = PAdd game | PEdit nat game game | PDelete nat game

datatype suspended = Suspended pending waiting

definition commit_of :: "pending \<Rightarrow> jsstr" where
  "commit_of p =
     (case p of
        PAdd game \<Rightarrow> commit_message ''add'' (title game)
      | PEdit idx prev updated \<Rightarrow> commit_message ''edit'' (title updated)
      | PDelete idx removed \<Rightarrow> commit_message ''delete'' (title removed))"

definition after :: "pending \<Rightarrow> error + unit \<Rightarrow> state \<Rightarrow> (outcome \<times> state) option" where
  "after p r st =
     (case p of
        PAdd game \<Rightarrow> Some (add_after game r st)
      | PEdit idx prev updated \<Rightarrow> edit_after idx prev updated r st
      | PDelete idx removed \<Rightarrow> Some (delete_after idx removed r st))"

datatype route = Add | Edit | Delete

definition route_of :: "route \<Rightarrow> config \<Rightarrow> request \<Rightarrow> state \<Rightarrow> (outcome + pending) \<times> state" where
  "route_of rt cfg req st =
     (case rt of
        Add \<Rightarrow> (case add_route cfg req st of
                  (Inl out, st1) \<Rightarrow> (Inl out, st1)
                | (Inr game, st1) \<Rightarrow> (Inr (PAdd game), st1))
      | Edit \<Rightarrow> (case edit_route cfg req st of
                   (Inl out, st1) \<Rightarrow> (Inl out, st1)
                 | (Inr (idx, prev, updated), st1) \<Rightarrow> (Inr (PEdit idx prev updated), st1))
      | Delete \<Rightarrow> (case delete_route cfg req st of
                     (Inl out, st1) \<Rightarrow> (Inl out, st1)
                   | (Inr (idx, removed), st1) \<Rightarrow> (Inr (PDelete idx removed), st1)))"

text \<open>
  The server with the requests in flight, each under the number it arrived with, and the
  answers given so far, in the order they were given.
\<close>

record system =
  server :: state
  pool :: "(nat \<times> suspended) list"
  replies :: "(nat \<times> outcome) list"

definition idle :: "state \<Rightarrow> system" where
  "idle st = \<lparr>server = st, pool = [], replies = []\<rparr>"

text \<open>
  Where the request \<open>i\<close> stands once its call of \<open>saveToGitHub\<close> has run to \<open>prog\<close>: waiting
  again, or through the rest of its handler and answered. The end of the call and the rest of
  the handler are one piece: the call touches neither \<open>games\<close> nor \<open>fileSHA\<close> between its
  last await and its end but to store the tag of a PUT that succeeded, after which the handler
  reads neither. The result is \<open>None\<close> when the write-back of an edit falls beyond the end of
  the array.
\<close>

definition settle :: "nat \<Rightarrow> pending \<Rightarrow> (waiting + (error + unit)) \<times> state \<Rightarrow> system \<Rightarrow> system option" where
  "settle i p prog sys =
     (case prog of
        (Inl w, st) \<Rightarrow> Some (sys\<lparr>server := st, pool := pool sys @ [(i, Suspended p w)]\<rparr>)
      | (Inr r, st) \<Rightarrow>
          (case after p r st of
             None \<Rightarrow> None
           | Some (out, st1) \<Rightarrow> Some (sys\<lparr>server := st1, replies := replies sys @ [(i, out)]\<rparr>)))"

text \<open>A request arrives: its route runs up to the first await inside \<open>saveToGitHub\<close>, or to its answer.\<close>

definition arrive :: "config \<Rightarrow> nat \<Rightarrow> route \<Rightarrow> request \<Rightarrow> system \<Rightarrow> system option" where
  "arrive cfg i rt req sys =
     (case route_of rt cfg req (server sys) of
        (Inl out, st) \<Rightarrow> Some (sys\<lparr>server := st, replies := replies sys @ [(i, out)]\<rparr>)
      | (Inr p, st) \<Rightarrow> settle i p (loop (commit_of p) 1 st) sys)"

text \<open>What the request \<open>i\<close> waited for is there: it runs to its next await or to its answer.\<close>

definition resume :: "nat \<Rightarrow> system \<Rightarrow> system option" where
  "resume i sys =
     (case map_of (pool sys) i of
        None \<Rightarrow> Some sys
      | Some (Suspended p w) \<Rightarrow>
          settle i p (continue (commit_of p) w (server sys))
            (sys\<lparr>pool := filter (\<lambda>x. fst x \<noteq> i) (pool sys)\<rparr>))"

datatype occurrence = Arrives nat route request | Resumes nat

text \<open>The server taken through what happens, in the order it happens.\<close>

fun run :: "config \<Rightarrow> occurrence list \<Rightarrow> system \<Rightarrow> system option" where
  "run cfg [] sys = Some sys"
| "run cfg (Arrives i rt req # os) sys =
     (case arrive cfg i rt req sys of None \<Rightarrow> None | Some sys1 \<Rightarrow> run cfg os sys1)"
| "run cfg (Resumes i # os) sys =
     (case resume i sys of None \<Rightarrow> None | Some sys1 \<Rightarrow> run cfg os sys1)"

text \<open>One request arrives and is resumed \<open>n\<close> times, with nothing in between.\<close>

definition alone :: "nat \<Rightarrow> nat \<Rightarrow> route \<Rightarrow> request \<Rightarrow> occurrence list" where
  "alone n i rt req = Arrives i rt req # replicate n (Resumes i)"

text \<open>The route of a request that no other request overlaps, by name.\<close>

definition post :: "route \<Rightarrow> config \<Rightarrow> request \<Rightarrow> state \<Rightarrow> outcome \<times> state" where
  "post rt cfg req st =
     (case rt of Add \<Rightarrow> post_add cfg req st | Edit \<Rightarrow> post_edit cfg req st | Delete \<Rightarrow> post_delete cfg req st)"

subsection \<open>Words of the specification\<close>

text \<open>
  A field is blank when it is absent (\<open>undefined\<close> or \<open>null\<close>) or is a string of which
  trimming leaves nothing.
\<close>

definition blank :: "jsvalue option \<Rightarrow> bool" where
  "blank v = (case v of None \<Rightarrow> True | Some VNull \<Rightarrow> True | Some (VString s) \<Rightarrow> trim s = [] | _ \<Rightarrow> False)"

text \<open>
  One of title, description and link is neither a string nor absent (it is a number, a
  boolean, an array or an object), so that \<open>trim\<close> is not a function on it.
\<close>

definition untrimmable :: "request \<Rightarrow> bool" where
  "untrimmable req \<longleftrightarrow>
     trim_throws (body_title req) \<or> trim_throws (body_description req) \<or> trim_throws (body_link req)"

subsection \<open>Reading the trace\<close>

text \<open>The events a run has added to the trace of the state it started from.\<close>

definition new_events :: "state \<Rightarrow> state \<Rightarrow> event list" where
  "new_events st st' = drop (length (trace st)) (trace st')"

fun puts :: "event list \<Rightarrow> put_body list" where
  "puts [] = []"
| "puts (Fetch_PUT b # es) = b # puts es"
| "puts (_ # es) = puts es"

fun sleeps :: "event list \<Rightarrow> nat list" where
  "sleeps [] = []"
| "sleeps (Sleep ms # es) = ms # sleeps es"
| "sleeps (_ # es) = sleeps es"

text \<open>The lines \<open>Save attempt a/m failed: msg\<close>, as triples.\<close>

fun failed_attempts :: "event list \<Rightarrow> (nat \<times> nat \<times> jsstr) list" where
  "failed_attempts [] = []"
| "failed_attempts (Console_SaveFailed a m msg # es) = (a, m, msg) # failed_attempts es"
| "failed_attempts (_ # es) = failed_attempts es"

fun sent :: "event list \<Rightarrow> (nat \<times> ws_message) list" where
  "sent [] = []"
| "sent (Send c m # es) = (c, m) # sent es"
| "sent (_ # es) = sent es"

text \<open>Every back-off in the trace is followed at once by a GET of the version tag.\<close>

fun refetched :: "event list \<Rightarrow> bool" where
  "refetched [] = True"
| "refetched (Sleep ms # es) = ((case es of Fetch_GET # _ \<Rightarrow> True | _ \<Rightarrow> False) \<and> refetched es)"
| "refetched (_ # es) = refetched es"

definition is_PutOk :: "put_result \<Rightarrow> bool" where
  "is_PutOk r = (case r of PutOk _ \<Rightarrow> True | _ \<Rightarrow> False)"

text \<open>The answers to a GET on which the \<open>try\<close> of \<open>saveToGitHub\<close> throws: \<open>fetch\<close> does, or \<open>json()\<close> does on an \<open>ok\<close> response.\<close>

definition is_GetThrows :: "get_result \<Rightarrow> bool" where
  "is_GetThrows r = (case r of GetThrows _ \<Rightarrow> True | GetResponse code body \<Rightarrow> ok code \<and> isl body)"

subsection \<open>Sample configuration, worlds and requests\<close>

definition cfg0 :: config where
  "cfg0 = \<lparr>ADMIN_TOKEN = js ''s3cret''\<rparr>"

text \<open>The answer to a GET when \<open>games.json\<close> has the tag \<open>remote\<close> and holds the array \<open>gs\<close>.\<close>

definition document :: "game list \<Rightarrow> get_result" where
  "document gs = GetResponse 200 (Inr \<lparr>doc_sha = Some (js ''remote''), doc_content = Inr gs\<rparr>)"

text \<open>
  A store that answers every GET with the tag \<open>remote\<close> and the empty array, and refuses the
  PUTs numbered below \<open>n\<close> with a conflict; the \<open>i\<close>-th PUT, when accepted, gets the tag \<open>sha\<close>
  followed by \<open>i\<close>. The clock starts at \<open>t0\<close> and advances by \<open>dt\<close> milliseconds per reading;
  every random draw is the same.
\<close>

definition sample_world :: "nat \<Rightarrow> int \<Rightarrow> int \<Rightarrow> world" where
  "sample_world n t0 dt =
     \<lparr>get_resp = (\<lambda>i. document []),
      put_resp = (\<lambda>i b. if i < n then PutNotOk (Some (js ''is at 1f but expected 2e'')) (js ''Conflict'')
                          else PutOk (Some (js ''sha'' @ dec_nat i))),
      clock = (\<lambda>i. t0 + dt * int i),
      random36 = (\<lambda>i. js ''0.k3j2h1abcde''),
      toISOString = (\<lambda>t. js ''T'' @ dec_int t)\<rparr>"

text \<open>The same, with the network down for every PUT.\<close>

definition down_world :: world where
  "down_world = (sample_world 0 1700 7)\<lparr>put_resp := (\<lambda>i b. PutThrows (js ''socket hang up''))\<rparr>"

text \<open>The same, with the network down for every PUT but the second.\<close>

definition flaky_world :: world where
  "flaky_world =
     (sample_world 0 1700 7)
       \<lparr>put_resp := (\<lambda>i b. if i = 1 then PutOk (Some (js ''sha1'')) else PutThrows (js ''socket hang up''))\<rparr>"

text \<open>The variables as lines 29 and 30 initialise them, and the server once it has booted.\<close>

definition initial :: "world \<Rightarrow> state" where
  "initial w = \<lparr>games = [], fileSHA = None, clients = [], world = w,
                n_get = 0, n_put = 0, n_clock = 0, n_random = 0, trace = []\<rparr>"

definition boot :: "world \<Rightarrow> state" where
  "boot w = loadFromGitHub (initial w)"

definition game1 :: game where
  "game1 = \<lparr>id' = js ''game_1600_a1b2c'', title = js ''Pong'', description = js ''Bat and ball'',
            link = js ''http://pong'', image' = Some VNull, createdAt = js ''T1600'', updatedAt = None\<rparr>"

definition game2 :: game where
  "game2 = \<lparr>id' = js ''game_1650_x9y8z'', title = js ''Tetris'', description = js ''Falling blocks'',
            link = js ''http://tetris'', image' = Some (VString (js ''http://tetris/t.png'')),
            createdAt = js ''T1650'', updatedAt = None\<rparr>"

text \<open>A server that holds two entries and the tag \<open>old\<close>, with one open and one closed subscriber.\<close>

definition running :: "world \<Rightarrow> state" where
  "running w = \<lparr>games = [game1, game2], fileSHA = Some (js ''old''),
                clients = [\<lparr>cid = 1, readyState = 1\<rparr>, \<lparr>cid = 2, readyState = 3\<rparr>], world = w,
                n_get = 0, n_put = 0, n_clock = 0, n_random = 0, trace = []\<rparr>"

text \<open>
  The states that a save with the message \<open>m\<close> leaves when it starts from \<open>running\<close>: with a
  store that refuses two PUTs, and with the network down.
\<close>

definition put_with :: "string \<Rightarrow> put_body" where
  "put_with tag = \<lparr>message = js ''m'', content = [game1, game2], sha = Some (js tag)\<rparr>"

definition saved_third_time :: state where
  "saved_third_time =
     (running (sample_world 2 1700 7))
       \<lparr>fileSHA := Some (js ''sha2''), n_get := 2, n_put := 3,
        trace := [Fetch_PUT (put_with ''old''),
                  Console_SaveFailed 1 3 (js ''is at 1f but expected 2e''), Sleep 500,
                  Fetch_GET, Fetch_PUT (put_with ''remote''),
                  Console_SaveFailed 2 3 (js ''is at 1f but expected 2e''), Sleep 1000,
                  Fetch_GET, Fetch_PUT (put_with ''remote''),
                  Console_Committed (js ''m'')]\<rparr>"

definition never_saved :: state where
  "never_saved =
     (running down_world)
       \<lparr>fileSHA := Some (js ''remote''), n_get := 2, n_put := 3,
        trace := [Fetch_PUT (put_with ''old''),
                  Console_SaveFailed 1 3 (js ''socket hang up''), Sleep 500,
                  Fetch_GET, Fetch_PUT (put_with ''remote''),
                  Console_SaveFailed 2 3 (js ''socket hang up''), Sleep 1000,
                  Fetch_GET, Fetch_PUT (put_with ''remote''),
                  Console_SaveFailed 3 3 (js ''socket hang up'')]\<rparr>"

text \<open>Requests with the administrator's token: a body with no key, and bodies with some.\<close>

definition no_fields :: fields where
  "no_fields = \<lparr>f_id = None, f_title = None, f_description = None, f_link = None, f_image = None\<rparr>"

definition admin_request :: request where
  "admin_request = \<lparr>authorization = Some (js ''Bearer s3cret''), req_body = Inr no_fields, file' = None\<rparr>"

definition add_request :: "string \<Rightarrow> string \<Rightarrow> string \<Rightarrow> request" where
  "add_request t d l =
     admin_request\<lparr>req_body := Inr (no_fields\<lparr>f_title := Some (VString (js t)),
                                           f_description := Some (VString (js d)),
                                           f_link := Some (VString (js l))\<rparr>)\<rparr>"

definition id_request :: "jsstr \<Rightarrow> request" where
  "id_request i = admin_request\<lparr>req_body := Inr (no_fields\<lparr>f_id := Some (VString i)\<rparr>)\<rparr>"

text \<open>An edit of the entry \<open>i\<close> that carries a title and a description, and one that carries an image.\<close>

definition edit_request :: "jsstr \<Rightarrow> string \<Rightarrow> string \<Rightarrow> request" where
  "edit_request i t d =
     admin_request\<lparr>req_body := Inr (no_fields\<lparr>f_id := Some (VString i),
                                           f_title := Some (VString (js t)),
                                           f_description := Some (VString (js d))\<rparr>)\<rparr>"

definition image_request :: "jsstr \<Rightarrow> string \<Rightarrow> request" where
  "image_request i u =
     admin_request\<lparr>req_body := Inr (no_fields\<lparr>f_id := Some (VString i), f_image := Some (VString (js u))\<rparr>)\<rparr>"

text \<open>An add whose title is the number 5, and a request whose body is not JSON text.\<close>

definition number_title :: request where
  "number_title =
     admin_request\<lparr>req_body := Inr (no_fields\<lparr>f_title := Some (VNumber 0x4014000000000000),
                                           f_description := Some (VString (js ''Eat and grow'')),
                                           f_link := Some (VString (js ''http://snake''))\<rparr>)\<rparr>"

definition malformed :: "jsstr option \<Rightarrow> request" where
  "malformed token =
     \<lparr>authorization = token, req_body = Inl (Error (js ''Unexpected end of JSON input'')), file' = None\<rparr>"

text \<open>
  Two adds answered by a clock that reads the same millisecond each time (\<open>dt = 0\<close>) and by the
  same random draw, starting from the empty collection; and the two entries they create.
\<close>

definition twins :: state where
  "twins = snd (post_add cfg0 (add_request ''B'' ''second'' ''http://b'')
             (snd (post_add cfg0 (add_request ''A'' ''first'' ''http://a'') (boot (sample_world 0 1700 0)))))"

definition twinA :: game where
  "twinA = \<lparr>id' = js ''game_1700_k3j2h'', title = js ''A'', description = js ''first'',
            link = js ''http://a'', image' = Some VNull, createdAt = js ''T1700'', updatedAt = None\<rparr>"

definition twinB :: game where
  "twinB = \<lparr>id' = js ''game_1700_k3j2h'', title = js ''B'', description = js ''second'',
            link = js ''http://b'', image' = Some VNull, createdAt = js ''T1700'', updatedAt = None\<rparr>"

text \<open>A repository whose \<open>games.json\<close> holds these two entries, as an edit by hand can leave it.\<close>

definition copied_entry :: world where
  "copied_entry = (sample_world 0 1700 7)\<lparr>get_resp := (\<lambda>i. document [twinA, twinB])\<rparr>"

text \<open>
  Two adds that overlap, on a server that holds two entries, with the network down for every
  PUT but the second: the first request arrives and sends its PUT, the second arrives and sends
  its PUT, the first is told that its PUT has failed and backs off, the second is told that
  its PUT is stored and answers, and the first goes through its second and third attempts.
  Then the entries the two requests have pushed.
\<close>

definition snake_request :: request where
  "snake_request = add_request ''Snake'' ''Eat and grow'' ''http://snake''"

definition pacman_request :: request where
  "pacman_request = add_request ''Pacman'' ''Eat dots'' ''http://pacman''"

definition overlapping_adds :: "occurrence list" where
  "overlapping_adds =
     [Arrives 1 Add snake_request, Arrives 2 Add pacman_request,
      Resumes 1, Resumes 2,
      Resumes 1, Resumes 1, Resumes 1, Resumes 1, Resumes 1, Resumes 1]"

text \<open>
  An edit and a delete that overlap in the same way: the edit of the second entry arrives, then
  the delete of the first, which is stored, and the edit fails. Then the entry as edited.
\<close>

definition overlapping_edit_delete :: "occurrence list" where
  "overlapping_edit_delete =
     [Arrives 1 Edit (edit_request (id' game2) ''Tetris 2'' ''Blocks''), Arrives 2 Delete (id_request (id' game1)),
      Resumes 1, Resumes 2,
      Resumes 1, Resumes 1, Resumes 1, Resumes 1, Resumes 1, Resumes 1]"

definition tetris2 :: game where
  "tetris2 = game2\<lparr>title := js ''Tetris 2'', description := js ''Blocks'', updatedAt := Some (js ''T1700'')\<rparr>"

definition snake :: game where
  "snake = \<lparr>id' = js ''game_1700_k3j2h'', title = js ''Snake'', description = js ''Eat and grow'',
            link = js ''http://snake'', image' = Some VNull, createdAt = js ''T1707'', updatedAt = None\<rparr>"

definition pacman :: game where
  "pacman = \<lparr>id' = js ''game_1714_k3j2h'', title = js ''Pacman'', description = js ''Eat dots'',
             link = js ''http://pacman'', image' = Some VNull, createdAt = js ''T1721'', updatedAt = None\<rparr>"

section \<open>Evaluation rules and frame lemmas\<close>

lemmas world_defs = document_def sample_world_def down_world_def flaky_world_def copied_entry_def
  initial_def boot_def loadFromGitHub_def ok_def cfg0_def no_fields_def admin_request_def
  add_request_def id_request_def edit_request_def image_request_def number_title_def malformed_def
  game1_def game2_def running_def put_with_def saved_third_time_def never_saved_def
  twinA_def twinB_def snake_request_def pacman_request_def snake_def pacman_def tetris2_def

lemmas string_defs = js_def dquote_def isWhiteSpace_def trim_def truthy_def orElse_def
  startsWith_def slice'_def dec_int_def dec_nat.simps truthy_value_def trim_throws_def trimOpt_def
  string_of_def body_id_def body_title_def body_description_def body_link_def body_image_def

lemmas effect_defs = emit_def Date_now_def Math_random36_def fetch_GET_def fetch_PUT_def sleep_def

lemmas route_defs = json_parser_def requireAuth_def fileFilter_def upload_single_def
  error_handler_def into_error_handler_def send_if_open_def broadcast_def
  on_connection_def get_games_def get_health_def dataURI_def commit_message_def add_push_def
  add_handler_def add_after_def add_route_def post_add_def
  edit_fields_def edit_put_def edit_handler_def assign_def edit_after_def edit_route_def post_edit_def
  delete_splice_def delete_handler_def delete_after_def delete_route_def post_delete_def MAX_IMAGE_def
  add_persist_def edit_persist_def delete_persist_def answers_def

lemma saveToGitHub_from_step:
  "saveToGitHub_from msg k st =
     (if k \<le> 3 then
        (case save_attempt msg k st of
           (Inr u, s1) \<Rightarrow> (Inr u, s1)
         | (Inl e, s1) \<Rightarrow>
             if k = 3 then (Inl e, emit (Console_SaveFailed k 3 (message_of e)) s1)
             else saveToGitHub_from msg (k + 1)
                    (sleep (500 * k) (emit (Console_SaveFailed k 3 (message_of e)) s1)))
      else (Inr (), st))"
  by (subst saveToGitHub_from.simps)
     (simp add: MAX_RETRIES_def Let_def split: prod.splits sum.splits)

lemmas save_defs = refresh_sha_def save_attempt_def saveToGitHub_def saveToGitHub_from_step

lemmas eval_defs = world_defs string_defs effect_defs save_defs route_defs new_events_def Let_def

text \<open>The rules that take the interleaved server through a list of occurrences.\<close>

lemmas step_defs = start_PUT_def loop_def caught_def continue_def commit_of_def after_def
  route_of_def idle_def settle_def arrive_def resume_def MAX_RETRIES_def overlapping_adds_def
  overlapping_edit_delete_def

lemma emit_frame [simp]:
  "games (emit e st) = games st" "fileSHA (emit e st) = fileSHA st"
  "clients (emit e st) = clients st" "world (emit e st) = world st"
  "n_get (emit e st) = n_get st" "n_put (emit e st) = n_put st"
  "n_clock (emit e st) = n_clock st" "n_random (emit e st) = n_random st"
  "trace (emit e st) = trace st @ [e]"
  by (simp_all add: emit_def)

lemma sleep_frame [simp]:
  "games (sleep ms st) = games st" "fileSHA (sleep ms st) = fileSHA st"
  "clients (sleep ms st) = clients st" "world (sleep ms st) = world st"
  "n_get (sleep ms st) = n_get st" "n_put (sleep ms st) = n_put st"
  "n_clock (sleep ms st) = n_clock st" "n_random (sleep ms st) = n_random st"
  "trace (sleep ms st) = trace st @ [Sleep ms]"
  by (simp_all add: sleep_def)

lemma refresh_sha_frame [simp]:
  "games (snd (refresh_sha k st)) = games st"
  "clients (snd (refresh_sha k st)) = clients st"
  "world (snd (refresh_sha k st)) = world st"
  "n_put (snd (refresh_sha k st)) = n_put st"
  "n_clock (snd (refresh_sha k st)) = n_clock st"
  "n_random (snd (refresh_sha k st)) = n_random st"
  by (simp_all add: refresh_sha_def fetch_GET_def split: get_result.splits sum.splits)

lemma save_attempt_frame [simp]:
  "games (snd (save_attempt msg k st)) = games st"
  "clients (snd (save_attempt msg k st)) = clients st"
  "world (snd (save_attempt msg k st)) = world st"
  "n_clock (snd (save_attempt msg k st)) = n_clock st"
  "n_random (snd (save_attempt msg k st)) = n_random st"
proof -
  obtain r s1 where r: "refresh_sha k st = (r, s1)" by force
  have f: "games s1 = games st" "clients s1 = clients st" "world s1 = world st"
    "n_clock s1 = n_clock st" "n_random s1 = n_random st"
    using refresh_sha_frame [of k st] by (simp_all add: r)
  show "games (snd (save_attempt msg k st)) = games st"
    "clients (snd (save_attempt msg k st)) = clients st"
    "world (snd (save_attempt msg k st)) = world st"
    "n_clock (snd (save_attempt msg k st)) = n_clock st"
    "n_random (snd (save_attempt msg k st)) = n_random st"
    by (simp_all add: save_attempt_def r f fetch_PUT_def Let_def split: sum.splits put_result.splits)
qed

lemma saveToGitHub_from_frame:
  "games (snd (saveToGitHub_from msg k st)) = games st \<and>
   clients (snd (saveToGitHub_from msg k st)) = clients st \<and>
   world (snd (saveToGitHub_from msg k st)) = world st \<and>
   n_clock (snd (saveToGitHub_from msg k st)) = n_clock st \<and>
   n_random (snd (saveToGitHub_from msg k st)) = n_random st"
proof (induction msg k st rule: saveToGitHub_from.induct)
  case (1 msg k st)
  obtain r s1 where sa: "save_attempt msg k st = (r, s1)" by force
  have f: "games s1 = games st" "clients s1 = clients st" "world s1 = world st"
    "n_clock s1 = n_clock st" "n_random s1 = n_random st"
    using save_attempt_frame [of msg k st] by (simp_all add: sa)
  show ?case
  proof (cases "k \<le> 3 \<and> k \<noteq> 3 \<and> isl r")
    case True
    then obtain e where e: "r = Inl e" by (cases r) auto
    from True have "k \<le> MAX_RETRIES" "k \<noteq> MAX_RETRIES" by (simp_all add: MAX_RETRIES_def)
    from "1.IH" [OF this(1) sa [symmetric] e refl this(2)] True show ?thesis
      by (simp add: saveToGitHub_from_step [of msg k st] sa e f MAX_RETRIES_def)
  next
    case False
    then show ?thesis
      by (cases r) (auto simp add: saveToGitHub_from_step [of msg k st] sa f)
  qed
qed

lemma saveToGitHub_frame [simp]:
  "games (snd (saveToGitHub msg st)) = games st"
  "clients (snd (saveToGitHub msg st)) = clients st"
  "world (snd (saveToGitHub msg st)) = world st"
  "n_clock (snd (saveToGitHub msg st)) = n_clock st"
  "n_random (snd (saveToGitHub msg st)) = n_random st"
  using saveToGitHub_from_frame [of msg 1 st] by (simp_all add: saveToGitHub_def)

lemma send_all_frame:
  "games (foldl (send_if_open m) st cs) = games st \<and>
   fileSHA (foldl (send_if_open m) st cs) = fileSHA st \<and>
   world (foldl (send_if_open m) st cs) = world st \<and>
   clients (foldl (send_if_open m) st cs) = clients st \<and>
   n_put (foldl (send_if_open m) st cs) = n_put st \<and>
   n_get (foldl (send_if_open m) st cs) = n_get st"
  by (induction cs arbitrary: st) (simp_all add: send_if_open_def)

lemma broadcast_frame [simp]:
  "games (broadcast t p st) = games st" "fileSHA (broadcast t p st) = fileSHA st"
  "world (broadcast t p st) = world st" "clients (broadcast t p st) = clients st"
  "n_put (broadcast t p st) = n_put st" "n_get (broadcast t p st) = n_get st"
  by (simp_all add: broadcast_def Date_now_def Let_def send_all_frame)


text \<open>
  \<open>saveToGitHub\<close> resumed from await to await with nothing in between is the function of
  section \<open>saveToGitHub, awaited with nothing else running\<close>.
\<close>

lemma drive_caught:
  "drive msg (caught k err s) =
     (if k = MAX_RETRIES then (Inl err, emit (Console_SaveFailed k MAX_RETRIES (message_of err)) s)
      else drive msg (loop msg (k + 1)
             (sleep (500 * k) (emit (Console_SaveFailed k MAX_RETRIES (message_of err)) s))))"
  by (simp add: caught_def continue_def Let_def)

lemma drive_attempt:
  "k \<le> MAX_RETRIES \<Longrightarrow>
   drive msg (loop msg k st) =
     (case save_attempt msg k st of
        (Inr u, s1) \<Rightarrow> (Inr u, s1)
      | (Inl e, s1) \<Rightarrow> drive msg (caught k e s1))"
  by (cases "get_resp (world st) (n_get st)";
      cases "put_resp (world st) (n_put st)
               \<lparr>message = msg, content = games st, sha = (if truthy (fileSHA st) then fileSHA st else None)\<rparr>")
     (auto simp add: loop_def save_attempt_def refresh_sha_def start_PUT_def continue_def
        fetch_GET_def fetch_PUT_def emit_def Let_def
        split: sum.splits put_result.splits get_result.splits prod.splits)

lemma saveToGitHub_from_alone: "drive msg (loop msg k st) = saveToGitHub_from msg k st"
proof (induction msg k st rule: saveToGitHub_from.induct)
  case (1 msg k st)
  show ?case
  proof (cases "k \<le> MAX_RETRIES")
    case False
    then show ?thesis
      by (simp add: loop_def saveToGitHub_from.simps [of msg k st])
  next
    case True
    obtain r s1 where sa: "save_attempt msg k st = (r, s1)" by force
    show ?thesis
    proof (cases r)
      case (Inr u)
      with True sa show ?thesis
        by (simp add: drive_attempt saveToGitHub_from.simps [of msg k st])
    next
      case (Inl e)
      show ?thesis
      proof (cases "k = MAX_RETRIES")
        case last: True
        with True sa Inl show ?thesis
          by (simp add: drive_attempt drive_caught saveToGitHub_from.simps [of msg MAX_RETRIES st] Let_def)
      next
        case more: False
        from "1.IH" [OF True sa [symmetric] Inl refl more] True sa Inl more show ?thesis
          by (simp add: drive_attempt drive_caught saveToGitHub_from.simps [of msg k st] Let_def)
      qed
    qed
  qed
qed

lemma saveToGitHub_alone: "drive msg (loop msg 1 st) = saveToGitHub msg st"
  by (simp add: saveToGitHub_def saveToGitHub_from_alone)

lemma continue_decreases:
  "continue msg w st = (Inl w', st') \<Longrightarrow> awaits_left w' < awaits_left w"
  by (auto simp add: continue_def caught_def loop_def start_PUT_def awaits_left_def Let_def
        MAX_RETRIES_def split: waiting.splits get_result.splits put_result.splits sum.splits
        if_splits prod.splits)

lemma loop_awaits:
  "loop msg 1 st = (Inl w, st') \<Longrightarrow> awaits_left w < 10"
  by (auto simp add: loop_def start_PUT_def awaits_left_def Let_def MAX_RETRIES_def
        split: if_splits prod.splits)

text \<open>A request that waits alone is resumed until it is answered; resuming one that does not wait does nothing.\<close>

lemma resumes_idle:
  "map_of (pool sys) i = None \<Longrightarrow> run cfg (replicate n (Resumes i)) sys = Some sys"
  by (induction n) (simp_all add: resume_def)

lemma resumes_alone:
  "awaits_left w < n \<Longrightarrow>
   run cfg (replicate n (Resumes i)) \<lparr>server = st, pool = [(i, Suspended p w)], replies = rs\<rparr>
     = (case drive (commit_of p) (Inl w, st) of
          (r, st1) \<Rightarrow>
            (case after p r st1 of
               None \<Rightarrow> None
             | Some (out, st2) \<Rightarrow> Some \<lparr>server = st2, pool = [], replies = rs @ [(i, out)]\<rparr>))"
proof (induction n arbitrary: w st)
  case 0
  then show ?case by simp
next
  case (Suc n)
  obtain prog st' where c: "continue (commit_of p) w st = (prog, st')" by force
  show ?case
  proof (cases prog)
    case (Inl w')
    with c continue_decreases [of "commit_of p" w st w' st'] Suc.prems
    have "awaits_left w' < n" by simp
    from Suc.IH [OF this, of st'] c Inl show ?thesis
      by (simp add: resume_def settle_def)
  next
    case (Inr r)
    show ?thesis
    proof (cases "after p r st'")
      case None
      with c Inr show ?thesis
        by (simp add: resume_def settle_def)
    next
      case (Some a)
      obtain out st2 where a: "a = (out, st2)" by force
      have "run cfg (replicate n (Resumes i)) \<lparr>server = st2, pool = [], replies = rs @ [(i, out)]\<rparr>
              = Some \<lparr>server = st2, pool = [], replies = rs @ [(i, out)]\<rparr>"
        by (rule resumes_idle) simp
      with c Inr Some a show ?thesis
        by (simp add: resume_def settle_def)
    qed
  qed
qed

lemma requireAuth_Some:
  "requireAuth cfg req = Some r \<Longrightarrow> r = \<lparr>status = 401, json = JError (js ''Unauthorized'')\<rparr>"
  by (simp add: requireAuth_def Let_def split: if_splits)

lemma requireAuth_None:
  "requireAuth cfg req = None \<longleftrightarrow> authorization req = Some (js ''Bearer '' @ ADMIN_TOKEN cfg)"
  by (auto simp add: requireAuth_def Let_def truthy_def js_def)

text \<open>A field that has a value belongs to a body that has parsed, and a trimmed string to a string.\<close>

lemma truthy_trimOpt:
  "truthy (trimOpt v) \<Longrightarrow> \<not> trim_throws v \<and> (\<exists>s. v = Some (VString s) \<and> trim s \<noteq> [])"
  by (auto simp add: truthy_def trimOpt_def trim_throws_def split: option.splits jsvalue.splits)

lemma parsed_field:
  "body_id req = Some v \<Longrightarrow> json_parser req = None"
  "body_title req = Some v \<Longrightarrow> json_parser req = None"
  "body_description req = Some v \<Longrightarrow> json_parser req = None"
  "body_link req = Some v \<Longrightarrow> json_parser req = None"
  by (auto simp add: json_parser_def body_id_def body_title_def body_description_def body_link_def
        split: sum.splits)

lemma parsed_title: "truthy (trimOpt (body_title req)) \<Longrightarrow> json_parser req = None"
  using truthy_trimOpt [of "body_title req"] parsed_field(2) [of req] by blast

lemma parsed_id: "truthy_value (body_id req) \<Longrightarrow> json_parser req = None"
  using parsed_field(1) [of req] by (cases "body_id req") (simp_all add: truthy_value_def)

lemma add_push_games [simp]:
  "games (snd (add_push req st)) = games st @ [fst (add_push req st)]"
  by (simp add: add_push_def Date_now_def Math_random36_def Let_def)

lemma findIndex_Some:
  "findIndex P xs = Some i \<Longrightarrow> i < length xs \<and> P (xs ! i) \<and> (\<forall>j<i. \<not> P (xs ! j))"
proof (induction xs arbitrary: i)
  case Nil
  then show ?case by simp
next
  case (Cons x xs)
  show ?case
  proof (cases "P x")
    case True
    with Cons.prems show ?thesis by simp
  next
    case False
    with Cons.prems obtain k where k: "findIndex P xs = Some k" "i = Suc k"
      by (auto split: if_splits)
    from Cons.IH [OF k(1)] False k(2) show ?thesis
      by (auto simp add: nth_Cons split: nat.splits)
  qed
qed

lemma findIndex_None: "findIndex P xs = None \<longleftrightarrow> (\<forall>x\<in>set xs. \<not> P x)"
  by (induction xs) auto

lemma splice_back:
  "i < length xs \<Longrightarrow>
     take i (take i xs @ drop (Suc i) xs) @ [xs ! i] @ drop i (take i xs @ drop (Suc i) xs) = xs"
  by (simp add: min_absorb2 Cons_nth_drop_Suc)

lemma edit_put_games [simp]:
  "games (snd (edit_put req idx st)) = (games st)[idx := fst (edit_put req idx st)]"
  by (simp add: edit_put_def edit_fields_def Date_now_def Let_def)

lemma delete_splice_simps [simp]:
  "fst (delete_splice idx st) = games st ! idx"
  "games (snd (delete_splice idx st)) = take idx (games st) @ drop (Suc idx) (games st)"
  by (simp_all add: delete_splice_def)

lemma add_persist_games [simp]: "games (snd (add_persist req st)) = games st @ [fst (add_push req st)]"
  by (simp add: add_persist_def split_def Let_def)

lemma edit_persist_games [simp]:
  "games (snd (edit_persist req idx st)) = (games st)[idx := fst (edit_put req idx st)]"
  by (simp add: edit_persist_def split_def Let_def)

lemma delete_persist_games [simp]:
  "games (snd (delete_persist idx st)) = take idx (games st) @ drop (Suc idx) (games st)"
  by (simp add: delete_persist_def split_def Let_def)

text \<open>
  Where each route stands when its handler reaches the await: the chain of middleware has let
  the request through and the handler has made its change.
\<close>

lemma add_route_reaches:
  assumes "requireAuth cfg req = None" and "upload_single req = None"
    and "truthy (trimOpt (body_title req))" and "truthy (trimOpt (body_description req))"
    and "truthy (trimOpt (body_link req))"
  shows "add_route cfg req st = (Inr (fst (add_push req st)), snd (add_push req st))"
  using assms parsed_title [OF assms(3)] truthy_trimOpt [OF assms(3)] truthy_trimOpt [OF assms(4)]
    truthy_trimOpt [OF assms(5)]
  by (simp add: add_route_def add_handler_def split_def)

lemma edit_route_reaches:
  assumes "requireAuth cfg req = None" and "upload_single req = None"
    and "truthy_value (body_id req)"
    and "findIndex (\<lambda>g. Some (VString (id' g)) = body_id req) (games st) = Some idx"
    and "\<not> untrimmable req"
  shows "edit_route cfg req st
           = (Inr (idx, games st ! idx, fst (edit_put req idx st)), snd (edit_put req idx st))"
  using assms parsed_id [OF assms(3)]
  by (simp add: edit_route_def edit_handler_def untrimmable_def split_def)

lemma delete_route_reaches:
  assumes "requireAuth cfg req = None"
    and "truthy_value (body_id req)"
    and "findIndex (\<lambda>g. Some (VString (id' g)) = body_id req) (games st) = Some idx"
  shows "delete_route cfg req st = (Inr (idx, games st ! idx), snd (delete_splice idx st))"
  using assms parsed_id [OF assms(2)]
  by (simp add: delete_route_def delete_handler_def delete_splice_def)

text \<open>The write-back of an edit inside the array.\<close>

lemma edit_after_in_range:
  "idx < length (games st) \<Longrightarrow>
   edit_after idx prev updated r st
     = Some (case r of
               Inr u \<Rightarrow> (Responded \<lparr>status = 200, json = JGame updated\<rparr>,
                         broadcast (js ''edit'') (PGame updated) st)
             | Inl err \<Rightarrow>
                 (Responded \<lparr>status = 500, json = JError (js ''Failed to persist changes'')\<rparr>,
                  emit (Console_Error (message_of err)) (st\<lparr>games := (games st)[idx := prev]\<rparr>)))"
  by (simp add: edit_after_def assign_def split: sum.splits)

text \<open>What each route returns when its persist step has failed.\<close>

lemma post_add_failed:
  assumes "requireAuth cfg req = None" and "upload_single req = None"
    and "truthy (trimOpt (body_title req))" and "truthy (trimOpt (body_description req))"
    and "truthy (trimOpt (body_link req))"
    and "fst (add_persist req st) = Inl err"
  shows "post_add cfg req st =
           (Responded \<lparr>status = 500, json = JError (js ''Failed to persist game'')\<rparr>,
            emit (Console_Error (message_of err)) (snd (add_persist req st)\<lparr>games := games st\<rparr>))"
proof -
  obtain g s1 where ap: "add_push req st = (g, s1)" by force
  obtain s2 where sv: "saveToGitHub (commit_message ''add'' (title g)) s1 = (Inl err, s2)"
    using assms(6) by (cases "saveToGitHub (commit_message ''add'' (title g)) s1")
      (simp add: add_persist_def ap)
  have "games s2 = games st @ [g]"
    using add_persist_games [of req st] by (simp add: add_persist_def ap sv)
  then show ?thesis
    using add_route_reaches [OF assms(1-5), of st]
    by (simp add: post_add_def add_after_def add_persist_def ap sv)
qed

lemma post_edit_failed:
  assumes "requireAuth cfg req = None" and "upload_single req = None"
    and "truthy_value (body_id req)"
    and "findIndex (\<lambda>g. Some (VString (id' g)) = body_id req) (games st) = Some idx"
    and "\<not> untrimmable req"
    and "fst (edit_persist req idx st) = Inl err"
  shows "post_edit cfg req st =
           (Responded \<lparr>status = 500, json = JError (js ''Failed to persist changes'')\<rparr>,
            emit (Console_Error (message_of err)) (snd (edit_persist req idx st)\<lparr>games := games st\<rparr>))"
proof -
  obtain u s1 where ep: "edit_put req idx st = (u, s1)" by force
  obtain s2 where sv: "saveToGitHub (commit_message ''edit'' (title u)) s1 = (Inl err, s2)"
    using assms(6) by (cases "saveToGitHub (commit_message ''edit'' (title u)) s1")
      (simp add: edit_persist_def ep)
  have g2: "games s2 = (games st)[idx := u]"
    using edit_persist_games [of req idx st] by (simp add: edit_persist_def ep sv)
  then have restored: "(games s2)[idx := games st ! idx] = games st"
    by simp
  have "idx < length (games s2)"
    using findIndex_Some [OF assms(4)] by (simp add: g2)
  from edit_after_in_range [OF this, of "games st ! idx" u "Inl err"] restored show ?thesis
    using edit_route_reaches [OF assms(1-5)]
    by (simp add: post_edit_def edit_persist_def ep sv)
qed

lemma post_delete_failed:
  assumes "requireAuth cfg req = None"
    and "truthy_value (body_id req)"
    and "findIndex (\<lambda>g. Some (VString (id' g)) = body_id req) (games st) = Some idx"
    and "fst (delete_persist idx st) = Inl err"
  shows "post_delete cfg req st =
           (Responded \<lparr>status = 500, json = JError (js ''Failed to persist deletion'')\<rparr>,
            emit (Console_Error (message_of err)) (snd (delete_persist idx st)\<lparr>games := games st\<rparr>))"
proof -
  obtain r s1 where ds: "delete_splice idx st = (r, s1)" by force
  have r: "r = games st ! idx"
    using delete_splice_simps(1) [of idx st] by (simp add: ds)
  obtain s2 where sv: "saveToGitHub (commit_message ''delete'' (title r)) s1 = (Inl err, s2)"
    using assms(4) by (cases "saveToGitHub (commit_message ''delete'' (title r)) s1")
      (simp add: delete_persist_def ds)
  have "games s2 = take idx (games st) @ drop (Suc idx) (games st)"
    using delete_persist_games [of idx st] by (simp add: delete_persist_def ds sv)
  moreover have "idx < length (games st)"
    using findIndex_Some [OF assms(3)] by simp
  ultimately have "take idx (games s2) @ [r] @ drop idx (games s2) = games st"
    using splice_back [of idx "games st"] by (simp add: r)
  then show ?thesis
    using delete_route_reaches [OF assms(1-3)]
    by (simp add: post_delete_def delete_after_def delete_persist_def ds sv [unfolded r] r)
qed

lemma puts_append [simp]: "puts (a @ b) = puts a @ puts b"
  by (induction a rule: puts.induct) simp_all

lemma sleeps_append [simp]: "sleeps (a @ b) = sleeps a @ sleeps b"
  by (induction a rule: sleeps.induct) simp_all

lemma failed_attempts_append [simp]: "failed_attempts (a @ b) = failed_attempts a @ failed_attempts b"
  by (induction a rule: failed_attempts.induct) simp_all

lemma sent_append [simp]: "sent (a @ b) = sent a @ sent b"
  by (induction a rule: sent.induct) simp_all

lemma refetched_append: "sleeps a = [] \<Longrightarrow> refetched (a @ b) = refetched b"
  by (induction a rule: sleeps.induct) simp_all

lemma new_events_append [simp]: "trace st' = trace st @ evs \<Longrightarrow> new_events st st' = evs"
  by (simp add: new_events_def)

text \<open>One attempt: what it adds to the trace, and when it fails.\<close>

lemma refresh_sha_shape:
  "\<exists>r s evs. refresh_sha k st = (r, s) \<and> trace s = trace st @ evs
      \<and> (evs = [] \<or> evs = [Fetch_GET]) \<and> (1 < k \<longrightarrow> evs = [Fetch_GET])
      \<and> world s = world st \<and> n_put s = n_put st \<and> games s = games st
      \<and> (isl r \<longrightarrow> is_GetThrows (get_resp (world st) (n_get st)))"
  by (cases "get_resp (world st) (n_get st)")
     (auto simp add: refresh_sha_def fetch_GET_def emit_def is_GetThrows_def split: sum.splits)

lemma save_attempt_shape:
  "\<exists>r s evs. save_attempt msg k st = (r, s) \<and> trace s = trace st @ evs
      \<and> sleeps evs = [] \<and> failed_attempts evs = [] \<and> sent evs = [] \<and> length (puts evs) \<le> 1
      \<and> n_put s = n_put st + length (puts evs) \<and> world s = world st
      \<and> (1 < k \<longrightarrow> (\<exists>es. evs = Fetch_GET # es))
      \<and> ((\<forall>b. \<not> is_PutOk (put_resp (world st) (n_put st) b)) \<longrightarrow> isl r)
      \<and> ((\<forall>i. \<not> is_GetThrows (get_resp (world st) i)) \<longrightarrow>
            n_put s = Suc (n_put st)
            \<and> ((\<forall>b. is_PutOk (put_resp (world st) (n_put st) b)) \<longrightarrow>
                 r = Inr () \<and> (\<exists>b. put_resp (world st) (n_put st) b = PutOk (fileSHA s))))"
proof -
  from refresh_sha_shape [of k st] obtain r0 s0 ev0 where
    rs: "refresh_sha k st = (r0, s0)" and t0: "trace s0 = trace st @ ev0"
    and ev0: "ev0 = [] \<or> ev0 = [Fetch_GET]" "1 < k \<longrightarrow> ev0 = [Fetch_GET]"
    and f0: "world s0 = world st" "n_put s0 = n_put st"
    and thr: "isl r0 \<longrightarrow> is_GetThrows (get_resp (world st) (n_get st))"
    by blast
  show ?thesis
  proof (cases r0)
    case (Inl e)
    with thr have "\<not> (\<forall>i. \<not> is_GetThrows (get_resp (world st) i))"
      by (auto intro!: exI [of _ "n_get st"])
    moreover have "save_attempt msg k st = (Inl e, s0)"
      by (simp add: save_attempt_def rs Inl)
    ultimately show ?thesis
      using t0 ev0 f0 by auto
  next
    case (Inr u)
    define b where "b = \<lparr>message = msg, content = games s0,
                          sha = (if truthy (fileSHA s0) then fileSHA s0 else None)\<rparr>"
    show ?thesis
    proof (cases "put_resp (world st) (n_put st) b")
      case (PutThrows m)
      then have "save_attempt msg k st
                   = (Inl (Error m), emit (Fetch_PUT b) (s0\<lparr>n_put := Suc (n_put s0)\<rparr>))"
        by (simp add: save_attempt_def rs Inr b_def fetch_PUT_def f0)
      moreover have "\<not> (\<forall>b. is_PutOk (put_resp (world st) (n_put st) b))"
        using PutThrows by (auto simp add: is_PutOk_def intro!: exI [of _ b])
      ultimately show ?thesis
        using t0 ev0 f0 by auto
    next
      case (PutNotOk m stext)
      then have "save_attempt msg k st
                   = (Inl (Error (orElse m stext)), emit (Fetch_PUT b) (s0\<lparr>n_put := Suc (n_put s0)\<rparr>))"
        by (simp add: save_attempt_def rs Inr b_def fetch_PUT_def f0)
      moreover have "\<not> (\<forall>b. is_PutOk (put_resp (world st) (n_put st) b))"
        using PutNotOk by (auto simp add: is_PutOk_def intro!: exI [of _ b])
      ultimately show ?thesis
        using t0 ev0 f0 by auto
    next
      case (PutOk s)
      then have "save_attempt msg k st
                   = (Inr (), emit (Console_Committed msg)
                        (emit (Fetch_PUT b) (s0\<lparr>n_put := Suc (n_put s0)\<rparr>)\<lparr>fileSHA := s\<rparr>))"
        by (simp add: save_attempt_def rs Inr b_def fetch_PUT_def f0)
      moreover have "\<not> (\<forall>b. \<not> is_PutOk (put_resp (world st) (n_put st) b))"
        using PutOk by (auto simp add: is_PutOk_def intro!: exI [of _ b])
      ultimately show ?thesis
        using t0 ev0 f0 PutOk by (auto simp add: emit_def)
    qed
  qed
qed

lemma saveToGitHub_unroll:
  "saveToGitHub msg st =
     (case save_attempt msg 1 st of
        (Inr u, s1) \<Rightarrow> (Inr u, s1)
      | (Inl e1, s1) \<Rightarrow>
          (case save_attempt msg 2 (sleep 500 (emit (Console_SaveFailed 1 3 (message_of e1)) s1)) of
             (Inr u, s2) \<Rightarrow> (Inr u, s2)
           | (Inl e2, s2) \<Rightarrow>
               (case save_attempt msg 3 (sleep 1000 (emit (Console_SaveFailed 2 3 (message_of e2)) s2)) of
                  (Inr u, s3) \<Rightarrow> (Inr u, s3)
                | (Inl e3, s3) \<Rightarrow> (Inl e3, emit (Console_SaveFailed 3 3 (message_of e3)) s3))))"
proof -
  have 3: "saveToGitHub_from msg 3 s =
             (case save_attempt msg 3 s of
                (Inr u, s3) \<Rightarrow> (Inr u, s3)
              | (Inl e3, s3) \<Rightarrow> (Inl e3, emit (Console_SaveFailed 3 3 (message_of e3)) s3))" for s
    by (subst saveToGitHub_from_step)
       (simp add: numeral_2_eq_2 numeral_3_eq_3 split: prod.splits sum.splits)
  have 2: "saveToGitHub_from msg 2 s =
             (case save_attempt msg 2 s of
                (Inr u, s2) \<Rightarrow> (Inr u, s2)
              | (Inl e2, s2) \<Rightarrow>
                  saveToGitHub_from msg 3 (sleep 1000 (emit (Console_SaveFailed 2 3 (message_of e2)) s2)))" for s
    by (subst saveToGitHub_from_step)
       (simp add: numeral_2_eq_2 numeral_3_eq_3 split: prod.splits sum.splits)
  have 1: "saveToGitHub_from msg 1 s =
             (case save_attempt msg 1 s of
                (Inr u, s1) \<Rightarrow> (Inr u, s1)
              | (Inl e1, s1) \<Rightarrow>
                  saveToGitHub_from msg 2 (sleep 500 (emit (Console_SaveFailed 1 3 (message_of e1)) s1)))" for s
    by (subst saveToGitHub_from_step)
       (simp add: numeral_2_eq_2 numeral_3_eq_3 split: prod.splits sum.splits)
  show ?thesis
    unfolding saveToGitHub_def 1 2 3 ..
qed

lemma saveToGitHub_shape:
  "\<exists>res st' e1 e2 e3 m1 m2 m3.
      saveToGitHub msg st = (res, st')
      \<and> sleeps e1 = [] \<and> failed_attempts e1 = [] \<and> length (puts e1) \<le> 1
      \<and> sleeps e2 = [] \<and> failed_attempts e2 = [] \<and> length (puts e2) \<le> 1
      \<and> sleeps e3 = [] \<and> failed_attempts e3 = [] \<and> length (puts e3) \<le> 1
      \<and> sent e1 = [] \<and> sent e2 = [] \<and> sent e3 = []
      \<and> (res = Inr () \<and> trace st' = trace st @ e1
         \<or> res = Inr () \<and> trace st' = trace st @ e1 @ [Console_SaveFailed 1 3 m1, Sleep 500]
                                                 @ Fetch_GET # e2
         \<or> res = Inr () \<and> trace st' = trace st @ e1 @ [Console_SaveFailed 1 3 m1, Sleep 500]
                                                 @ Fetch_GET # e2 @ [Console_SaveFailed 2 3 m2, Sleep 1000]
                                                 @ Fetch_GET # e3
         \<or> res = Inl (Error m3)
             \<and> trace st' = trace st @ e1 @ [Console_SaveFailed 1 3 m1, Sleep 500]
                                         @ Fetch_GET # e2 @ [Console_SaveFailed 2 3 m2, Sleep 1000]
                                         @ Fetch_GET # e3 @ [Console_SaveFailed 3 3 m3])
      \<and> n_put st' = n_put st + length (puts (new_events st st')) \<and> world st' = world st"
proof -
  from save_attempt_shape [of msg 1 st] obtain r1 s1 e1 where
    a1: "save_attempt msg 1 st = (r1, s1)" and t1: "trace s1 = trace st @ e1"
    and q1: "sleeps e1 = []" "failed_attempts e1 = []" "length (puts e1) \<le> 1" "sent e1 = []"
    and p1: "n_put s1 = n_put st + length (puts e1)" "world s1 = world st"
    by blast
  show ?thesis
  proof (cases r1)
    case (Inr u)
    then have "saveToGitHub msg st = (Inr (), s1)"
      by (simp add: saveToGitHub_unroll a1 del: One_nat_def)
    with t1 q1 p1 show ?thesis
      by (intro exI [of _ "Inr ()"] exI [of _ s1] exI [of _ e1] exI [of _ "[]"]) simp
  next
    case (Inl x1)
    define s1' where "s1' = sleep 500 (emit (Console_SaveFailed 1 3 (message_of x1)) s1)"
    from save_attempt_shape [of msg 2 s1'] obtain r2 s2 e2' where
      a2: "save_attempt msg 2 s1' = (r2, s2)" and t2: "trace s2 = trace s1' @ e2'"
      and q2: "sleeps e2' = []" "failed_attempts e2' = []" "length (puts e2') \<le> 1" "sent e2' = []"
      and p2: "n_put s2 = n_put s1' + length (puts e2')" "world s2 = world s1'"
      and g2: "\<exists>es. e2' = Fetch_GET # es"
      by auto
    from g2 obtain e2 where e2: "e2' = Fetch_GET # e2" by blast
    have t2': "trace s2 = trace st @ e1 @ [Console_SaveFailed 1 3 (message_of x1), Sleep 500] @ Fetch_GET # e2"
      by (simp add: t2 s1'_def t1 e2)
    have q2': "sleeps e2 = []" "failed_attempts e2 = []" "length (puts e2) \<le> 1" "sent e2 = []"
      using q2 by (simp_all add: e2)
    have p2': "n_put s2 = n_put st + length (puts e1) + length (puts e2)" "world s2 = world st"
      using p2 p1 by (simp_all add: s1'_def e2)
    show ?thesis
    proof (cases r2)
      case (Inr u)
      then have "saveToGitHub msg st = (Inr (), s2)"
        by (simp add: saveToGitHub_unroll a1 Inl a2 [unfolded s1'_def] del: One_nat_def)
      with t2' q1 q2' p2' show ?thesis
        by (intro exI [of _ "Inr ()"] exI [of _ s2] exI [of _ e1] exI [of _ e2] exI [of _ "[]"]
            exI [of _ "message_of x1"]) simp
    next
      case x2: (Inl x2)
      define s2' where "s2' = sleep 1000 (emit (Console_SaveFailed 2 3 (message_of x2)) s2)"
      from save_attempt_shape [of msg 3 s2'] obtain r3 s3 e3' where
        a3: "save_attempt msg 3 s2' = (r3, s3)" and t3: "trace s3 = trace s2' @ e3'"
        and q3: "sleeps e3' = []" "failed_attempts e3' = []" "length (puts e3') \<le> 1" "sent e3' = []"
        and p3: "n_put s3 = n_put s2' + length (puts e3')" "world s3 = world s2'"
        and g3: "\<exists>es. e3' = Fetch_GET # es"
        by auto
      from g3 obtain e3 where e3: "e3' = Fetch_GET # e3" by blast
      have t3': "trace s3 = trace st @ e1 @ [Console_SaveFailed 1 3 (message_of x1), Sleep 500]
                   @ Fetch_GET # e2 @ [Console_SaveFailed 2 3 (message_of x2), Sleep 1000] @ Fetch_GET # e3"
        by (simp add: t3 s2'_def t2' e3)
      have q3': "sleeps e3 = []" "failed_attempts e3 = []" "length (puts e3) \<le> 1" "sent e3 = []"
        using q3 by (simp_all add: e3)
      have p3': "n_put s3 = n_put st + length (puts e1) + length (puts e2) + length (puts e3)"
        "world s3 = world st"
        using p3 p2' by (simp_all add: s2'_def e3)
      show ?thesis
      proof (cases r3)
        case (Inr u)
        then have "saveToGitHub msg st = (Inr (), s3)"
          by (simp add: saveToGitHub_unroll a1 Inl a2 [unfolded s1'_def] x2 a3 [unfolded s2'_def]
              del: One_nat_def)
        with t3' q1 q2' q3' p3' show ?thesis
          by (intro exI [of _ "Inr ()"] exI [of _ s3] exI [of _ e1] exI [of _ e2] exI [of _ e3]
              exI [of _ "message_of x1"] exI [of _ "message_of x2"]) simp
      next
        case x3: (Inl x3)
        then have "saveToGitHub msg st = (Inl x3, emit (Console_SaveFailed 3 3 (message_of x3)) s3)"
          by (simp add: saveToGitHub_unroll a1 Inl a2 [unfolded s1'_def] x2 a3 [unfolded s2'_def]
              del: One_nat_def)
        moreover have "x3 = Error (message_of x3)" by simp
        ultimately show ?thesis
          using t3' q1 q2' q3' p3'
          by (intro exI [of _ "Inl x3"] exI [of _ "emit (Console_SaveFailed 3 3 (message_of x3)) s3"]
              exI [of _ e1] exI [of _ e2] exI [of _ e3]
              exI [of _ "message_of x1"] exI [of _ "message_of x2"] exI [of _ "message_of x3"]) simp
      qed
    qed
  qed
qed

lemma saveToGitHub_always_refused:
  assumes "\<forall>i b. \<not> is_PutOk (put_resp (world st) i b)"
  shows "\<exists>e. fst (saveToGitHub msg st) = Inl e"
proof -
  have fail: "\<exists>e s'. save_attempt msg k s = (Inl e, s') \<and> world s' = world st"
    if "world s = world st" for k s
  proof -
    from save_attempt_shape [of msg k s] obtain r s' where
      "save_attempt msg k s = (r, s')" "world s' = world s"
      "(\<forall>b. \<not> is_PutOk (put_resp (world s) (n_put s) b)) \<longrightarrow> isl r"
      by blast
    with assms that show ?thesis by (cases r) auto
  qed
  from fail [of st 1] obtain x1 s1 where
    a1: "save_attempt msg 1 st = (Inl x1, s1)" "world s1 = world st" by auto
  from fail [of "sleep 500 (emit (Console_SaveFailed 1 3 (message_of x1)) s1)" 2] a1(2) obtain x2 s2 where
    a2: "save_attempt msg 2 (sleep 500 (emit (Console_SaveFailed 1 3 (message_of x1)) s1)) = (Inl x2, s2)"
      "world s2 = world st" by auto
  from fail [of "sleep 1000 (emit (Console_SaveFailed 2 3 (message_of x2)) s2)" 3] a2(2) obtain x3 s3 where
    a3: "save_attempt msg 3 (sleep 1000 (emit (Console_SaveFailed 2 3 (message_of x2)) s2)) = (Inl x3, s3)"
    by auto
  show ?thesis
    by (simp add: saveToGitHub_unroll a1 a2 a3 del: One_nat_def)
qed

lemma saveToGitHub_third_time:
  assumes g: "\<forall>i. \<not> is_GetThrows (get_resp (world st) i)"
    and f0: "\<forall>b. \<not> is_PutOk (put_resp (world st) (n_put st) b)"
    and f1: "\<forall>b. \<not> is_PutOk (put_resp (world st) (n_put st + 1) b)"
    and ok: "\<forall>b. is_PutOk (put_resp (world st) (n_put st + 2) b)"
  shows "fst (saveToGitHub msg st) = Inr ()"
    and "n_put (snd (saveToGitHub msg st)) = n_put st + 3"
    and "\<exists>b. put_resp (world st) (n_put st + 2) b = PutOk (fileSHA (snd (saveToGitHub msg st)))"
proof -
  have step: "\<exists>r s'. save_attempt msg k s = (r, s') \<and> world s' = world st \<and> n_put s' = Suc (n_put s)
                \<and> ((\<forall>b. \<not> is_PutOk (put_resp (world st) (n_put s) b)) \<longrightarrow> isl r)
                \<and> ((\<forall>b. is_PutOk (put_resp (world st) (n_put s) b)) \<longrightarrow>
                      r = Inr () \<and> (\<exists>b. put_resp (world st) (n_put s) b = PutOk (fileSHA s')))"
    if "world s = world st" for k s
    using save_attempt_shape [of msg k s] g that by auto
  from step [of st 1] f0 obtain x1 s1 where
    a1: "save_attempt msg 1 st = (Inl x1, s1)" "world s1 = world st" "n_put s1 = Suc (n_put st)"
    by (auto simp add: isl_def)
  define s1' where "s1' = sleep 500 (emit (Console_SaveFailed 1 3 (message_of x1)) s1)"
  have w1: "world s1' = world st" "n_put s1' = n_put st + 1"
    using a1 by (simp_all add: s1'_def)
  from step [of s1' 2] f1 w1 obtain x2 s2 where
    a2: "save_attempt msg 2 s1' = (Inl x2, s2)" "world s2 = world st" "n_put s2 = n_put st + 2"
    by (auto simp add: isl_def)
  define s2' where "s2' = sleep 1000 (emit (Console_SaveFailed 2 3 (message_of x2)) s2)"
  have w2: "world s2' = world st" "n_put s2' = n_put st + 2"
    using a2 by (simp_all add: s2'_def)
  from step [of s2' 3] w2(1) obtain r3 s3 where
    b3: "save_attempt msg 3 s2' = (r3, s3)" "n_put s3 = Suc (n_put s2')"
      "(\<forall>b. is_PutOk (put_resp (world st) (n_put s2') b)) \<longrightarrow>
         r3 = Inr () \<and> (\<exists>b. put_resp (world st) (n_put s2') b = PutOk (fileSHA s3))"
    by blast
  from b3 ok have a3: "save_attempt msg 3 s2' = (Inr (), s3)" "n_put s3 = n_put st + 3"
      "\<exists>b. put_resp (world st) (n_put st + 2) b = PutOk (fileSHA s3)"
    by (simp_all add: w2(2))
  have "saveToGitHub msg st = (Inr (), s3)"
    by (simp add: saveToGitHub_unroll a1 a2 [unfolded s1'_def] a3 [unfolded s2'_def] del: One_nat_def)
  with a3 show "fst (saveToGitHub msg st) = Inr ()"
    and "n_put (snd (saveToGitHub msg st)) = n_put st + 3"
    and "\<exists>b. put_resp (world st) (n_put st + 2) b = PutOk (fileSHA (snd (saveToGitHub msg st)))"
    by simp_all
qed

text \<open>Who is sent what: \<open>saveToGitHub\<close> sends nothing, a broadcast sends messages of its own type only.\<close>

lemma saveToGitHub_silent:
  "\<exists>evs. trace (snd (saveToGitHub msg st)) = trace st @ evs \<and> sent evs = []"
proof -
  from saveToGitHub_shape [of msg st] obtain res st' e1 e2 e3 m1 m2 m3 where
    run: "saveToGitHub msg st = (res, st')"
    and q: "sent e1 = []" "sent e2 = []" "sent e3 = []"
    and shape: "res = Inr () \<and> trace st' = trace st @ e1
         \<or> res = Inr () \<and> trace st' = trace st @ e1 @ [Console_SaveFailed 1 3 m1, Sleep 500]
                                                 @ Fetch_GET # e2
         \<or> res = Inr () \<and> trace st' = trace st @ e1 @ [Console_SaveFailed 1 3 m1, Sleep 500]
                                                 @ Fetch_GET # e2 @ [Console_SaveFailed 2 3 m2, Sleep 1000]
                                                 @ Fetch_GET # e3
         \<or> res = Inl (Error m3)
             \<and> trace st' = trace st @ e1 @ [Console_SaveFailed 1 3 m1, Sleep 500]
                                         @ Fetch_GET # e2 @ [Console_SaveFailed 2 3 m2, Sleep 1000]
                                         @ Fetch_GET # e3 @ [Console_SaveFailed 3 3 m3]"
    by blast
  from shape show ?thesis
  proof (elim disjE conjE)
    assume "trace st' = trace st @ e1"
    with q show ?thesis by (intro exI [of _ e1]) (simp add: run)
  next
    assume "trace st' = trace st @ e1 @ [Console_SaveFailed 1 3 m1, Sleep 500] @ Fetch_GET # e2"
    with q show ?thesis
      by (intro exI [of _ "e1 @ [Console_SaveFailed 1 3 m1, Sleep 500] @ Fetch_GET # e2"])
         (simp add: run)
  next
    assume "trace st' = trace st @ e1 @ [Console_SaveFailed 1 3 m1, Sleep 500]
              @ Fetch_GET # e2 @ [Console_SaveFailed 2 3 m2, Sleep 1000] @ Fetch_GET # e3"
    with q show ?thesis
      by (intro exI [of _ "e1 @ [Console_SaveFailed 1 3 m1, Sleep 500]
              @ Fetch_GET # e2 @ [Console_SaveFailed 2 3 m2, Sleep 1000] @ Fetch_GET # e3"])
         (simp add: run)
  next
    assume "trace st' = trace st @ e1 @ [Console_SaveFailed 1 3 m1, Sleep 500]
              @ Fetch_GET # e2 @ [Console_SaveFailed 2 3 m2, Sleep 1000]
              @ Fetch_GET # e3 @ [Console_SaveFailed 3 3 m3]"
    with q show ?thesis
      by (intro exI [of _ "e1 @ [Console_SaveFailed 1 3 m1, Sleep 500]
              @ Fetch_GET # e2 @ [Console_SaveFailed 2 3 m2, Sleep 1000]
              @ Fetch_GET # e3 @ [Console_SaveFailed 3 3 m3]"])
         (simp add: run)
  qed
qed

lemma send_all_typed:
  "\<exists>evs. trace (foldl (send_if_open m) st cs) = trace st @ evs
      \<and> (\<forall>x\<in>set (sent evs). type' (snd x) = type' m)"
proof (induction cs arbitrary: st)
  case Nil
  show ?case by simp
next
  case (Cons c cs)
  from Cons.IH [of "send_if_open m st c"] obtain evs where
    evs: "trace (foldl (send_if_open m) (send_if_open m st c) cs) = trace (send_if_open m st c) @ evs"
      "\<forall>x\<in>set (sent evs). type' (snd x) = type' m"
    by blast
  show ?case
  proof (cases "readyState c = 1")
    case True
    then have "send_if_open m st c = emit (Send (cid c) m) st"
      by (simp add: send_if_open_def)
    with evs show ?thesis
      by (intro exI [of _ "Send (cid c) m # evs"]) simp
  next
    case False
    then have "send_if_open m st c = st"
      by (simp add: send_if_open_def)
    with evs show ?thesis
      by (intro exI [of _ evs]) simp
  qed
qed

lemma broadcast_typed:
  "\<exists>evs. trace (broadcast t p st) = trace st @ evs \<and> (\<forall>x\<in>set (sent evs). type' (snd x) = t)"
  using send_all_typed [of "\<lparr>type' = t, payload = p, ts = clock (world st) (n_clock st)\<rparr>"
      "st\<lparr>n_clock := Suc (n_clock st)\<rparr>" "clients st"]
  by (simp add: broadcast_def Date_now_def)

lemma persist_then_broadcast:
  assumes "trace s0 = trace st"
  shows "\<exists>evs. trace (broadcast t p (snd (saveToGitHub msg s0))) = trace st @ evs
      \<and> (\<forall>x\<in>set (sent evs). type' (snd x) = t)"
proof -
  from saveToGitHub_silent [of msg s0] obtain e1 where
    e1: "trace (snd (saveToGitHub msg s0)) = trace st @ e1" "sent e1 = []"
    using assms by auto
  from broadcast_typed [of t p "snd (saveToGitHub msg s0)"] obtain e2 where
    e2: "trace (broadcast t p (snd (saveToGitHub msg s0))) = trace (snd (saveToGitHub msg s0)) @ e2"
      "\<forall>x\<in>set (sent e2). type' (snd x) = t"
    by blast
  show ?thesis
    using e1 e2 by (intro exI [of _ "e1 @ e2"]) simp
qed

lemma persist_then_log:
  assumes "trace s0 = trace st"
  shows "\<exists>evs. trace (emit (Console_Error m) (snd (saveToGitHub msg s0)\<lparr>games := gs\<rparr>)) = trace st @ evs
      \<and> sent evs = []"
proof -
  from saveToGitHub_silent [of msg s0] obtain e1 where
    e1: "trace (snd (saveToGitHub msg s0)) = trace st @ e1" "sent e1 = []"
    using assms by auto
  show ?thesis
    using e1 by (intro exI [of _ "e1 @ [Console_Error m]"]) simp
qed

text \<open>What each route returns when its persist step has succeeded.\<close>

text \<open>What each route returns when its persist step has succeeded.\<close>

lemma post_add_ok:
  assumes "requireAuth cfg req = None" and "upload_single req = None"
    and "truthy (trimOpt (body_title req))" and "truthy (trimOpt (body_description req))"
    and "truthy (trimOpt (body_link req))"
    and "fst (add_persist req st) = Inr ()"
  shows "post_add cfg req st =
           (Responded \<lparr>status = 201, json = JGame (fst (add_push req st))\<rparr>,
            broadcast (js ''add'') (PGame (fst (add_push req st))) (snd (add_persist req st)))"
proof -
  obtain g s1 where ap: "add_push req st = (g, s1)" by force
  obtain s2 where sv: "saveToGitHub (commit_message ''add'' (title g)) s1 = (Inr (), s2)"
    using assms(6) by (cases "saveToGitHub (commit_message ''add'' (title g)) s1")
      (simp add: add_persist_def ap)
  show ?thesis
    using add_route_reaches [OF assms(1-5), of st]
    by (simp add: post_add_def add_after_def add_persist_def ap sv)
qed

lemma post_edit_ok:
  assumes "requireAuth cfg req = None" and "upload_single req = None"
    and "truthy_value (body_id req)"
    and "findIndex (\<lambda>g. Some (VString (id' g)) = body_id req) (games st) = Some idx"
    and "\<not> untrimmable req"
    and "fst (edit_persist req idx st) = Inr ()"
  shows "post_edit cfg req st =
           (Responded \<lparr>status = 200, json = JGame (fst (edit_put req idx st))\<rparr>,
            broadcast (js ''edit'') (PGame (fst (edit_put req idx st))) (snd (edit_persist req idx st)))"
proof -
  obtain u s1 where ep: "edit_put req idx st = (u, s1)" by force
  obtain s2 where sv: "saveToGitHub (commit_message ''edit'' (title u)) s1 = (Inr (), s2)"
    using assms(6) by (cases "saveToGitHub (commit_message ''edit'' (title u)) s1")
      (simp add: edit_persist_def ep)
  show ?thesis
    using edit_route_reaches [OF assms(1-5)]
    by (simp add: post_edit_def edit_after_def edit_persist_def ep sv)
qed

lemma post_delete_ok:
  assumes "requireAuth cfg req = None"
    and "truthy_value (body_id req)"
    and "findIndex (\<lambda>g. Some (VString (id' g)) = body_id req) (games st) = Some idx"
    and "fst (delete_persist idx st) = Inr ()"
  shows "post_delete cfg req st =
           (Responded \<lparr>status = 200, json = JOkId (id' (games st ! idx))\<rparr>,
            broadcast (js ''delete'') (PId (id' (games st ! idx))) (snd (delete_persist idx st)))"
proof -
  obtain s1 where ds: "delete_splice idx st = (games st ! idx, s1)"
    by (simp add: delete_splice_def)
  obtain s2 where sv: "saveToGitHub (commit_message ''delete'' (title (games st ! idx))) s1 = (Inr (), s2)"
    using assms(4) by (cases "saveToGitHub (commit_message ''delete'' (title (games st ! idx))) s1")
      (simp add: delete_persist_def ds)
  show ?thesis
    using delete_route_reaches [OF assms(1-3)]
    by (simp add: post_delete_def delete_after_def delete_persist_def ds sv)
qed

lemma error_handler_state [simp]: "games (snd (error_handler e st)) = games st"
  by (simp add: error_handler_def)

lemma result_cases: "(r :: error + unit) = Inr () \<or> (\<exists>e. r = Inl e)"
  by (cases r) auto

text \<open>
  A request that does not reach the await of its route: it is answered, or its handler
  throws, and the state is the one before, but for the console line of the error handler.
\<close>

lemma into_error_handler_ends:
  "\<exists>out m. into_error_handler e st = (Inl out, emit (Console_Unhandled m) st)
      \<and> \<not> answers out 201 \<and> \<not> answers out 200"
  by (auto simp add: into_error_handler_def error_handler_def answers_def)

lemma add_handler_ends:
  assumes "\<not> (truthy (trimOpt (body_title req)) \<and> truthy (trimOpt (body_description req))
      \<and> truthy (trimOpt (body_link req)))"
  shows "\<exists>out. add_handler req st = (Inl out, st) \<and> \<not> answers out 201 \<and> \<not> answers out 200"
  using assms by (simp add: add_handler_def answers_def)

lemma edit_handler_ends:
  assumes "\<not> (truthy_value (body_id req)
      \<and> findIndex (\<lambda>g. Some (VString (id' g)) = body_id req) (games st) \<noteq> None
      \<and> \<not> untrimmable req)"
  shows "\<exists>out. edit_handler req st = (Inl out, st) \<and> \<not> answers out 201 \<and> \<not> answers out 200"
  using assms
  by (cases "findIndex (\<lambda>g. Some (VString (id' g)) = body_id req) (games st)")
     (auto simp add: edit_handler_def untrimmable_def answers_def)

lemma delete_handler_ends:
  assumes "\<not> (truthy_value (body_id req)
      \<and> findIndex (\<lambda>g. Some (VString (id' g)) = body_id req) (games st) \<noteq> None)"
  shows "\<exists>out. delete_handler req st = (Inl out, st) \<and> \<not> answers out 201 \<and> \<not> answers out 200"
  using assms
  by (cases "findIndex (\<lambda>g. Some (VString (id' g)) = body_id req) (games st)")
     (auto simp add: delete_handler_def answers_def)

lemma add_route_ends:
  assumes "\<not> (requireAuth cfg req = None \<and> upload_single req = None
      \<and> truthy (trimOpt (body_title req)) \<and> truthy (trimOpt (body_description req))
      \<and> truthy (trimOpt (body_link req)))"
  shows "\<exists>out. (add_route cfg req st = (Inl out, st)
            \<or> (\<exists>m. add_route cfg req st = (Inl out, emit (Console_Unhandled m) st)))
          \<and> \<not> answers out 201 \<and> \<not> answers out 200"
proof (cases "json_parser req")
  case (Some e)
  with into_error_handler_ends [of e st] show ?thesis
    by (simp add: add_route_def) blast
next
  case None
  show ?thesis
  proof (cases "requireAuth cfg req")
    case (Some r)
    with None requireAuth_Some [OF Some] show ?thesis
      by (auto simp add: add_route_def answers_def)
  next
    case auth: None
    show ?thesis
    proof (cases "upload_single req")
      case (Some e)
      with None auth into_error_handler_ends [of e st] show ?thesis
        by (simp add: add_route_def) blast
    next
      case up: None
      with None auth assms add_handler_ends [of req st] show ?thesis
        by (simp add: add_route_def) blast
    qed
  qed
qed

lemma edit_route_ends:
  assumes "\<not> (requireAuth cfg req = None \<and> upload_single req = None \<and> truthy_value (body_id req)
      \<and> findIndex (\<lambda>g. Some (VString (id' g)) = body_id req) (games st) \<noteq> None
      \<and> \<not> untrimmable req)"
  shows "\<exists>out. (edit_route cfg req st = (Inl out, st)
            \<or> (\<exists>m. edit_route cfg req st = (Inl out, emit (Console_Unhandled m) st)))
          \<and> \<not> answers out 201 \<and> \<not> answers out 200"
proof (cases "json_parser req")
  case (Some e)
  with into_error_handler_ends [of e st] show ?thesis
    by (simp add: edit_route_def) blast
next
  case None
  show ?thesis
  proof (cases "requireAuth cfg req")
    case (Some r)
    with None requireAuth_Some [OF Some] show ?thesis
      by (auto simp add: edit_route_def answers_def)
  next
    case auth: None
    show ?thesis
    proof (cases "upload_single req")
      case (Some e)
      with None auth into_error_handler_ends [of e st] show ?thesis
        by (simp add: edit_route_def) blast
    next
      case up: None
      with None auth assms edit_handler_ends [of req st] show ?thesis
        by (simp add: edit_route_def) blast
    qed
  qed
qed

lemma delete_route_ends:
  assumes "\<not> (requireAuth cfg req = None \<and> truthy_value (body_id req)
      \<and> findIndex (\<lambda>g. Some (VString (id' g)) = body_id req) (games st) \<noteq> None)"
  shows "\<exists>out. (delete_route cfg req st = (Inl out, st)
            \<or> (\<exists>m. delete_route cfg req st = (Inl out, emit (Console_Unhandled m) st)))
          \<and> \<not> answers out 201 \<and> \<not> answers out 200"
proof (cases "json_parser req")
  case (Some e)
  with into_error_handler_ends [of e st] show ?thesis
    by (simp add: delete_route_def) blast
next
  case None
  show ?thesis
  proof (cases "requireAuth cfg req")
    case (Some r)
    with None requireAuth_Some [OF Some] show ?thesis
      by (auto simp add: delete_route_def answers_def)
  next
    case auth: None
    with None assms delete_handler_ends [of req st] show ?thesis
      by (simp add: delete_route_def) blast
  qed
qed

text \<open>The collection after any request to a route: untouched, or changed in the one way the route can.\<close>

lemma post_add_games:
  "games (snd (post_add cfg req st)) = games st \<and> \<not> answers (fst (post_add cfg req st)) 201
   \<or> answers (fst (post_add cfg req st)) 201
     \<and> fst (post_add cfg req st) = Responded \<lparr>status = 201, json = JGame (fst (add_push req st))\<rparr>
     \<and> games (snd (post_add cfg req st)) = games st @ [fst (add_push req st)]"
proof (cases "requireAuth cfg req = None \<and> upload_single req = None
      \<and> truthy (trimOpt (body_title req)) \<and> truthy (trimOpt (body_description req))
      \<and> truthy (trimOpt (body_link req))")
  case True
  from result_cases [of "fst (add_persist req st)"] show ?thesis
  proof
    assume "fst (add_persist req st) = Inr ()"
    with True show ?thesis by (simp add: post_add_ok answers_def)
  next
    assume "\<exists>e. fst (add_persist req st) = Inl e"
    with True show ?thesis by (auto simp add: post_add_failed answers_def)
  qed
next
  case False
  from add_route_ends [OF this, of st] show ?thesis
    by (auto simp add: post_add_def)
qed

lemma post_add_201:
  assumes "answers (fst (post_add cfg req st)) 201"
  shows "fst (post_add cfg req st) = Responded \<lparr>status = 201, json = JGame (fst (add_push req st))\<rparr>"
    and "games (snd (post_add cfg req st)) = games st @ [fst (add_push req st)]"
  using assms post_add_games [of cfg req st] by auto

lemma post_edit_games:
  "games (snd (post_edit cfg req st)) = games st
   \<or> (\<exists>idx. findIndex (\<lambda>g. Some (VString (id' g)) = body_id req) (games st) = Some idx
        \<and> answers (fst (post_edit cfg req st)) 200
        \<and> games (snd (post_edit cfg req st)) = (games st)[idx := fst (edit_put req idx st)])"
proof (cases "requireAuth cfg req = None \<and> upload_single req = None \<and> truthy_value (body_id req)
      \<and> findIndex (\<lambda>g. Some (VString (id' g)) = body_id req) (games st) \<noteq> None
      \<and> \<not> untrimmable req")
  case True
  then obtain idx where idx: "findIndex (\<lambda>g. Some (VString (id' g)) = body_id req) (games st) = Some idx"
    by blast
  from result_cases [of "fst (edit_persist req idx st)"] show ?thesis
  proof
    assume "fst (edit_persist req idx st) = Inr ()"
    with True idx show ?thesis by (simp add: post_edit_ok answers_def)
  next
    assume "\<exists>e. fst (edit_persist req idx st) = Inl e"
    with True idx show ?thesis by (auto simp add: post_edit_failed)
  qed
next
  case False
  from edit_route_ends [OF this] show ?thesis
    by (auto simp add: post_edit_def)
qed

lemma post_delete_games:
  "games (snd (post_delete cfg req st)) = games st \<and> \<not> answers (fst (post_delete cfg req st)) 200
   \<or> (\<exists>idx. findIndex (\<lambda>g. Some (VString (id' g)) = body_id req) (games st) = Some idx
        \<and> answers (fst (post_delete cfg req st)) 200
        \<and> games (snd (post_delete cfg req st)) = take idx (games st) @ drop (Suc idx) (games st))"
proof (cases "requireAuth cfg req = None \<and> truthy_value (body_id req)
      \<and> findIndex (\<lambda>g. Some (VString (id' g)) = body_id req) (games st) \<noteq> None")
  case True
  then obtain idx where idx: "findIndex (\<lambda>g. Some (VString (id' g)) = body_id req) (games st) = Some idx"
    by blast
  from result_cases [of "fst (delete_persist idx st)"] show ?thesis
  proof
    assume "fst (delete_persist idx st) = Inr ()"
    with True idx show ?thesis by (simp add: post_delete_ok answers_def)
  next
    assume "\<exists>e. fst (delete_persist idx st) = Inl e"
    with True idx show ?thesis by (auto simp add: post_delete_failed answers_def)
  qed
next
  case False
  from delete_route_ends [OF this] show ?thesis
    by (auto simp add: post_delete_def)
qed

text \<open>The messages a route sends are of its own type.\<close>

lemma mutation_trace [simp]:
  "trace (snd (add_push req st)) = trace st"
  "trace (snd (edit_put req idx st)) = trace st"
  "trace (snd (delete_splice idx st)) = trace st"
  by (simp_all add: add_push_def edit_put_def edit_fields_def delete_splice_def Date_now_def
      Math_random36_def Let_def)

lemma post_add_sends:
  "\<exists>evs. trace (snd (post_add cfg req st)) = trace st @ evs
      \<and> (\<forall>x\<in>set (sent evs). type' (snd x) = js ''add'')"
proof (cases "requireAuth cfg req = None \<and> upload_single req = None
      \<and> truthy (trimOpt (body_title req)) \<and> truthy (trimOpt (body_description req))
      \<and> truthy (trimOpt (body_link req))")
  case True
  from result_cases [of "fst (add_persist req st)"] show ?thesis
  proof
    assume "fst (add_persist req st) = Inr ()"
    with True persist_then_broadcast [of "snd (add_push req st)" st "js ''add''"
        "PGame (fst (add_push req st))" "commit_message ''add'' (title (fst (add_push req st)))"]
    show ?thesis by (simp add: post_add_ok) (simp add: add_persist_def split_def Let_def)
  next
    assume "\<exists>e. fst (add_persist req st) = Inl e"
    then obtain e where "fst (add_persist req st) = Inl e" by blast
    with True persist_then_log [of "snd (add_push req st)" st "message_of e" "games st"
        "commit_message ''add'' (title (fst (add_push req st)))"]
    show ?thesis by (simp add: post_add_failed) (auto simp add: add_persist_def split_def Let_def)
  qed
next
  case False
  from add_route_ends [OF this, of st]
  have "trace (snd (post_add cfg req st)) = trace st
      \<or> (\<exists>m. trace (snd (post_add cfg req st)) = trace st @ [Console_Unhandled m])"
    by (auto simp add: post_add_def)
  then show ?thesis
    by (auto intro: exI [of _ "[]"])
qed

lemma post_edit_sends:
  "\<exists>evs. trace (snd (post_edit cfg req st)) = trace st @ evs
      \<and> (\<forall>x\<in>set (sent evs). type' (snd x) = js ''edit'')"
proof (cases "requireAuth cfg req = None \<and> upload_single req = None \<and> truthy_value (body_id req)
      \<and> findIndex (\<lambda>g. Some (VString (id' g)) = body_id req) (games st) \<noteq> None
      \<and> \<not> untrimmable req")
  case True
  then obtain idx where idx: "findIndex (\<lambda>g. Some (VString (id' g)) = body_id req) (games st) = Some idx"
    by blast
  from result_cases [of "fst (edit_persist req idx st)"] show ?thesis
  proof
    assume "fst (edit_persist req idx st) = Inr ()"
    with True idx persist_then_broadcast [of "snd (edit_put req idx st)" st "js ''edit''"
        "PGame (fst (edit_put req idx st))" "commit_message ''edit'' (title (fst (edit_put req idx st)))"]
    show ?thesis by (simp add: post_edit_ok) (simp add: edit_persist_def split_def Let_def)
  next
    assume "\<exists>e. fst (edit_persist req idx st) = Inl e"
    then obtain e where "fst (edit_persist req idx st) = Inl e" by blast
    with True idx persist_then_log [of "snd (edit_put req idx st)" st "message_of e" "games st"
        "commit_message ''edit'' (title (fst (edit_put req idx st)))"]
    show ?thesis by (simp add: post_edit_failed) (auto simp add: edit_persist_def split_def Let_def)
  qed
next
  case False
  from edit_route_ends [OF this]
  have "trace (snd (post_edit cfg req st)) = trace st
      \<or> (\<exists>m. trace (snd (post_edit cfg req st)) = trace st @ [Console_Unhandled m])"
    by (auto simp add: post_edit_def)
  then show ?thesis
    by (auto intro: exI [of _ "[]"])
qed

lemma post_delete_sends:
  "\<exists>evs. trace (snd (post_delete cfg req st)) = trace st @ evs
      \<and> (\<forall>x\<in>set (sent evs). type' (snd x) = js ''delete'')"
proof (cases "requireAuth cfg req = None \<and> truthy_value (body_id req)
      \<and> findIndex (\<lambda>g. Some (VString (id' g)) = body_id req) (games st) \<noteq> None")
  case True
  then obtain idx where idx: "findIndex (\<lambda>g. Some (VString (id' g)) = body_id req) (games st) = Some idx"
    by blast
  from result_cases [of "fst (delete_persist idx st)"] show ?thesis
  proof
    assume "fst (delete_persist idx st) = Inr ()"
    with True idx persist_then_broadcast [of "snd (delete_splice idx st)" st "js ''delete''"
        "PId (id' (games st ! idx))" "commit_message ''delete'' (title (games st ! idx))"]
    show ?thesis by (simp add: post_delete_ok) (simp add: delete_persist_def split_def Let_def)
  next
    assume "\<exists>e. fst (delete_persist idx st) = Inl e"
    then obtain e where "fst (delete_persist idx st) = Inl e" by blast
    with True idx persist_then_log [of "snd (delete_splice idx st)" st "message_of e" "games st"
        "commit_message ''delete'' (title (games st ! idx))"]
    show ?thesis by (simp add: post_delete_failed) (auto simp add: delete_persist_def split_def Let_def)
  qed
next
  case False
  from delete_route_ends [OF this]
  have "trace (snd (post_delete cfg req st)) = trace st
      \<or> (\<exists>m. trace (snd (post_delete cfg req st)) = trace st @ [Console_Unhandled m])"
    by (auto simp add: post_delete_def)
  then show ?thesis
    by (auto intro: exI [of _ "[]"])
qed

lemma blank_iff: "blank v \<longleftrightarrow> \<not> trim_throws v \<and> \<not> truthy (trimOpt v)"
  by (auto simp add: blank_def truthy_def trimOpt_def trim_throws_def split: option.splits jsvalue.splits)

lemma not_blank_string:
  "\<not> blank v \<Longrightarrow> \<not> trim_throws v \<Longrightarrow> \<exists>s. v = Some (VString s) \<and> string_of v = s \<and> trim s \<noteq> []"
  by (auto simp add: blank_def string_of_def trim_throws_def split: option.splits jsvalue.splits)

lemma add_push_fields:
  "title (fst (add_push req st)) = trim (string_of (body_title req))"
  "description (fst (add_push req st)) = trim (string_of (body_description req))"
  "link (fst (add_push req st)) = trim (string_of (body_link req))"
  "id' (fst (add_push req st))
     = js ''game_'' @ dec_int (clock (world st) (n_clock st)) @ js ''_''
         @ slice' (random36 (world st) (n_random st)) 2 7"
  "createdAt (fst (add_push req st)) = toISOString (world st) (clock (world st) (Suc (n_clock st)))"
  "updatedAt (fst (add_push req st)) = None"
  "image' (fst (add_push req st))
     = (case file' req of
          Some f \<Rightarrow> Some (VString (dataURI f))
        | None \<Rightarrow> if truthy_value (body_image req) then body_image req else Some VNull)"
  by (simp_all add: add_push_def Date_now_def Math_random36_def Let_def)

lemma edit_put_entry:
  assumes "\<not> untrimmable req"
  shows "fst (edit_put req idx st) =
     (games st ! idx)
       \<lparr>title := (if blank (body_title req) then title (games st ! idx)
                  else trim (string_of (body_title req))),
        description := (if blank (body_description req) then description (games st ! idx)
                        else trim (string_of (body_description req))),
        link := (if blank (body_link req) then link (games st ! idx)
                 else trim (string_of (body_link req))),
        image' := (case file' req of
                     Some f \<Rightarrow> Some (VString (dataURI f))
                   | None \<Rightarrow> if truthy_value (body_image req) then body_image req
                             else image' (games st ! idx)),
        updatedAt := Some (toISOString (world st) (clock (world st) (n_clock st)))\<rparr>"
  using assms
  by (cases "file' req")
     (simp_all add: edit_put_def edit_fields_def Date_now_def Let_def blank_iff untrimmable_def)

lemma edit_put_id [simp]: "id' (fst (edit_put req idx st)) = id' (games st ! idx)"
  by (cases "file' req")
     (simp_all add: edit_put_def edit_fields_def Date_now_def Let_def)

lemma distinct_without:
  "distinct ys \<Longrightarrow> distinct (take i ys @ drop (Suc i) ys)"
  by (simp add: set_take_disj_set_drop_if_distinct)

lemma twins_eq:
  "twins = (boot (sample_world 0 1700 0))
     \<lparr>games := [twinA, twinB], fileSHA := Some (js ''sha1''),
      n_put := 2, n_clock := 6, n_random := 2,
      trace := [Fetch_GET, Console_Loaded 0,
                Fetch_PUT \<lparr>message = commit_message ''add'' (js ''A''), content = [twinA],
                           sha = Some (js ''remote'')\<rparr>,
                Console_Committed (commit_message ''add'' (js ''A'')),
                Fetch_PUT \<lparr>message = commit_message ''add'' (js ''B''), content = [twinA, twinB],
                           sha = Some (js ''sha0'')\<rparr>,
                Console_Committed (commit_message ''add'' (js ''B''))]\<rparr>"
  by (simp add: twins_def eval_defs)

text \<open>
  A request that arrives alone and is resumed until it is answered gets the answer of its
  route, and leaves the state its route leaves: \<open>post_add\<close>, \<open>post_edit\<close> and \<open>post_delete\<close>
  are the interleaved server with one request in flight.
\<close>

lemma saveToGitHub_loop:
  "\<exists>w s. loop msg 1 st = (Inl w, s) \<and> awaits_left w < 10 \<and> drive msg (Inl w, s) = saveToGitHub msg st"
proof -
  obtain p s where l: "loop msg 1 st = (p, s)" by force
  then obtain w where w: "p = Inl w"
    by (cases p) (auto simp add: loop_def MAX_RETRIES_def split: if_splits prod.splits)
  from l w loop_awaits [of msg st w s] saveToGitHub_alone [of msg st] show ?thesis
    by simp
qed

lemma edit_route_in_range:
  assumes "edit_route cfg req st = (Inr (idx, prev, updated), st1)"
  shows "idx < length (games st1)"
proof -
  from assms have h: "edit_handler req st = (Inr (idx, prev, updated), st1)"
    by (auto simp add: edit_route_def into_error_handler_def split: option.splits prod.splits)
  then obtain i where i: "findIndex (\<lambda>g. Some (VString (id' g)) = body_id req) (games st) = Some i"
    by (cases "findIndex (\<lambda>g. Some (VString (id' g)) = body_id req) (games st)")
       (auto simp add: edit_handler_def split: if_splits)
  from h i have "idx = i" "st1 = snd (edit_put req i st)"
    by (auto simp add: edit_handler_def split: if_splits prod.splits)
  with findIndex_Some [OF i] show ?thesis by simp
qed

lemma run_alone:
  assumes "10 \<le> n"
  shows "run cfg (alone n i rt req) (idle st)
           = Some \<lparr>server = snd (post rt cfg req st), pool = [], replies = [(i, fst (post rt cfg req st))]\<rparr>"
proof -
  obtain e s1 where ro: "route_of rt cfg req st = (e, s1)" by force
  show ?thesis
  proof (cases e)
    case (Inl out)
    have "run cfg (replicate n (Resumes i)) \<lparr>server = s1, pool = [], replies = [(i, out)]\<rparr>
            = Some \<lparr>server = s1, pool = [], replies = [(i, out)]\<rparr>"
      by (rule resumes_idle) simp
    moreover from ro Inl have "post rt cfg req st = (out, s1)"
      by (cases rt)
         (auto simp add: route_of_def post_def post_add_def post_edit_def post_delete_def
            split: prod.splits sum.splits)
    ultimately show ?thesis
      using ro Inl by (simp add: alone_def idle_def arrive_def)
  next
    case (Inr p)
    from saveToGitHub_loop [of "commit_of p" s1] obtain w s2 where
      l: "loop (commit_of p) 1 s1 = (Inl w, s2)" and a: "awaits_left w < 10"
      and d: "drive (commit_of p) (Inl w, s2) = saveToGitHub (commit_of p) s1"
      by blast
    from a assms have "awaits_left w < n" by simp
    from resumes_alone [OF this, of cfg i s2 p "[]"] d
    have r: "run cfg (replicate n (Resumes i)) \<lparr>server = s2, pool = [(i, Suspended p w)], replies = []\<rparr>
           = (case saveToGitHub (commit_of p) s1 of
                (r, st1) \<Rightarrow>
                  (case after p r st1 of
                     None \<Rightarrow> None
                   | Some (out, st2) \<Rightarrow> Some \<lparr>server = st2, pool = [], replies = [] @ [(i, out)]\<rparr>))"
      by simp
    obtain res s3 where sv: "saveToGitHub (commit_of p) s1 = (res, s3)" by force
    have g: "games s3 = games s1"
      using saveToGitHub_frame(1) [of "commit_of p" s1] by (simp add: sv)
    have "after p res s3 = Some (post rt cfg req st)"
    proof (cases rt)
      case Add
      with ro Inr sv show ?thesis
        by (auto simp add: route_of_def post_def post_add_def after_def commit_of_def
              split: prod.splits sum.splits)
    next
      case Edit
      with ro Inr obtain idx prev updated where
        p: "p = PEdit idx prev updated" and er: "edit_route cfg req st = (Inr (idx, prev, updated), s1)"
        by (auto simp add: route_of_def split: prod.splits sum.splits)
      from edit_route_in_range [OF er] g have "idx < length (games s3)" by simp
      from edit_after_in_range [OF this, of prev updated res] Edit p er sv show ?thesis
        by (simp add: post_def post_edit_def after_def commit_of_def)
    next
      case Delete
      with ro Inr sv show ?thesis
        by (auto simp add: route_of_def post_def post_delete_def after_def commit_of_def
              split: prod.splits sum.splits)
    qed
    with r sv show ?thesis
      using ro Inr l by (simp add: alone_def idle_def arrive_def settle_def split_def)
  qed
qed

text \<open>
  \<open>post_edit\<close> takes its result out of \<open>edit_after\<close>, which has one. And an edit is
  answered 200 only when the chain of middleware has let it through, its id is found, its
  title, description and link are strings or absent, and its persist step has succeeded.
\<close>

lemma post_edit_total:
  assumes "edit_route cfg req st = (Inr (idx, prev, updated), st1)"
  shows "edit_after idx prev updated (fst (saveToGitHub msg st1)) (snd (saveToGitHub msg st1)) \<noteq> None"
proof -
  from edit_route_in_range [OF assms] have "idx < length (games (snd (saveToGitHub msg st1)))"
    by simp
  from edit_after_in_range [OF this] show ?thesis by simp
qed

lemma successful_edit:
  assumes "answers (fst (post_edit cfg req st)) 200"
  shows "\<exists>idx. requireAuth cfg req = None \<and> upload_single req = None \<and> truthy_value (body_id req)
      \<and> findIndex (\<lambda>g. Some (VString (id' g)) = body_id req) (games st) = Some idx
      \<and> \<not> untrimmable req \<and> fst (edit_persist req idx st) = Inr ()"
proof (cases "requireAuth cfg req = None \<and> upload_single req = None \<and> truthy_value (body_id req)
      \<and> findIndex (\<lambda>g. Some (VString (id' g)) = body_id req) (games st) \<noteq> None
      \<and> \<not> untrimmable req")
  case True
  then obtain idx where idx: "findIndex (\<lambda>g. Some (VString (id' g)) = body_id req) (games st) = Some idx"
    by blast
  have "fst (edit_persist req idx st) = Inr ()"
  proof (rule ccontr)
    assume "fst (edit_persist req idx st) \<noteq> Inr ()"
    then obtain e where "fst (edit_persist req idx st) = Inl e"
      using result_cases [of "fst (edit_persist req idx st)"] by blast
    with True idx assms show False
      by (simp add: post_edit_failed answers_def)
  qed
  with True idx show ?thesis by blast
next
  case False
  from edit_route_ends [OF this] assms show ?thesis
    by (auto simp add: post_edit_def)
qed

text \<open>
  The rollback of a request that no other request overlaps: when its persist step fails, the
  route answers 500 with its persist-failure message, and the collection is again the list it
  was before the request.
\<close>

lemma rollback_when_alone:
  "(requireAuth cfg req = None \<and> upload_single req = None
      \<and> truthy (trimOpt (body_title req)) \<and> truthy (trimOpt (body_description req))
      \<and> truthy (trimOpt (body_link req))
      \<and> fst (add_persist req st) = Inl err
    \<longrightarrow> fst (post_add cfg req st) = Responded \<lparr>status = 500, json = JError (js ''Failed to persist game'')\<rparr>
        \<and> games (snd (post_add cfg req st)) = games st)
   \<and> (requireAuth cfg req = None \<and> upload_single req = None \<and> truthy_value (body_id req)
      \<and> findIndex (\<lambda>g. Some (VString (id' g)) = body_id req) (games st) = Some idx
      \<and> \<not> untrimmable req
      \<and> fst (edit_persist req idx st) = Inl err
    \<longrightarrow> fst (post_edit cfg req st) = Responded \<lparr>status = 500, json = JError (js ''Failed to persist changes'')\<rparr>
        \<and> games (snd (post_edit cfg req st)) = games st)
   \<and> (requireAuth cfg req = None \<and> truthy_value (body_id req)
      \<and> findIndex (\<lambda>g. Some (VString (id' g)) = body_id req) (games st) = Some idx
      \<and> fst (delete_persist idx st) = Inl err
    \<longrightarrow> fst (post_delete cfg req st) = Responded \<lparr>status = 500, json = JError (js ''Failed to persist deletion'')\<rparr>
        \<and> games (snd (post_delete cfg req st)) = games st)"
  by (simp add: post_add_failed post_edit_failed post_delete_failed)

section \<open>Claims\<close>

text \<open>
  C1. The rollback the claim describes is what each handler does after its await: it pops the
  last entry, writes the saved copy back at the index, splices the removed entry back in at
  the index. For a request that no other request overlaps this restores the collection (lemma
  \<open>rollback_when_alone\<close>). It does not when another request changes \<open>games\<close> while the
  handler waits, and nothing in the server keeps requests apart. On a server that holds
  [Pong, Tetris], with the store refusing every PUT but the second: the add of Snake pushes its
  entry and sends its PUT, the add of Pacman pushes its entry and sends its PUT, the PUT of
  Pacman is stored and Pacman is answered 201, the three attempts of Snake fail and its handler
  pops the last entry, which is Pacman's, and answers 500. The collection is then
  [Pong, Tetris, Snake]: the entry of the request that failed is still there, and the entry of
  the request that was answered 201 is gone.
\<close>

theorem overlapping_adds_break_rollback:
  "games (running flaky_world) = [game1, game2]
   \<and> (case run cfg0 overlapping_adds (idle (running flaky_world)) of
        None \<Rightarrow> False
      | Some sys \<Rightarrow>
          replies sys = [(2, Responded \<lparr>status = 201, json = JGame pacman\<rparr>),
                         (1, Responded \<lparr>status = 500, json = JError (js ''Failed to persist game'')\<rparr>)]
          \<and> pool sys = []
          \<and> games (server sys) = [game1, game2, snake])"
  by (simp add: eval_defs step_defs)

lemma refetched_quiet: "sleeps a = [] \<Longrightarrow> refetched a"
  using refetched_append [of a "[]"] by simp

text \<open>
  C2. Every run of \<open>saveToGitHub\<close> sends at most three PUTs and logs at most three failed
  attempts, numbered 1, 2, 3. After the first failure it waits 500 ms, after the second 1000 ms
  (the attempt number times 500), and after the third it does not wait; every wait is followed
  at once by a GET that fetches the version tag again. A run that does not succeed has logged
  exactly three failures and throws the error of the third. If the store refuses the first two
  PUTs and accepts the third (and no GET throws), the run succeeds with exactly three PUTs, two
  logged failures, the waits 500 and 1000, and \<open>fileSHA\<close> is the tag the third PUT returned. If
  the store refuses every PUT, the run fails after exactly three attempts, having waited 500
  and 1000, and what it throws is the error logged for the third.
\<close>

theorem save_retries_bounded:
  assumes "saveToGitHub msg st = (res, st')" and "evs = new_events st st'"
  shows "trace st' = trace st @ evs
     \<and> length (puts evs) \<le> 3
     \<and> length (failed_attempts evs) \<le> 3
     \<and> map fst (failed_attempts evs) = [1 ..< Suc (length (failed_attempts evs))]
     \<and> sleeps evs = take (length (failed_attempts evs)) [500 * 1, 500 * 2]
     \<and> refetched evs
     \<and> (res \<noteq> Inr () \<longrightarrow>
          (\<exists>m1 m2 m3. res = Inl (Error m3)
             \<and> failed_attempts evs = [(1, 3, m1), (2, 3, m2), (3, 3, m3)]))
     \<and> ((\<forall>i. \<not> is_GetThrows (get_resp (world st) i))
          \<and> (\<forall>b. \<not> is_PutOk (put_resp (world st) (n_put st) b))
          \<and> (\<forall>b. \<not> is_PutOk (put_resp (world st) (n_put st + 1) b))
          \<and> (\<forall>b. is_PutOk (put_resp (world st) (n_put st + 2) b))
        \<longrightarrow> res = Inr () \<and> length (puts evs) = 3 \<and> length (failed_attempts evs) = 2
            \<and> sleeps evs = [500, 1000]
            \<and> (\<exists>b. put_resp (world st) (n_put st + 2) b = PutOk (fileSHA st')))
     \<and> ((\<forall>i b. \<not> is_PutOk (put_resp (world st) i b))
        \<longrightarrow> (\<exists>m1 m2 m3. res = Inl (Error m3)
               \<and> failed_attempts evs = [(1, 3, m1), (2, 3, m2), (3, 3, m3)])
            \<and> sleeps evs = [500, 1000])"
proof -
  have always: "(\<forall>i b. \<not> is_PutOk (put_resp (world st) i b)) \<longrightarrow> res \<noteq> Inr ()"
    using saveToGitHub_always_refused [of st msg] assms(1) by auto
  have third: "(\<forall>i. \<not> is_GetThrows (get_resp (world st) i))
          \<and> (\<forall>b. \<not> is_PutOk (put_resp (world st) (n_put st) b))
          \<and> (\<forall>b. \<not> is_PutOk (put_resp (world st) (n_put st + 1) b))
          \<and> (\<forall>b. is_PutOk (put_resp (world st) (n_put st + 2) b))
        \<longrightarrow> res = Inr () \<and> n_put st' = n_put st + 3
            \<and> (\<exists>b. put_resp (world st) (n_put st + 2) b = PutOk (fileSHA st'))"
    using saveToGitHub_third_time [of st msg] assms(1) by simp
  from saveToGitHub_shape [of msg st] assms obtain e1 e2 e3 m1 m2 m3 where
    q: "sleeps e1 = []" "failed_attempts e1 = []" "length (puts e1) \<le> 1"
      "sleeps e2 = []" "failed_attempts e2 = []" "length (puts e2) \<le> 1"
      "sleeps e3 = []" "failed_attempts e3 = []" "length (puts e3) \<le> 1"
    and np: "n_put st' = n_put st + length (puts evs)"
    and shape: "res = Inr () \<and> trace st' = trace st @ e1
         \<or> res = Inr () \<and> trace st' = trace st @ e1 @ [Console_SaveFailed 1 3 m1, Sleep 500]
                                                 @ Fetch_GET # e2
         \<or> res = Inr () \<and> trace st' = trace st @ e1 @ [Console_SaveFailed 1 3 m1, Sleep 500]
                                                 @ Fetch_GET # e2 @ [Console_SaveFailed 2 3 m2, Sleep 1000]
                                                 @ Fetch_GET # e3
         \<or> res = Inl (Error m3)
             \<and> trace st' = trace st @ e1 @ [Console_SaveFailed 1 3 m1, Sleep 500]
                                         @ Fetch_GET # e2 @ [Console_SaveFailed 2 3 m2, Sleep 1000]
                                         @ Fetch_GET # e3 @ [Console_SaveFailed 3 3 m3]"
    by auto
  have tr: "trace st' = trace st @ evs"
    using shape assms(2) by (auto simp add: new_events_def)
  have rq: "refetched e1" "refetched e2" "refetched e3"
    using q by (simp_all add: refetched_quiet)
  from shape consider
      (first) "res = Inr ()" "evs = e1"
    | (second) "res = Inr ()" "evs = e1 @ [Console_SaveFailed 1 3 m1, Sleep 500] @ Fetch_GET # e2"
    | (third) "res = Inr ()"
        "evs = e1 @ [Console_SaveFailed 1 3 m1, Sleep 500] @ Fetch_GET # e2
                 @ [Console_SaveFailed 2 3 m2, Sleep 1000] @ Fetch_GET # e3"
    | (failed) "res = Inl (Error m3)"
        "evs = e1 @ [Console_SaveFailed 1 3 m1, Sleep 500] @ Fetch_GET # e2
                 @ [Console_SaveFailed 2 3 m2, Sleep 1000] @ Fetch_GET # e3 @ [Console_SaveFailed 3 3 m3]"
    using tr by auto
  then show ?thesis
  proof cases
    case first
    from first q rq np always third tr show ?thesis by simp
  next
    case second
    from second q rq np always third tr show ?thesis by (simp add: refetched_append)
  next
    case third
    from third q rq np always \<open>_ \<longrightarrow> res = Inr () \<and> _\<close> tr show ?thesis
      by (simp add: refetched_append)
  next
    case failed
    from failed q rq np always \<open>_ \<longrightarrow> res = Inr () \<and> _\<close> tr show ?thesis
      by (simp add: refetched_append)
  qed
qed

lemma run_saved_third_time:
  "saveToGitHub (js ''m'') (running (sample_world 2 1700 7)) = (Inr (), saved_third_time)"
  by (simp add: eval_defs)

lemma run_never_saved:
  "saveToGitHub (js ''m'') (running down_world) = (Inl (Error (js ''socket hang up'')), never_saved)"
  by (simp add: eval_defs)

theorem save_retries_bounded_witness:
  "saveToGitHub (js ''m'') (running (sample_world 2 1700 7)) = (Inr (), saved_third_time)
   \<and> ((\<forall>i. \<not> is_GetThrows (get_resp (world (running (sample_world 2 1700 7))) i))
      \<and> (\<forall>b. \<not> is_PutOk (put_resp (world (running (sample_world 2 1700 7)))
                             (n_put (running (sample_world 2 1700 7))) b))
      \<and> (\<forall>b. \<not> is_PutOk (put_resp (world (running (sample_world 2 1700 7)))
                             (n_put (running (sample_world 2 1700 7)) + 1) b))
      \<and> (\<forall>b. is_PutOk (put_resp (world (running (sample_world 2 1700 7)))
                           (n_put (running (sample_world 2 1700 7)) + 2) b)))
   \<and> length (puts (new_events (running (sample_world 2 1700 7)) saved_third_time)) = 3
   \<and> length (failed_attempts (new_events (running (sample_world 2 1700 7)) saved_third_time)) = 2
   \<and> sleeps (new_events (running (sample_world 2 1700 7)) saved_third_time) = [500, 1000]
   \<and> refetched (new_events (running (sample_world 2 1700 7)) saved_third_time)
   \<and> saveToGitHub (js ''m'') (running down_world) = (Inl (Error (js ''socket hang up'')), never_saved)
   \<and> (\<forall>i b. \<not> is_PutOk (put_resp (world (running down_world)) i b))
   \<and> (\<exists>m1 m2 m3. Inl (Error (js ''socket hang up'')) = Inl (Error m3)
        \<and> failed_attempts (new_events (running down_world) never_saved) = [(1, 3, m1), (2, 3, m2), (3, 3, m3)])
   \<and> sleeps (new_events (running down_world) never_saved) = [500, 1000]"
proof -
  have h: "(\<forall>i. \<not> is_GetThrows (get_resp (world (running (sample_world 2 1700 7))) i))
      \<and> (\<forall>b. \<not> is_PutOk (put_resp (world (running (sample_world 2 1700 7)))
                             (n_put (running (sample_world 2 1700 7))) b))
      \<and> (\<forall>b. \<not> is_PutOk (put_resp (world (running (sample_world 2 1700 7)))
                             (n_put (running (sample_world 2 1700 7)) + 1) b))
      \<and> (\<forall>b. is_PutOk (put_resp (world (running (sample_world 2 1700 7)))
                           (n_put (running (sample_world 2 1700 7)) + 2) b))"
    by (simp add: running_def sample_world_def document_def ok_def is_PutOk_def is_GetThrows_def)
  have d: "\<forall>i b. \<not> is_PutOk (put_resp (world (running down_world)) i b)"
    by (simp add: running_def down_world_def is_PutOk_def)
  from h d run_saved_third_time run_never_saved
    save_retries_bounded [OF run_saved_third_time refl] save_retries_bounded [OF run_never_saved refl]
  show ?thesis by blast
qed

text \<open>
  C3, as the code has it. For a successful edit of an existing id (the hypotheses below hold
  of every edit that is answered 200, lemma \<open>successful_edit\<close>; in particular its title,
  description and link are strings or absent, for on any other value the handler throws): each
  of title, description and link that is not blank replaces the stored value by its trimmed
  value, and each that is absent or blank leaves the stored value; the image is replaced by
  the data URI of an uploaded file, or else by the image field whenever that field is truthy
  (it is not trimmed, so a field of white space replaces the stored image), and is left
  otherwise; \<open>updatedAt\<close> is set to the clock reading; nothing else of the entry changes, in
  particular not its id nor \<open>createdAt\<close>, and the entry stays at its index, the other entries
  being as they were. The answer is 200 with the updated entry.
\<close>

theorem edit_partial_update:
  assumes "requireAuth cfg req = None" and "upload_single req = None"
    and "truthy_value (body_id req)"
    and "findIndex (\<lambda>g. Some (VString (id' g)) = body_id req) (games st) = Some idx"
    and "\<not> untrimmable req"
    and "fst (edit_persist req idx st) = Inr ()"
  shows "idx < length (games st) \<and> Some (VString (id' (games st ! idx))) = body_id req
     \<and> fst (post_edit cfg req st) = Responded \<lparr>status = 200, json = JGame (fst (edit_put req idx st))\<rparr>
     \<and> games (snd (post_edit cfg req st)) = (games st)[idx := fst (edit_put req idx st)]
     \<and> fst (edit_put req idx st) =
         (games st ! idx)
           \<lparr>title := (if blank (body_title req) then title (games st ! idx)
                      else trim (string_of (body_title req))),
            description := (if blank (body_description req) then description (games st ! idx)
                            else trim (string_of (body_description req))),
            link := (if blank (body_link req) then link (games st ! idx)
                     else trim (string_of (body_link req))),
            image' := (case file' req of
                         Some f \<Rightarrow> Some (VString (dataURI f))
                       | None \<Rightarrow> if truthy_value (body_image req) then body_image req
                                 else image' (games st ! idx)),
            updatedAt := Some (toISOString (world st) (clock (world st) (n_clock st)))\<rparr>
     \<and> id' (fst (edit_put req idx st)) = id' (games st ! idx)
     \<and> createdAt (fst (edit_put req idx st)) = createdAt (games st ! idx)"
proof -
  have "games (snd (post_edit cfg req st)) = (games st)[idx := fst (edit_put req idx st)]"
    using post_edit_ok [OF assms] by simp
  moreover have "fst (post_edit cfg req st)
      = Responded \<lparr>status = 200, json = JGame (fst (edit_put req idx st))\<rparr>"
    using post_edit_ok [OF assms] by simp
  moreover have "createdAt (fst (edit_put req idx st)) = createdAt (games st ! idx)"
    by (simp add: edit_put_entry [OF assms(5)])
  ultimately show ?thesis
    using findIndex_Some [OF assms(4)] edit_put_entry [OF assms(5), of idx st] by simp
qed

theorem edit_partial_update_witness:
  "(requireAuth cfg0 (edit_request (id' game1) '''' ''X'') = None
     \<and> upload_single (edit_request (id' game1) '''' ''X'') = None
     \<and> truthy_value (body_id (edit_request (id' game1) '''' ''X''))
     \<and> findIndex (\<lambda>g. Some (VString (id' g)) = body_id (edit_request (id' game1) '''' ''X''))
          (games (running (sample_world 0 1700 7))) = Some 0
     \<and> \<not> untrimmable (edit_request (id' game1) '''' ''X'')
     \<and> fst (edit_persist (edit_request (id' game1) '''' ''X'') 0 (running (sample_world 0 1700 7))) = Inr ())
   \<and> games (snd (post_edit cfg0 (edit_request (id' game1) '''' ''X'') (running (sample_world 0 1700 7))))
       = (games (running (sample_world 0 1700 7)))
           [0 := fst (edit_put (edit_request (id' game1) '''' ''X'') 0 (running (sample_world 0 1700 7)))]
   \<and> fst (edit_put (edit_request (id' game1) '''' ''X'') 0 (running (sample_world 0 1700 7)))
       = game1\<lparr>description := js ''X'', updatedAt := Some (js ''T1700'')\<rparr>"
proof -
  have h: "requireAuth cfg0 (edit_request (id' game1) '''' ''X'') = None
     \<and> upload_single (edit_request (id' game1) '''' ''X'') = None
     \<and> truthy_value (body_id (edit_request (id' game1) '''' ''X''))
     \<and> findIndex (\<lambda>g. Some (VString (id' g)) = body_id (edit_request (id' game1) '''' ''X''))
          (games (running (sample_world 0 1700 7))) = Some 0
     \<and> \<not> untrimmable (edit_request (id' game1) '''' ''X'')
     \<and> fst (edit_persist (edit_request (id' game1) '''' ''X'') 0 (running (sample_world 0 1700 7))) = Inr ()"
    by (simp add: eval_defs untrimmable_def)
  have e: "fst (edit_put (edit_request (id' game1) '''' ''X'') 0 (running (sample_world 0 1700 7)))
       = game1\<lparr>description := js ''X'', updatedAt := Some (js ''T1700'')\<rparr>"
    by (simp add: eval_defs)
  from h e edit_partial_update [of cfg0 "edit_request (id' game1) '''' ''X''"
      "running (sample_world 0 1700 7)" 0]
  show ?thesis by blast
qed

text \<open>
  C3 as stated fails for the image: an edit whose only field is an image of one space, blank
  after trimming, is answered 200 and replaces the stored image of the entry by that space.
\<close>

theorem edit_blank_image_counterexample:
  "blank (body_image (image_request (id' game2) '' ''))
   \<and> answers (fst (post_edit cfg0 (image_request (id' game2) '' '') (running (sample_world 0 1700 7)))) 200
   \<and> map image' (games (running (sample_world 0 1700 7)))
       = [Some VNull, Some (VString (js ''http://tetris/t.png''))]
   \<and> map image' (games (snd (post_edit cfg0 (image_request (id' game2) '' '')
                                (running (sample_world 0 1700 7)))))
       = [Some VNull, Some (VString (js '' ''))]"
  by (simp add: eval_defs blank_def)

text \<open>
  C4. GET /games answers with the entries in the reverse of their order in the collection
  and leaves the state as it is, so that asking twice gives the same answer twice. After two
  successful adds, of entries A then B, the answer starts with B, then A, then what the
  collection held before, newest first: on a collection that was empty it is [B, A].
\<close>

theorem snapshot_newest_first:
  "get_games st = (\<lparr>status = 200, json = JGames (rev (games st))\<rparr>, st)
   \<and> get_games (snd (get_games st)) = get_games st
   \<and> (answers (fst (post_add cfg ra st)) 201
        \<and> answers (fst (post_add cfg rb (snd (post_add cfg ra st)))) 201
      \<longrightarrow> (\<exists>a b. fst (post_add cfg ra st) = Responded \<lparr>status = 201, json = JGame a\<rparr>
               \<and> fst (post_add cfg rb (snd (post_add cfg ra st))) = Responded \<lparr>status = 201, json = JGame b\<rparr>
               \<and> fst (get_games (snd (post_add cfg rb (snd (post_add cfg ra st)))))
                   = \<lparr>status = 200, json = JGames (b # a # rev (games st))\<rparr>))"
proof -
  have "\<exists>a b. fst (post_add cfg ra st) = Responded \<lparr>status = 201, json = JGame a\<rparr>
               \<and> fst (post_add cfg rb (snd (post_add cfg ra st))) = Responded \<lparr>status = 201, json = JGame b\<rparr>
               \<and> fst (get_games (snd (post_add cfg rb (snd (post_add cfg ra st)))))
                   = \<lparr>status = 200, json = JGames (b # a # rev (games st))\<rparr>"
    if a: "answers (fst (post_add cfg ra st)) 201"
      and b: "answers (fst (post_add cfg rb (snd (post_add cfg ra st)))) 201"
    using post_add_201 [OF a] post_add_201 [OF b] by (simp add: get_games_def)
  then show ?thesis by (simp add: get_games_def)
qed

theorem snapshot_newest_first_witness:
  "answers (fst (post_add cfg0 (add_request ''A'' ''first'' ''http://a'') (boot (sample_world 0 1700 7)))) 201
   \<and> answers (fst (post_add cfg0 (add_request ''B'' ''second'' ''http://b'')
        (snd (post_add cfg0 (add_request ''A'' ''first'' ''http://a'') (boot (sample_world 0 1700 7)))))) 201
   \<and> (\<exists>a b. fst (post_add cfg0 (add_request ''A'' ''first'' ''http://a'') (boot (sample_world 0 1700 7)))
                = Responded \<lparr>status = 201, json = JGame a\<rparr>
        \<and> fst (post_add cfg0 (add_request ''B'' ''second'' ''http://b'')
              (snd (post_add cfg0 (add_request ''A'' ''first'' ''http://a'') (boot (sample_world 0 1700 7)))))
                = Responded \<lparr>status = 201, json = JGame b\<rparr>
        \<and> fst (get_games (snd (post_add cfg0 (add_request ''B'' ''second'' ''http://b'')
              (snd (post_add cfg0 (add_request ''A'' ''first'' ''http://a'') (boot (sample_world 0 1700 7)))))))
          = \<lparr>status = 200, json = JGames (b # a # rev (games (boot (sample_world 0 1700 7))))\<rparr>)
   \<and> games (boot (sample_world 0 1700 7)) = []"
proof -
  have h: "answers (fst (post_add cfg0 (add_request ''A'' ''first'' ''http://a'') (boot (sample_world 0 1700 7)))) 201
   \<and> answers (fst (post_add cfg0 (add_request ''B'' ''second'' ''http://b'')
        (snd (post_add cfg0 (add_request ''A'' ''first'' ''http://a'') (boot (sample_world 0 1700 7)))))) 201"
    by (simp add: eval_defs)
  have e: "games (boot (sample_world 0 1700 7)) = []"
    by (simp add: eval_defs)
  from h e snapshot_newest_first [of "boot (sample_world 0 1700 7)" cfg0
      "add_request ''A'' ''first'' ''http://a''" "add_request ''B'' ''second'' ''http://b''"]
  show ?thesis by blast
qed

text \<open>
  C5, as the code has it. A POST to /add, /edit or /delete whose Authorization header is
  missing or is not \<open>Bearer\<close> followed by the configured admin token never changes the
  collection or the version tag and never sends a GET or a PUT to the store, and it ends in
  the piece of the route that runs when it arrives, whatever else is in flight. It is answered
  401 Unauthorized when the JSON body parser has let it through. When the parser has not (the
  body is sent as JSON and is not JSON text, or is longer than 3 MB), the request never
  reaches \<open>requireAuth\<close>: the error handler logs the parser's error and answers 500 with its
  message.
\<close>

theorem unauthorized_rejected:
  assumes "authorization req \<noteq> Some (js ''Bearer '' @ ADMIN_TOKEN cfg)"
  shows "(json_parser req = None
          \<longrightarrow> post rt cfg req st = (Responded \<lparr>status = 401, json = JError (js ''Unauthorized'')\<rparr>, st))
       \<and> (json_parser req = Some e
          \<longrightarrow> post rt cfg req st
                = (Responded \<lparr>status = 500, json = JError (orElse (Some (message_of e)) (js ''Internal server error''))\<rparr>,
                   emit (Console_Unhandled (message_of e)) st))
       \<and> games (snd (post rt cfg req st)) = games st
       \<and> fileSHA (snd (post rt cfg req st)) = fileSHA st
       \<and> n_get (snd (post rt cfg req st)) = n_get st
       \<and> n_put (snd (post rt cfg req st)) = n_put st
       \<and> puts (new_events st (snd (post rt cfg req st))) = []
       \<and> route_of rt cfg req st = (Inl (fst (post rt cfg req st)), snd (post rt cfg req st))"
proof -
  from assms have auth: "requireAuth cfg req = Some \<lparr>status = 401, json = JError (js ''Unauthorized'')\<rparr>"
    by (simp add: requireAuth_def Let_def)
  show ?thesis
  proof (cases "json_parser req")
    case None
    with auth have "route_of rt cfg req st
        = (Inl (Responded \<lparr>status = 401, json = JError (js ''Unauthorized'')\<rparr>), st)"
      by (cases rt) (simp_all add: route_of_def add_route_def edit_route_def delete_route_def)
    moreover from None auth have "post rt cfg req st
        = (Responded \<lparr>status = 401, json = JError (js ''Unauthorized'')\<rparr>, st)"
      by (cases rt)
         (simp_all add: post_def post_add_def post_edit_def post_delete_def
            add_route_def edit_route_def delete_route_def)
    ultimately show ?thesis
      using None by (simp add: new_events_def)
  next
    case (Some x)
    then have "route_of rt cfg req st
        = (Inl (Responded \<lparr>status = 500, json = JError (orElse (Some (message_of x)) (js ''Internal server error''))\<rparr>),
           emit (Console_Unhandled (message_of x)) st)"
      by (cases rt)
         (simp_all add: route_of_def add_route_def edit_route_def delete_route_def
            into_error_handler_def error_handler_def)
    moreover from Some have "post rt cfg req st
        = (Responded \<lparr>status = 500, json = JError (orElse (Some (message_of x)) (js ''Internal server error''))\<rparr>,
           emit (Console_Unhandled (message_of x)) st)"
      by (cases rt)
         (simp_all add: post_def post_add_def post_edit_def post_delete_def
            add_route_def edit_route_def delete_route_def into_error_handler_def error_handler_def)
    ultimately show ?thesis
      using Some by (simp add: new_events_def)
  qed
qed

theorem unauthorized_rejected_witness:
  "authorization (add_request ''Pong'' ''a game'' ''http://x''\<lparr>authorization := Some (js ''Bearer guess'')\<rparr>)
     \<noteq> Some (js ''Bearer '' @ ADMIN_TOKEN cfg0)
   \<and> json_parser (add_request ''Pong'' ''a game'' ''http://x''\<lparr>authorization := Some (js ''Bearer guess'')\<rparr>) = None
   \<and> post Add cfg0 (add_request ''Pong'' ''a game'' ''http://x''\<lparr>authorization := Some (js ''Bearer guess'')\<rparr>)
        (boot (sample_world 0 1700 7))
      = (Responded \<lparr>status = 401, json = JError (js ''Unauthorized'')\<rparr>, boot (sample_world 0 1700 7))
   \<and> authorization (malformed None) \<noteq> Some (js ''Bearer '' @ ADMIN_TOKEN cfg0)
   \<and> json_parser (malformed None) = Some (Error (js ''Unexpected end of JSON input''))
   \<and> post Delete cfg0 (malformed None) (boot (sample_world 0 1700 7))
      = (Responded \<lparr>status = 500,
                     json = JError (orElse (Some (message_of (Error (js ''Unexpected end of JSON input''))))
                                      (js ''Internal server error''))\<rparr>,
         emit (Console_Unhandled (message_of (Error (js ''Unexpected end of JSON input''))))
           (boot (sample_world 0 1700 7)))
   \<and> games (snd (post Delete cfg0 (malformed None) (boot (sample_world 0 1700 7))))
       = games (boot (sample_world 0 1700 7))
   \<and> puts (new_events (boot (sample_world 0 1700 7))
             (snd (post Delete cfg0 (malformed None) (boot (sample_world 0 1700 7))))) = []"
proof -
  have a: "authorization (add_request ''Pong'' ''a game'' ''http://x''\<lparr>authorization := Some (js ''Bearer guess'')\<rparr>)
     \<noteq> Some (js ''Bearer '' @ ADMIN_TOKEN cfg0)
   \<and> json_parser (add_request ''Pong'' ''a game'' ''http://x''\<lparr>authorization := Some (js ''Bearer guess'')\<rparr>) = None"
    by (simp add: world_defs js_def json_parser_def)
  have m: "authorization (malformed None) \<noteq> Some (js ''Bearer '' @ ADMIN_TOKEN cfg0)
   \<and> json_parser (malformed None) = Some (Error (js ''Unexpected end of JSON input''))"
    by (simp add: malformed_def json_parser_def)
  from a m
    unauthorized_rejected [where req = "add_request ''Pong'' ''a game'' ''http://x''\<lparr>authorization := Some (js ''Bearer guess'')\<rparr>"
      and cfg = cfg0 and e = "Error (js ''Unexpected end of JSON input'')" and rt = Add
      and st = "boot (sample_world 0 1700 7)"]
    unauthorized_rejected [where req = "malformed None" and cfg = cfg0
      and e = "Error (js ''Unexpected end of JSON input'')" and rt = Delete
      and st = "boot (sample_world 0 1700 7)"]
  show ?thesis by blast
qed

text \<open>
  C5 as stated fails for the status: a request with a wrong token, or with none, whose body is
  sent as JSON and breaks off half way is answered 500 with the message of the parser, not 401.
  The collection is unchanged and nothing is sent to the store.
\<close>

theorem unauthorized_malformed_counterexample:
  "authorization (malformed (Some (js ''Bearer guess''))) \<noteq> Some (js ''Bearer '' @ ADMIN_TOKEN cfg0)
   \<and> post_add cfg0 (malformed (Some (js ''Bearer guess''))) (running (sample_world 0 1700 7))
       = (Responded \<lparr>status = 500, json = JError (js ''Unexpected end of JSON input'')\<rparr>,
          emit (Console_Unhandled (js ''Unexpected end of JSON input'')) (running (sample_world 0 1700 7)))
   \<and> \<not> answers (fst (post_add cfg0 (malformed (Some (js ''Bearer guess''))) (running (sample_world 0 1700 7)))) 401
   \<and> authorization (malformed None) \<noteq> Some (js ''Bearer '' @ ADMIN_TOKEN cfg0)
   \<and> answers (fst (post_edit cfg0 (malformed None) (running (sample_world 0 1700 7)))) 500
   \<and> answers (fst (post_delete cfg0 (malformed None) (running (sample_world 0 1700 7)))) 500"
  by (simp add: eval_defs)

lemma findIndex_after_delete:
  assumes "findIndex (\<lambda>g. id' g = i) xs = Some idx"
    and "length (filter (\<lambda>g. id' g = i) xs) \<le> 1"
  shows "findIndex (\<lambda>g. id' g = i) (take idx xs @ drop (Suc idx) xs) = None"
proof -
  from findIndex_Some [OF assms(1)] have idx: "idx < length xs" "id' (xs ! idx) = i"
    by simp_all
  have "xs = take idx xs @ xs ! idx # drop (Suc idx) xs"
    using idx(1) by (simp add: id_take_nth_drop)
  then have "length (filter (\<lambda>g. id' g = i) xs)
      = length (filter (\<lambda>g. id' g = i) (take idx xs)) + 1
        + length (filter (\<lambda>g. id' g = i) (drop (Suc idx) xs))"
    using idx(2) by (metis (mono_tags, lifting) One_nat_def add.assoc add_Suc filter.simps(2)
        filter_append length_Cons length_append plus_1_eq_Suc)
  with assms(2) have "filter (\<lambda>g. id' g = i) (take idx xs @ drop (Suc idx) xs) = []"
    by simp
  then show ?thesis
    by (auto simp add: findIndex_None filter_empty_conv)
qed

text \<open>
  C6, as the code has it. A request to edit or to delete that has passed the middleware and
  carries a non-empty id that no entry has is answered 404, and the state is unchanged. After a
  successful delete, a second delete of the same id is answered 404 when at most one entry
  carried that id (as is the case whenever ids are pairwise distinct): delete takes out the
  first entry with the id only.
\<close>

theorem unknown_id_not_found:
  assumes "requireAuth cfg req = None" and "body_id req = Some (VString i)" and "i \<noteq> []"
  shows "(i \<notin> id' ` set (games st)
      \<longrightarrow> post_delete cfg req st = (Responded \<lparr>status = 404, json = JError (js ''Game not found'')\<rparr>, st)
        \<and> (upload_single req = None
           \<longrightarrow> post_edit cfg req st = (Responded \<lparr>status = 404, json = JError (js ''Game not found'')\<rparr>, st)))
     \<and> (answers (fst (post_delete cfg req st)) 200
        \<and> length (filter (\<lambda>g. id' g = i) (games st)) \<le> 1
      \<longrightarrow> post_delete cfg req (snd (post_delete cfg req st))
            = (Responded \<lparr>status = 404, json = JError (js ''Game not found'')\<rparr>, snd (post_delete cfg req st)))"
proof -
  have t: "truthy_value (body_id req)"
    using assms by (simp add: truthy_value_def)
  have j: "json_parser req = None"
    using parsed_id [OF t] .
  have p: "(\<lambda>g. Some (VString (id' g)) = body_id req) = (\<lambda>g. id' g = i)"
    using assms(2) by auto
  have none: "post_delete cfg req s = (Responded \<lparr>status = 404, json = JError (js ''Game not found'')\<rparr>, s)"
    if "findIndex (\<lambda>g. id' g = i) (games s) = None" for s
    using that assms(1) t j by (simp add: post_delete_def delete_route_def delete_handler_def p)
  have first: "post_delete cfg req st = (Responded \<lparr>status = 404, json = JError (js ''Game not found'')\<rparr>, st)
        \<and> (upload_single req = None
           \<longrightarrow> post_edit cfg req st = (Responded \<lparr>status = 404, json = JError (js ''Game not found'')\<rparr>, st))"
    if "i \<notin> id' ` set (games st)"
  proof -
    from that have "findIndex (\<lambda>g. id' g = i) (games st) = None"
      by (auto simp add: findIndex_None)
    then show ?thesis
      using assms(1) t j none [of st] by (simp add: post_edit_def edit_route_def edit_handler_def p)
  qed
  have second: "post_delete cfg req (snd (post_delete cfg req st))
            = (Responded \<lparr>status = 404, json = JError (js ''Game not found'')\<rparr>, snd (post_delete cfg req st))"
    if ok: "answers (fst (post_delete cfg req st)) 200"
      and once: "length (filter (\<lambda>g. id' g = i) (games st)) \<le> 1"
  proof (cases "findIndex (\<lambda>g. id' g = i) (games st)")
    case None
    with none [of st] ok show ?thesis by (simp add: answers_def)
  next
    case (Some idx)
    show ?thesis
    proof (cases "fst (delete_persist idx st) = Inr ()")
      case True
      have "games (snd (post_delete cfg req st)) = take idx (games st) @ drop (Suc idx) (games st)"
        using post_delete_ok [OF assms(1) t _ True] Some by (simp add: p)
      with findIndex_after_delete [OF Some once] none show ?thesis by simp
    next
      case False
      then obtain e where "fst (delete_persist idx st) = Inl e"
        using result_cases [of "fst (delete_persist idx st)"] by blast
      from post_delete_failed [OF assms(1) t _ this] Some ok show ?thesis
        by (simp add: p answers_def)
    qed
  qed
  from first second show ?thesis by blast
qed

theorem unknown_id_not_found_witness:
  "requireAuth cfg0 (id_request (id' game1)) = None
   \<and> body_id (id_request (id' game1)) = Some (VString (id' game1)) \<and> id' game1 \<noteq> []
   \<and> (answers (fst (post_delete cfg0 (id_request (id' game1)) (running (sample_world 0 1700 7)))) 200
      \<and> length (filter (\<lambda>g. id' g = id' game1) (games (running (sample_world 0 1700 7)))) \<le> 1)
   \<and> post_delete cfg0 (id_request (id' game1))
        (snd (post_delete cfg0 (id_request (id' game1)) (running (sample_world 0 1700 7))))
       = (Responded \<lparr>status = 404, json = JError (js ''Game not found'')\<rparr>,
          snd (post_delete cfg0 (id_request (id' game1)) (running (sample_world 0 1700 7))))
   \<and> requireAuth cfg0 (id_request (js ''game_9'')) = None
   \<and> body_id (id_request (js ''game_9'')) = Some (VString (js ''game_9'')) \<and> js ''game_9'' \<noteq> []
   \<and> js ''game_9'' \<notin> id' ` set (games (running (sample_world 0 1700 7)))
   \<and> upload_single (id_request (js ''game_9'')) = None
   \<and> post_edit cfg0 (id_request (js ''game_9'')) (running (sample_world 0 1700 7))
       = (Responded \<lparr>status = 404, json = JError (js ''Game not found'')\<rparr>, running (sample_world 0 1700 7))"
proof -
  have a: "requireAuth cfg0 (id_request (id' game1)) = None
   \<and> body_id (id_request (id' game1)) = Some (VString (id' game1)) \<and> id' game1 \<noteq> []
   \<and> (answers (fst (post_delete cfg0 (id_request (id' game1)) (running (sample_world 0 1700 7)))) 200
      \<and> length (filter (\<lambda>g. id' g = id' game1) (games (running (sample_world 0 1700 7)))) \<le> 1)"
    by (simp add: eval_defs)
  have b: "requireAuth cfg0 (id_request (js ''game_9'')) = None
   \<and> body_id (id_request (js ''game_9'')) = Some (VString (js ''game_9'')) \<and> js ''game_9'' \<noteq> []
   \<and> js ''game_9'' \<notin> id' ` set (games (running (sample_world 0 1700 7)))
   \<and> upload_single (id_request (js ''game_9'')) = None"
    by (simp add: eval_defs)
  from a b
    unknown_id_not_found [of cfg0 "id_request (id' game1)" "id' game1" "running (sample_world 0 1700 7)"]
    unknown_id_not_found [of cfg0 "id_request (js ''game_9'')" "js ''game_9''" "running (sample_world 0 1700 7)"]
  show ?thesis by blast
qed

text \<open>
  C6 as stated fails when two entries carry the same id: in the collection the two adds of
  \<open>twins\<close> have produced, a delete of that id succeeds, and the same delete succeeds again.
  The same happens after a boot from a \<open>games.json\<close> in which an entry has been copied.
\<close>

theorem delete_twice_counterexample:
  "map id' (games twins) = [js ''game_1700_k3j2h'', js ''game_1700_k3j2h'']
   \<and> answers (fst (post_delete cfg0 (id_request (js ''game_1700_k3j2h'')) twins)) 200
   \<and> answers (fst (post_delete cfg0 (id_request (js ''game_1700_k3j2h''))
                    (snd (post_delete cfg0 (id_request (js ''game_1700_k3j2h'')) twins)))) 200
   \<and> games (boot copied_entry) = [twinA, twinB]
   \<and> answers (fst (post_delete cfg0 (id_request (js ''game_1700_k3j2h'')) (boot copied_entry))) 200
   \<and> answers (fst (post_delete cfg0 (id_request (js ''game_1700_k3j2h''))
                    (snd (post_delete cfg0 (id_request (js ''game_1700_k3j2h'')) (boot copied_entry))))) 200"
  by (simp add: twins_eq eval_defs)

text \<open>
  C7. When a subscriber connects, the server writes one console line and sends that subscriber
  one message, and nothing else: the message has type \<open>init\<close> and its payload is the whole
  collection as it is at that moment (in insertion order); the collection is unchanged. After
  two successful adds of A then B, the payload of a subscriber connecting then holds the earlier
  entries, A and B. No route sends a second \<open>init\<close>: whatever an add, an edit or a delete
  sends has the type \<open>add\<close>, \<open>edit\<close> or \<open>delete\<close>.
\<close>

theorem init_on_connection:
  "new_events st (on_connection ws st)
     = [Console_Connected,
        Send ws \<lparr>type' = js ''init'', payload = PGames (games st), ts = clock (world st) (n_clock st)\<rparr>]
   \<and> games (on_connection ws st) = games st
   \<and> (answers (fst (post_add cfg ra st)) 201
        \<and> answers (fst (post_add cfg rb (snd (post_add cfg ra st)))) 201
      \<longrightarrow> (\<exists>a b t. fst (post_add cfg ra st) = Responded \<lparr>status = 201, json = JGame a\<rparr>
               \<and> fst (post_add cfg rb (snd (post_add cfg ra st))) = Responded \<lparr>status = 201, json = JGame b\<rparr>
               \<and> sent (new_events (snd (post_add cfg rb (snd (post_add cfg ra st))))
                         (on_connection ws (snd (post_add cfg rb (snd (post_add cfg ra st))))))
                   = [(ws, \<lparr>type' = js ''init'', payload = PGames (games st @ [a, b]), ts = t\<rparr>)]))
   \<and> (\<forall>x\<in>set (sent (new_events st (snd (post_add cfg ra st)))). type' (snd x) = js ''add'')
   \<and> (\<forall>x\<in>set (sent (new_events st (snd (post_edit cfg ra st)))). type' (snd x) = js ''edit'')
   \<and> (\<forall>x\<in>set (sent (new_events st (snd (post_delete cfg ra st)))). type' (snd x) = js ''delete'')
   \<and> js ''init'' \<notin> {js ''add'', js ''edit'', js ''delete''}"
proof -
  have ev: "new_events s (on_connection ws s)
     = [Console_Connected,
        Send ws \<lparr>type' = js ''init'', payload = PGames (games s), ts = clock (world s) (n_clock s)\<rparr>]" for s
    by (simp add: new_events_def on_connection_def Date_now_def Let_def emit_def)
  have "\<exists>a b t. fst (post_add cfg ra st) = Responded \<lparr>status = 201, json = JGame a\<rparr>
               \<and> fst (post_add cfg rb (snd (post_add cfg ra st))) = Responded \<lparr>status = 201, json = JGame b\<rparr>
               \<and> sent (new_events (snd (post_add cfg rb (snd (post_add cfg ra st))))
                         (on_connection ws (snd (post_add cfg rb (snd (post_add cfg ra st))))))
                   = [(ws, \<lparr>type' = js ''init'', payload = PGames (games st @ [a, b]), ts = t\<rparr>)]"
    if a: "answers (fst (post_add cfg ra st)) 201"
      and b: "answers (fst (post_add cfg rb (snd (post_add cfg ra st)))) 201"
    using post_add_201 [OF a] post_add_201 [OF b] by (simp add: ev)
  moreover have "games (on_connection ws st) = games st"
    by (simp add: on_connection_def Date_now_def Let_def emit_def)
  moreover have "\<forall>x\<in>set (sent (new_events st (snd (post_add cfg ra st)))). type' (snd x) = js ''add''"
    using post_add_sends [of cfg ra st] by auto
  moreover have "\<forall>x\<in>set (sent (new_events st (snd (post_edit cfg ra st)))). type' (snd x) = js ''edit''"
    using post_edit_sends [of cfg ra st] by auto
  moreover have "\<forall>x\<in>set (sent (new_events st (snd (post_delete cfg ra st)))). type' (snd x) = js ''delete''"
    using post_delete_sends [of cfg ra st] by auto
  moreover have "js ''init'' \<notin> {js ''add'', js ''edit'', js ''delete''}"
    by (simp add: js_def)
  ultimately show ?thesis using ev [of st] by blast
qed

theorem init_on_connection_witness:
  "answers (fst (post_add cfg0 (add_request ''A'' ''first'' ''http://a'') (boot (sample_world 0 1700 7)))) 201
   \<and> answers (fst (post_add cfg0 (add_request ''B'' ''second'' ''http://b'')
        (snd (post_add cfg0 (add_request ''A'' ''first'' ''http://a'') (boot (sample_world 0 1700 7)))))) 201
   \<and> (\<exists>a b t. fst (post_add cfg0 (add_request ''A'' ''first'' ''http://a'') (boot (sample_world 0 1700 7)))
                  = Responded \<lparr>status = 201, json = JGame a\<rparr>
        \<and> fst (post_add cfg0 (add_request ''B'' ''second'' ''http://b'')
              (snd (post_add cfg0 (add_request ''A'' ''first'' ''http://a'') (boot (sample_world 0 1700 7)))))
                  = Responded \<lparr>status = 201, json = JGame b\<rparr>
        \<and> sent (new_events (snd (post_add cfg0 (add_request ''B'' ''second'' ''http://b'')
                   (snd (post_add cfg0 (add_request ''A'' ''first'' ''http://a'') (boot (sample_world 0 1700 7))))))
                 (on_connection 4 (snd (post_add cfg0 (add_request ''B'' ''second'' ''http://b'')
                   (snd (post_add cfg0 (add_request ''A'' ''first'' ''http://a'') (boot (sample_world 0 1700 7))))))))
          = [(4, \<lparr>type' = js ''init'', payload = PGames (games (boot (sample_world 0 1700 7)) @ [a, b]), ts = t\<rparr>)])
   \<and> games (boot (sample_world 0 1700 7)) = []
   \<and> sent (new_events (running (sample_world 0 1700 7))
             (snd (post_delete cfg0 (id_request (id' game1)) (running (sample_world 0 1700 7)))))
       = [(1, \<lparr>type' = js ''delete'', payload = PId (id' game1), ts = 1700\<rparr>)]"
proof -
  have h: "answers (fst (post_add cfg0 (add_request ''A'' ''first'' ''http://a'') (boot (sample_world 0 1700 7)))) 201
   \<and> answers (fst (post_add cfg0 (add_request ''B'' ''second'' ''http://b'')
        (snd (post_add cfg0 (add_request ''A'' ''first'' ''http://a'') (boot (sample_world 0 1700 7)))))) 201"
    by (simp add: eval_defs)
  have e: "games (boot (sample_world 0 1700 7)) = []"
    by (simp add: eval_defs)
  have d: "sent (new_events (running (sample_world 0 1700 7))
             (snd (post_delete cfg0 (id_request (id' game1)) (running (sample_world 0 1700 7)))))
       = [(1, \<lparr>type' = js ''delete'', payload = PId (id' game1), ts = 1700\<rparr>)]"
    by (simp add: eval_defs)
  from h e d
    init_on_connection [of "boot (sample_world 0 1700 7)" 4 cfg0
      "add_request ''A'' ''first'' ''http://a''" "add_request ''B'' ''second'' ''http://b''"]
  show ?thesis by blast
qed

lemma map_id_update: "i < length xs \<Longrightarrow> f u = f (xs ! i) \<Longrightarrow> map f (xs[i := u]) = map f xs"
  by (simp add: map_update list_update_same_conv)

text \<open>
  C8, as the code has it. An edit or a delete that no other request overlaps keeps the ids of
  the collection pairwise distinct when they were: the edit keeps every id, the delete only
  removes an entry. This is so for the route taken as one function, and for the interleaved
  server with that one request in flight, resumed until it is answered (ten times are enough,
  a request waits eight times at most). An add builds the id
  \<open>game_\<close>, the clock reading, \<open>_\<close> and five characters of a random draw, and never compares
  it with the ids in the collection: the ids stay distinct when that id does not occur yet, and
  an add that succeeds with an id that occurs already leaves two entries with one id. The
  collection loaded at boot is the array of \<open>games.json\<close> as it is.
\<close>

theorem ids_stay_distinct:
  assumes "distinct (map id' (games st))"
  shows "distinct (map id' (games (snd (post_edit cfg req st))))
     \<and> distinct (map id' (games (snd (post_delete cfg req st))))
     \<and> (10 \<le> n
        \<longrightarrow> (case run cfg (alone n i Edit req) (idle st) of
               None \<Rightarrow> False
             | Some sys \<Rightarrow> pool sys = [] \<and> distinct (map id' (games (server sys))))
          \<and> (case run cfg (alone n i Delete req) (idle st) of
               None \<Rightarrow> False
             | Some sys \<Rightarrow> pool sys = [] \<and> distinct (map id' (games (server sys)))))
     \<and> id' (fst (add_push req st))
         = js ''game_'' @ dec_int (clock (world st) (n_clock st)) @ js ''_''
             @ slice' (random36 (world st) (n_random st)) 2 7
     \<and> (id' (fst (add_push req st)) \<notin> id' ` set (games st)
        \<longrightarrow> distinct (map id' (games (snd (post_add cfg req st)))))
     \<and> (id' (fst (add_push req st)) \<in> id' ` set (games st) \<and> answers (fst (post_add cfg req st)) 201
        \<longrightarrow> \<not> distinct (map id' (games (snd (post_add cfg req st)))))
     \<and> (get_resp (world st) (n_get st) = GetResponse code (Inr d) \<and> code \<noteq> 404 \<and> doc_content d = Inr gs
        \<longrightarrow> games (loadFromGitHub st) = gs)"
proof -
  have e: "distinct (map id' (games (snd (post_edit cfg req st))))"
    using post_edit_games [of cfg req st]
  proof
    assume "games (snd (post_edit cfg req st)) = games st"
    with assms show ?thesis by simp
  next
    assume "\<exists>idx. findIndex (\<lambda>g. Some (VString (id' g)) = body_id req) (games st) = Some idx
        \<and> answers (fst (post_edit cfg req st)) 200
        \<and> games (snd (post_edit cfg req st)) = (games st)[idx := fst (edit_put req idx st)]"
    then obtain idx where idx: "findIndex (\<lambda>g. Some (VString (id' g)) = body_id req) (games st) = Some idx"
      and g: "games (snd (post_edit cfg req st)) = (games st)[idx := fst (edit_put req idx st)]"
      by blast
    from findIndex_Some [OF idx] have "idx < length (games st)" by simp
    then have "map id' (games (snd (post_edit cfg req st))) = map id' (games st)"
      by (simp add: g map_id_update)
    with assms show ?thesis by simp
  qed
  have d: "distinct (map id' (games (snd (post_delete cfg req st))))"
    using post_delete_games [of cfg req st]
  proof
    assume "games (snd (post_delete cfg req st)) = games st \<and> \<not> answers (fst (post_delete cfg req st)) 200"
    with assms show ?thesis by simp
  next
    assume "\<exists>idx. findIndex (\<lambda>g. Some (VString (id' g)) = body_id req) (games st) = Some idx
        \<and> answers (fst (post_delete cfg req st)) 200
        \<and> games (snd (post_delete cfg req st)) = take idx (games st) @ drop (Suc idx) (games st)"
    then obtain idx where
      "games (snd (post_delete cfg req st)) = take idx (games st) @ drop (Suc idx) (games st)"
      by blast
    then have "map id' (games (snd (post_delete cfg req st)))
        = take idx (map id' (games st)) @ drop (Suc idx) (map id' (games st))"
      by (simp add: take_map drop_map)
    with distinct_without [OF assms, of idx] show ?thesis by simp
  qed
  have "(case run cfg (alone n i Edit req) (idle st) of
               None \<Rightarrow> False
             | Some sys \<Rightarrow> pool sys = [] \<and> distinct (map id' (games (server sys))))
          \<and> (case run cfg (alone n i Delete req) (idle st) of
               None \<Rightarrow> False
             | Some sys \<Rightarrow> pool sys = [] \<and> distinct (map id' (games (server sys))))"
    if "10 \<le> n"
    using e d by (simp add: run_alone [OF that] post_def)
  moreover have "distinct (map id' (games (snd (post_add cfg req st))))"
    if "id' (fst (add_push req st)) \<notin> id' ` set (games st)"
    using post_add_games [of cfg req st] assms that by auto
  moreover have "\<not> distinct (map id' (games (snd (post_add cfg req st))))"
    if "id' (fst (add_push req st)) \<in> id' ` set (games st)" "answers (fst (post_add cfg req st)) 201"
    using post_add_201 [OF that(2)] that(1) by simp
  moreover have "games (loadFromGitHub st) = gs"
    if "get_resp (world st) (n_get st) = GetResponse code (Inr d)" "code \<noteq> 404" "doc_content d = Inr gs"
    using that by (simp add: loadFromGitHub_def fetch_GET_def)
  ultimately show ?thesis
    using e d by (simp add: add_push_fields)
qed

theorem ids_stay_distinct_witness:
  "distinct (map id' (games (running (sample_world 0 1700 7))))
   \<and> id' (fst (add_push (add_request ''Snake'' ''Eat and grow'' ''http://snake'') (running (sample_world 0 1700 7))))
       \<notin> id' ` set (games (running (sample_world 0 1700 7)))
   \<and> distinct (map id' (games (snd (post_add cfg0 (add_request ''Snake'' ''Eat and grow'' ''http://snake'')
                                       (running (sample_world 0 1700 7))))))
   \<and> (10 :: nat) \<le> 10
   \<and> games (snd (post_delete cfg0 (id_request (id' game1)) (running (sample_world 0 1700 7)))) = [game2]
   \<and> distinct (map id' (games (snd (post_delete cfg0 (id_request (id' game1)) (running (sample_world 0 1700 7))))))
   \<and> (case run cfg0 (alone 10 1 Delete (id_request (id' game1))) (idle (running (sample_world 0 1700 7))) of
        None \<Rightarrow> False
      | Some sys \<Rightarrow> pool sys = [] \<and> distinct (map id' (games (server sys))))
   \<and> games (snd (post_edit cfg0 (edit_request (id' game1) '''' ''X'') (running (sample_world 0 1700 7))))
       = [game1\<lparr>description := js ''X'', updatedAt := Some (js ''T1700'')\<rparr>, game2]
   \<and> distinct (map id' (games (snd (post_edit cfg0 (edit_request (id' game1) '''' ''X'')
                                       (running (sample_world 0 1700 7))))))
   \<and> (case run cfg0 (alone 10 1 Edit (edit_request (id' game1) '''' ''X'')) (idle (running (sample_world 0 1700 7))) of
        None \<Rightarrow> False
      | Some sys \<Rightarrow> pool sys = [] \<and> distinct (map id' (games (server sys))))
   \<and> (id' (fst (add_push (add_request ''B'' ''second'' ''http://b'')
                  (snd (post_add cfg0 (add_request ''A'' ''first'' ''http://a'') (boot (sample_world 0 1700 0))))))
         \<in> id' ` set (games (snd (post_add cfg0 (add_request ''A'' ''first'' ''http://a'') (boot (sample_world 0 1700 0)))))
      \<and> answers (fst (post_add cfg0 (add_request ''B'' ''second'' ''http://b'')
                       (snd (post_add cfg0 (add_request ''A'' ''first'' ''http://a'') (boot (sample_world 0 1700 0)))))) 201)
   \<and> distinct (map id' (games (snd (post_add cfg0 (add_request ''A'' ''first'' ''http://a'') (boot (sample_world 0 1700 0))))))
   \<and> distinct (map id' (games (initial copied_entry)))
   \<and> (get_resp (world (initial copied_entry)) (n_get (initial copied_entry))
         = GetResponse 200 (Inr \<lparr>doc_sha = Some (js ''remote''), doc_content = Inr [twinA, twinB]\<rparr>)
      \<and> (200 :: nat) \<noteq> 404
      \<and> doc_content \<lparr>doc_sha = Some (js ''remote''), doc_content = Inr [twinA, twinB]\<rparr> = Inr [twinA, twinB])
   \<and> games (loadFromGitHub (initial copied_entry)) = [twinA, twinB]"
proof -
  have c: "distinct (map id' (games (initial copied_entry)))
   \<and> (get_resp (world (initial copied_entry)) (n_get (initial copied_entry))
         = GetResponse 200 (Inr \<lparr>doc_sha = Some (js ''remote''), doc_content = Inr [twinA, twinB]\<rparr>)
      \<and> (200 :: nat) \<noteq> 404
      \<and> doc_content \<lparr>doc_sha = Some (js ''remote''), doc_content = Inr [twinA, twinB]\<rparr> = Inr [twinA, twinB])"
    by (simp add: initial_def copied_entry_def sample_world_def document_def)
  have a: "distinct (map id' (games (running (sample_world 0 1700 7))))
   \<and> id' (fst (add_push (add_request ''Snake'' ''Eat and grow'' ''http://snake'') (running (sample_world 0 1700 7))))
       \<notin> id' ` set (games (running (sample_world 0 1700 7)))
   \<and> (10 :: nat) \<le> 10"
    by (simp add: eval_defs)
  have d: "games (snd (post_delete cfg0 (id_request (id' game1)) (running (sample_world 0 1700 7)))) = [game2]"
    by (simp add: eval_defs)
  have e: "games (snd (post_edit cfg0 (edit_request (id' game1) '''' ''X'') (running (sample_world 0 1700 7))))
       = [game1\<lparr>description := js ''X'', updatedAt := Some (js ''T1700'')\<rparr>, game2]"
    by (simp add: eval_defs)
  have b: "(id' (fst (add_push (add_request ''B'' ''second'' ''http://b'')
                  (snd (post_add cfg0 (add_request ''A'' ''first'' ''http://a'') (boot (sample_world 0 1700 0))))))
         \<in> id' ` set (games (snd (post_add cfg0 (add_request ''A'' ''first'' ''http://a'') (boot (sample_world 0 1700 0)))))
      \<and> answers (fst (post_add cfg0 (add_request ''B'' ''second'' ''http://b'')
                       (snd (post_add cfg0 (add_request ''A'' ''first'' ''http://a'') (boot (sample_world 0 1700 0)))))) 201)
   \<and> distinct (map id' (games (snd (post_add cfg0 (add_request ''A'' ''first'' ''http://a'') (boot (sample_world 0 1700 0))))))"
    by (simp add: eval_defs)
  from a ids_stay_distinct [of "running (sample_world 0 1700 7)" cfg0
      "add_request ''Snake'' ''Eat and grow'' ''http://snake''" 10 1]
  have w1: "distinct (map id' (games (snd (post_add cfg0 (add_request ''Snake'' ''Eat and grow'' ''http://snake'')
                                       (running (sample_world 0 1700 7))))))"
    by blast
  from a ids_stay_distinct [of "running (sample_world 0 1700 7)" cfg0 "id_request (id' game1)" 10 1]
  have w2: "distinct (map id' (games (snd (post_delete cfg0 (id_request (id' game1)) (running (sample_world 0 1700 7))))))
   \<and> (case run cfg0 (alone 10 1 Delete (id_request (id' game1))) (idle (running (sample_world 0 1700 7))) of
        None \<Rightarrow> False
      | Some sys \<Rightarrow> pool sys = [] \<and> distinct (map id' (games (server sys))))"
    by blast
  from a ids_stay_distinct [of "running (sample_world 0 1700 7)" cfg0 "edit_request (id' game1) '''' ''X''" 10 1]
  have w3: "distinct (map id' (games (snd (post_edit cfg0 (edit_request (id' game1) '''' ''X'')
                                       (running (sample_world 0 1700 7))))))
   \<and> (case run cfg0 (alone 10 1 Edit (edit_request (id' game1) '''' ''X'')) (idle (running (sample_world 0 1700 7))) of
        None \<Rightarrow> False
      | Some sys \<Rightarrow> pool sys = [] \<and> distinct (map id' (games (server sys))))"
    by blast
  from c ids_stay_distinct [of "initial copied_entry" cfg0 admin_request 10 1 200
      "\<lparr>doc_sha = Some (js ''remote''), doc_content = Inr [twinA, twinB]\<rparr>" "[twinA, twinB]"]
  have w4: "games (loadFromGitHub (initial copied_entry)) = [twinA, twinB]"
    by blast
  from a b c d e w1 w2 w3 w4 show ?thesis by blast
qed

text \<open>
  C8 as stated fails: from the empty collection, two adds that read the same millisecond on the
  clock and draw the same random number both succeed, and leave two entries with the same id.
  So does a boot from a \<open>games.json\<close> in which an entry has been copied. And an edit that
  another request overlaps can leave two entries with one id although every id was distinct:
  on a server that holds [Pong, Tetris], the edit of Tetris finds it at index 1 and waits,
  the delete of Pong is stored, and the edit, whose three attempts fail, writes the saved copy
  of Tetris back at index 1 of an array that holds the edited Tetris alone.
\<close>

theorem add_id_not_fresh_counterexample:
  "games (boot (sample_world 0 1700 0)) = []
   \<and> answers (fst (post_add cfg0 (add_request ''A'' ''first'' ''http://a'') (boot (sample_world 0 1700 0)))) 201
   \<and> answers (fst (post_add cfg0 (add_request ''B'' ''second'' ''http://b'')
        (snd (post_add cfg0 (add_request ''A'' ''first'' ''http://a'') (boot (sample_world 0 1700 0)))))) 201
   \<and> map id' (games (snd (post_add cfg0 (add_request ''B'' ''second'' ''http://b'')
        (snd (post_add cfg0 (add_request ''A'' ''first'' ''http://a'') (boot (sample_world 0 1700 0)))))))
       = [js ''game_1700_k3j2h'', js ''game_1700_k3j2h'']
   \<and> \<not> distinct (map id' (games (snd (post_add cfg0 (add_request ''B'' ''second'' ''http://b'')
        (snd (post_add cfg0 (add_request ''A'' ''first'' ''http://a'') (boot (sample_world 0 1700 0))))))))
   \<and> map id' (games (boot copied_entry)) = [js ''game_1700_k3j2h'', js ''game_1700_k3j2h'']
   \<and> \<not> distinct (map id' (games (boot copied_entry)))
   \<and> distinct (map id' (games (running flaky_world)))
   \<and> (case run cfg0 overlapping_edit_delete (idle (running flaky_world)) of
        None \<Rightarrow> False
      | Some sys \<Rightarrow>
          replies sys = [(2, Responded \<lparr>status = 200, json = JOkId (id' game1)\<rparr>),
                         (1, Responded \<lparr>status = 500, json = JError (js ''Failed to persist changes'')\<rparr>)]
          \<and> pool sys = []
          \<and> games (server sys) = [tetris2, game2]
          \<and> \<not> distinct (map id' (games (server sys))))"
  by (simp add: eval_defs step_defs)

text \<open>
  C9, as the code has it. For a request to POST /add that the JSON body parser, \<open>requireAuth\<close>
  and the upload middleware have let through, and whose title, description and link are each
  a string or absent: if one of the three is absent or blank after trimming, the answer is 400
  and the state is unchanged. Otherwise the handler pushes at the end of the collection an
  entry whose title, description and link are the trimmed inputs, whose id is \<open>game_\<close>, the
  clock reading, \<open>_\<close> and five characters of a random draw, whose \<open>createdAt\<close> is the next
  clock reading and which has no \<open>updatedAt\<close>; when the persist step succeeds the answer is
  201 with that entry, and the collection is the old one followed by it. When one of the three
  is of another type, the handler looks at title, description and link in this order, and the
  first that is blank or of another type decides: a blank one gives 400, and on one of another
  type \<open>trim\<close> is not a function, the handler throws, and the state is unchanged.
\<close>

theorem add_validates_and_appends:
  assumes "json_parser req = None" and "requireAuth cfg req = None" and "upload_single req = None"
  shows "(\<not> untrimmable req
          \<and> (blank (body_title req) \<or> blank (body_description req) \<or> blank (body_link req))
      \<longrightarrow> post_add cfg req st
            = (Responded \<lparr>status = 400, json = JError (js ''title, description, and link are required'')\<rparr>, st))
     \<and> (\<not> untrimmable req
          \<and> \<not> blank (body_title req) \<and> \<not> blank (body_description req) \<and> \<not> blank (body_link req)
      \<longrightarrow> (\<exists>t d l. body_title req = Some (VString t) \<and> body_description req = Some (VString d)
             \<and> body_link req = Some (VString l)
             \<and> title (fst (add_push req st)) = trim t
             \<and> description (fst (add_push req st)) = trim d
             \<and> link (fst (add_push req st)) = trim l)
          \<and> id' (fst (add_push req st))
              = js ''game_'' @ dec_int (clock (world st) (n_clock st)) @ js ''_''
                  @ slice' (random36 (world st) (n_random st)) 2 7
          \<and> createdAt (fst (add_push req st)) = toISOString (world st) (clock (world st) (Suc (n_clock st)))
          \<and> updatedAt (fst (add_push req st)) = None
          \<and> games (snd (add_push req st)) = games st @ [fst (add_push req st)]
          \<and> add_route cfg req st = (Inr (fst (add_push req st)), snd (add_push req st))
          \<and> (fst (add_persist req st) = Inr ()
              \<longrightarrow> fst (post_add cfg req st) = Responded \<lparr>status = 201, json = JGame (fst (add_push req st))\<rparr>
                \<and> games (snd (post_add cfg req st)) = games st @ [fst (add_push req st)]))
     \<and> (blank (body_title req)
          \<or> \<not> trim_throws (body_title req) \<and> blank (body_description req)
          \<or> \<not> trim_throws (body_title req) \<and> \<not> trim_throws (body_description req) \<and> blank (body_link req)
      \<longrightarrow> post_add cfg req st
            = (Responded \<lparr>status = 400, json = JError (js ''title, description, and link are required'')\<rparr>, st))
     \<and> (trim_throws (body_title req)
      \<longrightarrow> post_add cfg req st = (Rejected (TypeError ''title''), st))
     \<and> (\<not> blank (body_title req) \<and> \<not> trim_throws (body_title req) \<and> trim_throws (body_description req)
      \<longrightarrow> post_add cfg req st = (Rejected (TypeError ''description''), st))
     \<and> (\<not> blank (body_title req) \<and> \<not> trim_throws (body_title req)
          \<and> \<not> blank (body_description req) \<and> \<not> trim_throws (body_description req)
          \<and> trim_throws (body_link req)
      \<longrightarrow> post_add cfg req st = (Rejected (TypeError ''link''), st))"
proof -
  have route: "post_add cfg req st = (case add_handler req st of
                   (Inl out, st1) \<Rightarrow> (out, st1)
                 | (Inr game, st1) \<Rightarrow>
                     (case saveToGitHub (commit_message ''add'' (title game)) st1 of
                        (r, st2) \<Rightarrow> add_after game r st2))"
    using assms by (simp add: post_add_def add_route_def)
  have bad: "post_add cfg req st
            = (Responded \<lparr>status = 400, json = JError (js ''title, description, and link are required'')\<rparr>, st)"
    if "blank (body_title req)
          \<or> \<not> trim_throws (body_title req) \<and> blank (body_description req)
          \<or> \<not> trim_throws (body_title req) \<and> \<not> trim_throws (body_description req) \<and> blank (body_link req)"
    using that by (auto simp add: route add_handler_def blank_iff)
  have bad': "post_add cfg req st
            = (Responded \<lparr>status = 400, json = JError (js ''title, description, and link are required'')\<rparr>, st)"
    if "\<not> untrimmable req" "blank (body_title req) \<or> blank (body_description req) \<or> blank (body_link req)"
    using that bad by (auto simp add: untrimmable_def)
  have thrown: "(trim_throws (body_title req)
      \<longrightarrow> post_add cfg req st = (Rejected (TypeError ''title''), st))
     \<and> (\<not> blank (body_title req) \<and> \<not> trim_throws (body_title req) \<and> trim_throws (body_description req)
      \<longrightarrow> post_add cfg req st = (Rejected (TypeError ''description''), st))
     \<and> (\<not> blank (body_title req) \<and> \<not> trim_throws (body_title req)
          \<and> \<not> blank (body_description req) \<and> \<not> trim_throws (body_description req)
          \<and> trim_throws (body_link req)
      \<longrightarrow> post_add cfg req st = (Rejected (TypeError ''link''), st))"
    by (simp add: route add_handler_def blank_iff)
  have good: "(\<exists>t d l. body_title req = Some (VString t) \<and> body_description req = Some (VString d)
             \<and> body_link req = Some (VString l)
             \<and> title (fst (add_push req st)) = trim t
             \<and> description (fst (add_push req st)) = trim d
             \<and> link (fst (add_push req st)) = trim l)
          \<and> add_route cfg req st = (Inr (fst (add_push req st)), snd (add_push req st))
          \<and> (fst (add_persist req st) = Inr ()
              \<longrightarrow> fst (post_add cfg req st) = Responded \<lparr>status = 201, json = JGame (fst (add_push req st))\<rparr>
                \<and> games (snd (post_add cfg req st)) = games st @ [fst (add_push req st)])"
    if nt: "\<not> untrimmable req"
      and nb: "\<not> blank (body_title req) \<and> \<not> blank (body_description req) \<and> \<not> blank (body_link req)"
  proof -
    from nt have th: "\<not> trim_throws (body_title req)" "\<not> trim_throws (body_description req)"
      "\<not> trim_throws (body_link req)"
      by (simp_all add: untrimmable_def)
    from nb th have tr: "truthy (trimOpt (body_title req))" "truthy (trimOpt (body_description req))"
      "truthy (trimOpt (body_link req))"
      by (simp_all add: blank_iff)
    from nb th not_blank_string [of "body_title req"] not_blank_string [of "body_description req"]
      not_blank_string [of "body_link req"]
    have "\<exists>t d l. body_title req = Some (VString t) \<and> body_description req = Some (VString d)
             \<and> body_link req = Some (VString l)
             \<and> title (fst (add_push req st)) = trim t
             \<and> description (fst (add_push req st)) = trim d
             \<and> link (fst (add_push req st)) = trim l"
      by (auto simp add: add_push_fields)
    moreover have "fst (post_add cfg req st) = Responded \<lparr>status = 201, json = JGame (fst (add_push req st))\<rparr>
                \<and> games (snd (post_add cfg req st)) = games st @ [fst (add_push req st)]"
      if "fst (add_persist req st) = Inr ()"
      using post_add_ok [OF assms(2,3) tr that] by simp
    moreover have "add_route cfg req st = (Inr (fst (add_push req st)), snd (add_push req st))"
      using add_route_reaches [OF assms(2,3) tr] .
    ultimately show ?thesis by blast
  qed
  from bad bad' thrown good show ?thesis
    by (simp add: add_push_fields)
qed

theorem add_validates_and_appends_witness:
  "json_parser (add_request ''   '' ''Bat and ball'' ''http://pong'') = None
   \<and> requireAuth cfg0 (add_request ''   '' ''Bat and ball'' ''http://pong'') = None
   \<and> upload_single (add_request ''   '' ''Bat and ball'' ''http://pong'') = None
   \<and> \<not> untrimmable (add_request ''   '' ''Bat and ball'' ''http://pong'')
   \<and> blank (body_title (add_request ''   '' ''Bat and ball'' ''http://pong''))
   \<and> post_add cfg0 (add_request ''   '' ''Bat and ball'' ''http://pong'') (running (sample_world 0 1700 7))
       = (Responded \<lparr>status = 400, json = JError (js ''title, description, and link are required'')\<rparr>,
          running (sample_world 0 1700 7))
   \<and> json_parser (add_request ''  Snake '' ''Eat and grow'' ''http://snake'') = None
   \<and> requireAuth cfg0 (add_request ''  Snake '' ''Eat and grow'' ''http://snake'') = None
   \<and> upload_single (add_request ''  Snake '' ''Eat and grow'' ''http://snake'') = None
   \<and> \<not> untrimmable (add_request ''  Snake '' ''Eat and grow'' ''http://snake'')
   \<and> (\<not> blank (body_title (add_request ''  Snake '' ''Eat and grow'' ''http://snake''))
      \<and> \<not> blank (body_description (add_request ''  Snake '' ''Eat and grow'' ''http://snake''))
      \<and> \<not> blank (body_link (add_request ''  Snake '' ''Eat and grow'' ''http://snake'')))
   \<and> fst (add_persist (add_request ''  Snake '' ''Eat and grow'' ''http://snake'') (running (sample_world 0 1700 7)))
       = Inr ()
   \<and> fst (post_add cfg0 (add_request ''  Snake '' ''Eat and grow'' ''http://snake'') (running (sample_world 0 1700 7)))
       = Responded \<lparr>status = 201,
          json = JGame (fst (add_push (add_request ''  Snake '' ''Eat and grow'' ''http://snake'')
                               (running (sample_world 0 1700 7))))\<rparr>
   \<and> fst (add_push (add_request ''  Snake '' ''Eat and grow'' ''http://snake'') (running (sample_world 0 1700 7)))
       = snake
   \<and> json_parser number_title = None \<and> requireAuth cfg0 number_title = None
   \<and> upload_single number_title = None \<and> trim_throws (body_title number_title)
   \<and> post_add cfg0 number_title (running (sample_world 0 1700 7))
       = (Rejected (TypeError ''title''), running (sample_world 0 1700 7))"
proof -
  have b: "json_parser (add_request ''   '' ''Bat and ball'' ''http://pong'') = None
   \<and> requireAuth cfg0 (add_request ''   '' ''Bat and ball'' ''http://pong'') = None
   \<and> upload_single (add_request ''   '' ''Bat and ball'' ''http://pong'') = None
   \<and> \<not> untrimmable (add_request ''   '' ''Bat and ball'' ''http://pong'')
   \<and> blank (body_title (add_request ''   '' ''Bat and ball'' ''http://pong''))"
    by (simp add: eval_defs blank_def untrimmable_def)
  have g: "json_parser (add_request ''  Snake '' ''Eat and grow'' ''http://snake'') = None
   \<and> requireAuth cfg0 (add_request ''  Snake '' ''Eat and grow'' ''http://snake'') = None
   \<and> upload_single (add_request ''  Snake '' ''Eat and grow'' ''http://snake'') = None
   \<and> \<not> untrimmable (add_request ''  Snake '' ''Eat and grow'' ''http://snake'')
   \<and> (\<not> blank (body_title (add_request ''  Snake '' ''Eat and grow'' ''http://snake''))
      \<and> \<not> blank (body_description (add_request ''  Snake '' ''Eat and grow'' ''http://snake''))
      \<and> \<not> blank (body_link (add_request ''  Snake '' ''Eat and grow'' ''http://snake'')))
   \<and> fst (add_persist (add_request ''  Snake '' ''Eat and grow'' ''http://snake'') (running (sample_world 0 1700 7)))
       = Inr ()"
    by (simp add: eval_defs blank_def untrimmable_def)
  have e: "fst (add_push (add_request ''  Snake '' ''Eat and grow'' ''http://snake'') (running (sample_world 0 1700 7)))
       = snake"
    by (simp add: eval_defs)
  have n: "json_parser number_title = None \<and> requireAuth cfg0 number_title = None
   \<and> upload_single number_title = None \<and> trim_throws (body_title number_title)"
    by (simp add: eval_defs)
  from b add_validates_and_appends [of "add_request ''   '' ''Bat and ball'' ''http://pong''" cfg0
      "running (sample_world 0 1700 7)"]
  have c1: "post_add cfg0 (add_request ''   '' ''Bat and ball'' ''http://pong'') (running (sample_world 0 1700 7))
       = (Responded \<lparr>status = 400, json = JError (js ''title, description, and link are required'')\<rparr>,
          running (sample_world 0 1700 7))"
    by blast
  from g add_validates_and_appends [of "add_request ''  Snake '' ''Eat and grow'' ''http://snake''" cfg0
      "running (sample_world 0 1700 7)"]
  have c2: "fst (post_add cfg0 (add_request ''  Snake '' ''Eat and grow'' ''http://snake'') (running (sample_world 0 1700 7)))
       = Responded \<lparr>status = 201,
          json = JGame (fst (add_push (add_request ''  Snake '' ''Eat and grow'' ''http://snake'')
                               (running (sample_world 0 1700 7))))\<rparr>"
    by blast
  from n add_validates_and_appends [of number_title cfg0 "running (sample_world 0 1700 7)"]
  have c3: "post_add cfg0 number_title (running (sample_world 0 1700 7))
       = (Rejected (TypeError ''title''), running (sample_world 0 1700 7))"
    by blast
  from b g e n c1 c2 c3 show ?thesis by blast
qed

text \<open>
  C9 as stated fails for a field that is neither a string nor absent: an add whose title is
  the number 5, with a description and a link, has a title that is neither absent nor blank,
  and it is neither answered 400 nor is an entry appended. \<open>title?.trim()\<close> throws, outside
  the \<open>try\<close> of the handler, and the collection is as it was.
\<close>

theorem add_number_title_counterexample:
  "json_parser number_title = None \<and> requireAuth cfg0 number_title = None
   \<and> upload_single number_title = None
   \<and> body_title number_title = Some (VNumber 0x4014000000000000)
   \<and> \<not> blank (body_title number_title) \<and> \<not> blank (body_description number_title)
   \<and> \<not> blank (body_link number_title)
   \<and> post_add cfg0 number_title (running (sample_world 0 1700 7))
       = (Rejected (TypeError ''title''), running (sample_world 0 1700 7))
   \<and> \<not> answers (fst (post_add cfg0 number_title (running (sample_world 0 1700 7)))) 400
   \<and> \<not> answers (fst (post_add cfg0 number_title (running (sample_world 0 1700 7)))) 201
   \<and> games (snd (post_add cfg0 number_title (running (sample_world 0 1700 7))))
       = games (running (sample_world 0 1700 7))"
  by (simp add: eval_defs blank_def)

text \<open>
  C10. When the persist step of an add, an edit or a delete fails, the state the route leaves
  is the state \<open>saveToGitHub\<close> left, with the collection set back and one console line added:
  nothing else is undone, so \<open>fileSHA\<close> is whatever the last successful GET of the retries made
  it. It can differ from the tag before the request: a server holding the tag \<open>old\<close> whose add
  fails ends with the same collection and the tag \<open>remote\<close>.
\<close>

theorem version_tag_not_rolled_back:
  "(requireAuth cfg req = None \<and> upload_single req = None
      \<and> truthy (trimOpt (body_title req)) \<and> truthy (trimOpt (body_description req))
      \<and> truthy (trimOpt (body_link req))
      \<and> fst (add_persist req st) = Inl err
    \<longrightarrow> snd (post_add cfg req st)
          = emit (Console_Error (message_of err)) (snd (add_persist req st)\<lparr>games := games st\<rparr>)
        \<and> fileSHA (snd (post_add cfg req st)) = fileSHA (snd (add_persist req st)))
   \<and> (requireAuth cfg req = None \<and> upload_single req = None \<and> truthy_value (body_id req)
      \<and> findIndex (\<lambda>g. Some (VString (id' g)) = body_id req) (games st) = Some idx
      \<and> \<not> untrimmable req
      \<and> fst (edit_persist req idx st) = Inl err
    \<longrightarrow> snd (post_edit cfg req st)
          = emit (Console_Error (message_of err)) (snd (edit_persist req idx st)\<lparr>games := games st\<rparr>)
        \<and> fileSHA (snd (post_edit cfg req st)) = fileSHA (snd (edit_persist req idx st)))
   \<and> (requireAuth cfg req = None \<and> truthy_value (body_id req)
      \<and> findIndex (\<lambda>g. Some (VString (id' g)) = body_id req) (games st) = Some idx
      \<and> fst (delete_persist idx st) = Inl err
    \<longrightarrow> snd (post_delete cfg req st)
          = emit (Console_Error (message_of err)) (snd (delete_persist idx st)\<lparr>games := games st\<rparr>)
        \<and> fileSHA (snd (post_delete cfg req st)) = fileSHA (snd (delete_persist idx st)))
   \<and> answers (fst (post_add cfg0 (add_request ''Snake'' ''Eat and grow'' ''http://snake'') (running down_world))) 500
   \<and> games (snd (post_add cfg0 (add_request ''Snake'' ''Eat and grow'' ''http://snake'') (running down_world)))
       = games (running down_world)
   \<and> fileSHA (running down_world) = Some (js ''old'')
   \<and> fileSHA (snd (post_add cfg0 (add_request ''Snake'' ''Eat and grow'' ''http://snake'') (running down_world)))
       = Some (js ''remote'')"
proof -
  have "answers (fst (post_add cfg0 (add_request ''Snake'' ''Eat and grow'' ''http://snake'') (running down_world))) 500
   \<and> games (snd (post_add cfg0 (add_request ''Snake'' ''Eat and grow'' ''http://snake'') (running down_world)))
       = games (running down_world)
   \<and> fileSHA (running down_world) = Some (js ''old'')
   \<and> fileSHA (snd (post_add cfg0 (add_request ''Snake'' ''Eat and grow'' ''http://snake'') (running down_world)))
       = Some (js ''remote'')"
    by (simp add: eval_defs)
  then show ?thesis
    by (simp add: post_add_failed post_edit_failed post_delete_failed)
qed

theorem version_tag_not_rolled_back_witness:
  "(requireAuth cfg0 (id_request (id' game1)) = None \<and> truthy_value (body_id (id_request (id' game1)))
      \<and> findIndex (\<lambda>g. Some (VString (id' g)) = body_id (id_request (id' game1))) (games (running down_world)) = Some 0
      \<and> fst (delete_persist 0 (running down_world)) = Inl (Error (js ''socket hang up'')))
   \<and> fileSHA (snd (post_delete cfg0 (id_request (id' game1)) (running down_world)))
       = fileSHA (snd (delete_persist 0 (running down_world)))
   \<and> fileSHA (snd (delete_persist 0 (running down_world))) = Some (js ''remote'')
   \<and> fileSHA (running down_world) = Some (js ''old'')"
proof -
  have d: "requireAuth cfg0 (id_request (id' game1)) = None \<and> truthy_value (body_id (id_request (id' game1)))
      \<and> findIndex (\<lambda>g. Some (VString (id' g)) = body_id (id_request (id' game1))) (games (running down_world)) = Some 0
      \<and> fst (delete_persist 0 (running down_world)) = Inl (Error (js ''socket hang up''))"
    by (simp add: eval_defs)
  have f: "fileSHA (snd (delete_persist 0 (running down_world))) = Some (js ''remote'')
      \<and> fileSHA (running down_world) = Some (js ''old'')"
    by (simp add: eval_defs)
  from d f version_tag_not_rolled_back [of cfg0 "id_request (id' game1)" "running down_world"
      "Error (js ''socket hang up'')" 0]
  show ?thesis by blast
qed

end
